theory Spec2Isabelle
  imports Main "HOL-Library.Word" "HOL-Library.Multiset" "HOL-Library.AList"
begin


section \<open>Text sanitizer (HTML\_processor.h, HTML\_processor.cpp)\<close>

text \<open>
  A \<^verbatim>\<open>std::string\<close> / \<^verbatim>\<open>std::string_view\<close> is a list of bytes. The entity table is the
  \<^verbatim>\<open>static constexpr std::array<EntityLookup, 6> entities\<close> of the header, in its order.
\<close>

record EntityLookup =
  entity :: string
  replacement :: char
  entity_length :: nat

definition entities :: "EntityLookup list" where
  "entities =
    [\<lparr>entity = ''&quot;'', replacement = CHR 0x22, entity_length = 6\<rparr>,
     \<lparr>entity = ''&amp;'', replacement = CHR ''&'', entity_length = 5\<rparr>,
     \<lparr>entity = ''&lt;'', replacement = CHR ''<'', entity_length = 4\<rparr>,
     \<lparr>entity = ''&gt;'', replacement = CHR ''>'', entity_length = 4\<rparr>,
     \<lparr>entity = ''&#39;'', replacement = CHR 0x27, entity_length = 5\<rparr>,
     \<lparr>entity = ''&nbsp;'', replacement = CHR '' '', entity_length = 6\<rparr>]"

text \<open>
  The inner \<^verbatim>\<open>for (const auto& entity : entities)\<close> loop with its \<^verbatim>\<open>break\<close>: the first
  table entry with \<^verbatim>\<open>remaining >= entity.length\<close> and
  \<^verbatim>\<open>memcmp(data + i, entity.entity, entity.length) == 0\<close>.
\<close>

fun match_entity :: "string \<Rightarrow> nat \<Rightarrow> EntityLookup list \<Rightarrow> EntityLookup option" where
  "match_entity d i [] = None"
| "match_entity d i (e # es) =
     (if length d - i \<ge> entity_length e \<and>
         take (entity_length e) (drop i d) = take (entity_length e) (entity e)
      then Some e else match_entity d i es)"

text \<open>
  The scalar loop of \<^verbatim>\<open>processHtmlTagsRegular\<close> from position \<open>i\<close> with the current
  \<^verbatim>\<open>inTag\<close> flag and \<^verbatim>\<open>buffer_\<close>. The tail loop of \<^verbatim>\<open>processHtmlTagsNEON\<close> has the same
  text and is this function started at the position the chunk loop stopped at.
\<close>

function regular_loop :: "string \<Rightarrow> nat \<Rightarrow> bool \<Rightarrow> string \<Rightarrow> string" where
  "regular_loop d i inTag buf =
     (if i < length d then
        (let c = d ! i in
         if c = CHR ''<'' then regular_loop d (i + 1) True buf
         else if c = CHR ''>'' then regular_loop d (i + 1) False buf
         else if inTag then regular_loop d (i + 1) inTag buf
         else if c = CHR ''&'' then
           (case match_entity d i entities of
              Some e \<Rightarrow> regular_loop d (i + (entity_length e - 1) + 1) inTag (buf @ [replacement e])
            | None \<Rightarrow> regular_loop d (i + 1) inTag (buf @ [c]))
         else if c \<noteq> CHR 0x0A \<and> c \<noteq> CHR 0x0D then regular_loop d (i + 1) inTag (buf @ [c])
         else regular_loop d (i + 1) inTag buf)
      else buf)"
  by pat_completeness auto
termination
  by (relation "measure (\<lambda>(d, i, inTag, buf). length d - i)") auto

declare regular_loop.simps [simp del]

definition processHtmlTagsRegular :: "string \<Rightarrow> string" where
  "processHtmlTagsRegular html = (if html = [] then [] else regular_loop html 0 False [])"

text \<open>
  NEON intrinsics on one 16-byte register: a register is the list of its 16 lanes; the
  result lanes of \<^verbatim>\<open>vceqq_u8\<close> (0xFF or 0x00) are booleans, \<^verbatim>\<open>vorrq_u8\<close> is the lane-wise or.
\<close>

definition NEON_CHUNK_SIZE :: nat where
  "NEON_CHUNK_SIZE = 16"

definition vld1q_u8 :: "string \<Rightarrow> nat \<Rightarrow> char list" where
  "vld1q_u8 d i = take NEON_CHUNK_SIZE (drop i d)"

definition vceqq_u8 :: "char list \<Rightarrow> char \<Rightarrow> bool list" where
  "vceqq_u8 chars c = map (\<lambda>x. x = c) chars"

definition vorrq_u8 :: "bool list \<Rightarrow> bool list \<Rightarrow> bool list" where
  "vorrq_u8 a b = map (\<lambda>(x, y). x \<or> y) (zip a b)"

text \<open>
  The byte-by-byte loop over one chunk that holds a special character
  (\<^verbatim>\<open>for (int j = 0; j < NEON_CHUNK_SIZE && (i + j) < length; ++j)\<close>). An entity match
  advances \<open>j\<close> by the entity's length, also past the end of the chunk.
\<close>

function neon_chunk_loop :: "string \<Rightarrow> nat \<Rightarrow> nat \<Rightarrow> bool \<Rightarrow> string \<Rightarrow> bool \<times> string" where
  "neon_chunk_loop d i j inTag buf =
     (if j < NEON_CHUNK_SIZE \<and> i + j < length d then
        (let c = d ! (i + j);
             chars = vld1q_u8 d i;
             less_results = vceqq_u8 chars (CHR ''<'');
             greater_results = vceqq_u8 chars (CHR ''>'');
             amp_results = vceqq_u8 chars (CHR ''&'');
             newline_results = vceqq_u8 chars (CHR 0x0A);
             carriage_results = vceqq_u8 chars (CHR 0x0D)
         in
         if less_results ! j then neon_chunk_loop d i (j + 1) True buf
         else if greater_results ! j then neon_chunk_loop d i (j + 1) False buf
         else if inTag then neon_chunk_loop d i (j + 1) inTag buf
         else if amp_results ! j then
           (case match_entity d (i + j) entities of
              Some e \<Rightarrow> neon_chunk_loop d i (j + (entity_length e - 1) + 1) inTag (buf @ [replacement e])
            | None \<Rightarrow> neon_chunk_loop d i (j + 1) inTag (buf @ [c]))
         else if \<not> newline_results ! j \<and> \<not> carriage_results ! j
           then neon_chunk_loop d i (j + 1) inTag (buf @ [c])
         else neon_chunk_loop d i (j + 1) inTag buf)
      else (inTag, buf))"
  by pat_completeness auto
termination
  by (relation "measure (\<lambda>(d, i, j, inTag, buf). NEON_CHUNK_SIZE - j)") auto

declare neon_chunk_loop.simps [simp del]

text \<open>The \<^verbatim>\<open>while (i < neon_end)\<close> loop over whole chunks.\<close>

function neon_main_loop :: "string \<Rightarrow> nat \<Rightarrow> nat \<Rightarrow> bool \<Rightarrow> string \<Rightarrow> nat \<times> bool \<times> string" where
  "neon_main_loop d neon_end i inTag buf =
     (if i < neon_end then
        (let chars = vld1q_u8 d i;
             is_less = vceqq_u8 chars (CHR ''<'');
             is_greater = vceqq_u8 chars (CHR ''>'');
             is_ampersand = vceqq_u8 chars (CHR ''&'');
             is_newline = vceqq_u8 chars (CHR 0x0A);
             is_carriage = vceqq_u8 chars (CHR 0x0D);
             any_special = vorrq_u8 (vorrq_u8 is_less is_greater)
                                    (vorrq_u8 (vorrq_u8 is_ampersand is_newline) is_carriage)
         in
         if \<not> list_ex (\<lambda>b. b) any_special then
           neon_main_loop d neon_end (i + NEON_CHUNK_SIZE) inTag
             (if \<not> inTag then buf @ take NEON_CHUNK_SIZE (drop i d) else buf)
         else
           (case neon_chunk_loop d i 0 inTag buf of
              (inTag', buf') \<Rightarrow> neon_main_loop d neon_end (i + NEON_CHUNK_SIZE) inTag' buf'))
      else (i, inTag, buf))"
  by pat_completeness auto
termination
  by (relation "measure (\<lambda>(d, neon_end, i, inTag, buf). neon_end - i)")
     (auto simp: NEON_CHUNK_SIZE_def)

declare neon_main_loop.simps [simp del]

definition processHtmlTagsNEON :: "string \<Rightarrow> string" where
  "processHtmlTagsNEON html =
     (if html = [] then []
      else
        (let neon_end = (length html div NEON_CHUNK_SIZE) * NEON_CHUNK_SIZE
         in case neon_main_loop html neon_end 0 False [] of
              (i, inTag, buf) \<Rightarrow> regular_loop html i inTag buf))"


text \<open>
  The scalar loop seen on the unread suffix \<open>drop i d\<close> of the input: the same case
  distinction, written by recursion on the list. It is a proof device, shown equal to
  \<open>regular_loop\<close> below (\<open>regular_loop_suffix\<close>).
\<close>

fun match_prefix :: "string \<Rightarrow> EntityLookup list \<Rightarrow> EntityLookup option" where
  "match_prefix s [] = None"
| "match_prefix s (e # es) =
     (if length s \<ge> entity_length e \<and> take (entity_length e) s = take (entity_length e) (entity e)
      then Some e else match_prefix s es)"

function regular_suffix :: "bool \<Rightarrow> string \<Rightarrow> string" where
  "regular_suffix inTag [] = []"
| "regular_suffix inTag (c # cs) =
     (if c = CHR ''<'' then regular_suffix True cs
      else if c = CHR ''>'' then regular_suffix False cs
      else if inTag then regular_suffix inTag cs
      else if c = CHR ''&'' then
        (case match_prefix (c # cs) entities of
           Some e \<Rightarrow> replacement e # regular_suffix inTag (drop (entity_length e - 1) cs)
         | None \<Rightarrow> c # regular_suffix inTag cs)
      else if c \<noteq> CHR 0x0A \<and> c \<noteq> CHR 0x0D then c # regular_suffix inTag cs
      else regular_suffix inTag cs)"
  by pat_completeness auto
termination
  by (relation "measure (\<lambda>(inTag, s). length s)") auto

text \<open>Text without any character the sanitizer reacts to.\<close>

definition plain :: "string \<Rightarrow> bool" where
  "plain s = list_all (\<lambda>c. c \<noteq> CHR ''<'' \<and> c \<noteq> CHR ''>'' \<and> c \<noteq> CHR ''&'' \<and>
                           c \<noteq> CHR 0x0A \<and> c \<noteq> CHR 0x0D) s"

section \<open>JSON values and the extraction helpers (train\_service\_parser.h)\<close>

text \<open>
  A parsed \<^verbatim>\<open>nlohmann::json\<close> value. Numbers are integers (no field the parser reads is
  fractional); an object is its list of members, looked up by key with \<open>map_of\<close>.
\<close>

datatype json =
    JNull
  | JBool bool
  | JNum int
  | JStr string
  | JArr "json list"
  | JObj "(string \<times> json) list"

text \<open>
  The exceptions that leave the parser. \<open>JsonParseError\<close> and \<open>JsonTypeError\<close> are
  \<^verbatim>\<open>json::parse_error\<close> and \<^verbatim>\<open>json::type_error\<close> (both \<^verbatim>\<open>json::exception\<close>);
  \<open>VectorOutOfBounds\<close> marks an unchecked \<^verbatim>\<open>std::vector::operator[]\<close> read past the end,
  which C++ leaves undefined.
\<close>

datatype error =
    OutOfRange string
  | RuntimeError string
  | JsonParseError
  | JsonTypeError
  | VectorOutOfBounds

definition is_json_exception :: "error \<Rightarrow> bool" where
  "is_json_exception e = (e = JsonParseError \<or> e = JsonTypeError)"

definition vec_at :: "'a list \<Rightarrow> nat \<Rightarrow> error + 'a" where
  "vec_at xs i = (if i < length xs then Inr (xs ! i) else Inl VectorOutOfBounds)"

text \<open>\<^verbatim>\<open>j.find(key)\<close>: \<^verbatim>\<open>end()\<close> unless \<open>j\<close> is an object with that member.\<close>

definition json_find :: "json \<Rightarrow> string \<Rightarrow> json option" where
  "json_find j k = (case j of JObj kvs \<Rightarrow> map_of kvs k | _ \<Rightarrow> None)"

text \<open>\<^verbatim>\<open>j.size()\<close> and \<^verbatim>\<open>j.empty()\<close>.\<close>

definition json_size :: "json \<Rightarrow> nat" where
  "json_size j = (case j of JNull \<Rightarrow> 0 | JArr xs \<Rightarrow> length xs | JObj kvs \<Rightarrow> length kvs | _ \<Rightarrow> 1)"

definition json_empty :: "json \<Rightarrow> bool" where
  "json_empty j = (json_size j = 0)"

text \<open>
  The non-const \<^verbatim>\<open>operator[]\<close>. On \<^verbatim>\<open>null\<close> or on a missing member or element it inserts
  \<^verbatim>\<open>null\<close> and returns it; every helper below reads an inserted \<^verbatim>\<open>null\<close> like an absent
  member, so the insertion is not kept in the model. On any other type it throws
  \<^verbatim>\<open>type_error\<close>.
\<close>

definition json_key :: "json \<Rightarrow> string \<Rightarrow> error + json" where
  "json_key j k =
     (case j of
        JNull \<Rightarrow> Inr JNull
      | JObj kvs \<Rightarrow> Inr (case map_of kvs k of Some v \<Rightarrow> v | None \<Rightarrow> JNull)
      | _ \<Rightarrow> Inl JsonTypeError)"

definition json_idx :: "json \<Rightarrow> nat \<Rightarrow> error + json" where
  "json_idx j i =
     (case j of
        JNull \<Rightarrow> Inr JNull
      | JArr xs \<Rightarrow> Inr (if i < length xs then xs ! i else JNull)
      | _ \<Rightarrow> Inl JsonTypeError)"

text \<open>\<^verbatim>\<open>data["trainServices"][service_index]\<close>.\<close>

definition trainService_at :: "json \<Rightarrow> nat \<Rightarrow> error + json" where
  "trainService_at d i =
     (case json_key d ''trainServices'' of Inl e \<Rightarrow> Inl e | Inr ts \<Rightarrow> json_idx ts i)"

text \<open>
  \<^verbatim>\<open>extractJSONvalue<T>\<close> for the three types it is used at. It is \<^verbatim>\<open>noexcept\<close>: a value
  of the wrong type makes \<^verbatim>\<open>get<T>()\<close> throw, which the \<^verbatim>\<open>catch (...)\<close> turns into the
  default. A \<^verbatim>\<open>size_t\<close> is read from a number by conversion to 64 bits.
\<close>

definition extractJSONvalue_string :: "json \<Rightarrow> string \<Rightarrow> string \<Rightarrow> string" where
  "extractJSONvalue_string source key default_value =
     (case json_find source key of
        Some (JStr v) \<Rightarrow> if v = [] then default_value else v
      | _ \<Rightarrow> default_value)"

definition extractJSONvalue_bool :: "json \<Rightarrow> string \<Rightarrow> bool \<Rightarrow> bool" where
  "extractJSONvalue_bool source key default_value =
     (case json_find source key of Some (JBool b) \<Rightarrow> b | _ \<Rightarrow> default_value)"

definition extractJSONvalue_size_t :: "json \<Rightarrow> string \<Rightarrow> nat \<Rightarrow> nat" where
  "extractJSONvalue_size_t source key default_value =
     (case json_find source key of Some (JNum n) \<Rightarrow> nat (n mod 2 ^ 64) | _ \<Rightarrow> default_value)"

text \<open>
  \<^verbatim>\<open>extractJSONTimeString\<close>: the default for an absent, null, non-string or empty value,
  else \<^verbatim>\<open>value.substr(11,5)\<close>, which throws \<^verbatim>\<open>std::out_of_range\<close> on a string shorter than
  11 characters (only \<^verbatim>\<open>json::exception\<close> is caught there).
\<close>

definition extractJSONTimeString :: "json \<Rightarrow> string \<Rightarrow> string \<Rightarrow> error + string" where
  "extractJSONTimeString source key default_value =
     (case json_find source key of
        Some (JStr v) \<Rightarrow>
          if v = [] then Inr default_value
          else if length v < 11 then Inl (OutOfRange ''basic_string::substr'')
          else Inr (take 5 (drop 11 v))
      | _ \<Rightarrow> Inr default_value)"

text \<open>
  \<^verbatim>\<open>extractJSONTime\<close>. Reading the text with \<^verbatim>\<open>std::get_time\<close> (format
  \<^verbatim>\<open>%Y-%m-%dT%H:%M:%S\<close>) and converting with \<^verbatim>\<open>std::mktime\<close> belong to the C++ library and
  the time zone of the host: the parameter \<open>mk\<close>, \<open>None\<close> when the stream fails.
\<close>

definition extractJSONTime :: "(string \<Rightarrow> int option) \<Rightarrow> json \<Rightarrow> string \<Rightarrow> int \<Rightarrow> int" where
  "extractJSONTime mk source key default_time =
     (case json_find source key of
        Some (JStr time_str) \<Rightarrow>
          if time_str = [] then default_time
          else (case mk time_str of None \<Rightarrow> default_time | Some t \<Rightarrow> t)
      | _ \<Rightarrow> default_time)"

text \<open>\<^verbatim>\<open>extractNestedJSONvalue<std::string>\<close>.\<close>

definition extractNestedJSONvalue_string ::
  "json \<Rightarrow> string \<Rightarrow> nat \<Rightarrow> string \<Rightarrow> string \<Rightarrow> string" where
  "extractNestedJSONvalue_string source key1 index key2 default_value =
     (case json_find source key1 of
        Some (JArr xs) \<Rightarrow>
          if length xs > index then
            (case json_find (xs ! index) key2 of
               Some (JStr v) \<Rightarrow> if v = [] then default_value else v
             | _ \<Rightarrow> default_value)
          else default_value
      | _ \<Rightarrow> default_value)"

text \<open>\<^verbatim>\<open>std::to_string\<close> of a \<^verbatim>\<open>size_t\<close>: decimal digits.\<close>

definition digit_char :: "nat \<Rightarrow> char" where
  "digit_char n = ''0123456789'' ! n"

function to_string :: "nat \<Rightarrow> string" where
  "to_string n = (if n < 10 then [digit_char n] else to_string (n div 10) @ [digit_char (n mod 10)])"
  by pat_completeness auto
termination
  by (relation "measure id") auto

declare to_string.simps [simp del]

text \<open>\<^verbatim>\<open>safe_at\<close>.\<close>

definition safe_at :: "'a list \<Rightarrow> nat \<Rightarrow> 'a \<Rightarrow> 'a" where
  "safe_at container index default_val = (if index < length container then container ! index else default_val)"

section \<open>Data model of the parser (train\_service\_parser.h)\<close>

text \<open>
  A \<^verbatim>\<open>time_t\<close> is an integer, \<^verbatim>\<open>INVALID_TIME\<close> is 0. The snapshot version is an
  \<^verbatim>\<open>int64_t\<close> at the interface and a \<^verbatim>\<open>uint64_t\<close> in the tier stamps: a 64-bit word, whose
  comparison for equality is the same under both readings. Where two structs share a field
  name, the field carries a suffix naming its struct.
\<close>

definition INVALID_TIME :: int where
  "INVALID_TIME = 0"

record ServiceSequence =
  std_specified :: bool
  std :: int
  etd_specified :: bool
  etd :: int
  departure_time :: int
  platform :: string
  trainid_seq :: string
  api_version :: "64 word"

record BasicServiceInfo =
  trainid_basic :: string
  destination :: string
  scheduledDepartureTime :: string
  estimatedDepartureTime :: string
  operator_name :: string
  coaches :: string
  isCancelled :: bool
  isDelayed :: bool
  cancelReason :: string
  delayReason :: string
  adhocAlerts :: string
  apiDataVersion_basic :: "64 word"
  static_data_available_basic :: bool

record LocationInfo =
  locationName :: string
  isPass :: bool
  isCancelled_loc :: bool
  ArrivalTime :: string
  ArrivalType :: string
  DepartureTime :: string

record CoachInfo =
  standard_class :: bool
  first_class :: bool
  service_loading :: nat
  standard_toilet :: bool
  accessible_toilet :: bool
  number :: string

record AdditionalServiceInfo =
  trainid_add :: string
  apiDataVersion_add :: "64 word"
  static_data_available_add :: bool
  origin :: string
  loading_type :: string
  loadingPercentage :: nat
  Formation :: "CoachInfo list"
  platformIsHidden :: bool
  serviceIsSupressed :: bool
  isPassengerService :: bool

record CallingPointsInfo =
  trainid_cp :: string
  apiDataVersion_cp :: "64 word"
  callingPointsCached :: bool
  callingPoints :: string
  callingPoints_with_ETD :: string
  PreviousCallingPoints :: "LocationInfo list"
  SubsequentCallingPoints :: "LocationInfo list"
  num_previous_calling_points :: nat
  num_subsequent_calling_points :: nat
  service_location_cached :: bool
  service_location :: string

record DelayCancelReason =
  delayReason_ref :: string
  cancelReason_ref :: string
  code :: string

text \<open>
  The value-initialised elements of \<^verbatim>\<open>std::vector<T>(n)\<close>: empty strings, zero, false.
\<close>

definition default_ServiceSequence :: ServiceSequence where
  "default_ServiceSequence =
     \<lparr>std_specified = False, std = 0, etd_specified = False, etd = 0, departure_time = 0,
      platform = [], trainid_seq = [], api_version = 0\<rparr>"

definition default_BasicServiceInfo :: BasicServiceInfo where
  "default_BasicServiceInfo =
     \<lparr>trainid_basic = [], destination = [], scheduledDepartureTime = [],
      estimatedDepartureTime = [], operator_name = [], coaches = [], isCancelled = False,
      isDelayed = False, cancelReason = [], delayReason = [], adhocAlerts = [],
      apiDataVersion_basic = 0, static_data_available_basic = False\<rparr>"

definition default_AdditionalServiceInfo :: AdditionalServiceInfo where
  "default_AdditionalServiceInfo =
     \<lparr>trainid_add = [], apiDataVersion_add = 0, static_data_available_add = False, origin = [],
      loading_type = [], loadingPercentage = 0, Formation = [], platformIsHidden = False,
      serviceIsSupressed = False, isPassengerService = False\<rparr>"

definition default_CallingPointsInfo :: CallingPointsInfo where
  "default_CallingPointsInfo =
     \<lparr>trainid_cp = [], apiDataVersion_cp = 0, callingPointsCached = False, callingPoints = [],
      callingPoints_with_ETD = [], PreviousCallingPoints = [], SubsequentCallingPoints = [],
      num_previous_calling_points = 0, num_subsequent_calling_points = 0,
      service_location_cached = False, service_location = []\<rparr>"

text \<open>
  A default-initialised local or member (\<^verbatim>\<open>BasicServiceInfo new_basic_item;\<close>): its strings
  are empty, its scalar members hold whatever the memory held, given here by \<open>junk\<close>.
\<close>

definition uninitialised_BasicServiceInfo :: "BasicServiceInfo \<Rightarrow> BasicServiceInfo" where
  "uninitialised_BasicServiceInfo junk =
     \<lparr>trainid_basic = [], destination = [], scheduledDepartureTime = [],
      estimatedDepartureTime = [], operator_name = [], coaches = [],
      isCancelled = isCancelled junk, isDelayed = isDelayed junk, cancelReason = [],
      delayReason = [], adhocAlerts = [], apiDataVersion_basic = apiDataVersion_basic junk,
      static_data_available_basic = static_data_available_basic junk\<rparr>"

definition uninitialised_AdditionalServiceInfo :: "AdditionalServiceInfo \<Rightarrow> AdditionalServiceInfo" where
  "uninitialised_AdditionalServiceInfo junk =
     \<lparr>trainid_add = [], apiDataVersion_add = apiDataVersion_add junk,
      static_data_available_add = static_data_available_add junk, origin = [],
      loading_type = [], loadingPercentage = loadingPercentage junk, Formation = [],
      platformIsHidden = platformIsHidden junk, serviceIsSupressed = serviceIsSupressed junk,
      isPassengerService = isPassengerService junk\<rparr>"

text \<open>
  The members of \<^verbatim>\<open>class TrainServiceParser\<close>. An \<^verbatim>\<open>unordered_map\<close> is a key-value list with
  distinct keys (\<open>map_of\<close> for \<^verbatim>\<open>find\<close>, \<open>AList.update\<close> for \<^verbatim>\<open>m[k] = v\<close>, \<open>length\<close> for
  \<^verbatim>\<open>size()\<close>). The scratch members (\<^verbatim>\<open>i\<close>, \<^verbatim>\<open>extract\<close>, \<^verbatim>\<open>index\<close>, \<^verbatim>\<open>ID\<close>, \<^verbatim>\<open>trainid\<close>, \<^verbatim>\<open>ss\<close>,
  \<^verbatim>\<open>c\<close>), which every method writes before it reads, the mutex and the unused \<^verbatim>\<open>refdata\<close>
  member are left out.
\<close>

record TrainServiceParser =
  max_json_size :: nat
  number_of_departures :: nat
  cached_trainIDs :: "(string \<times> nat) list"
  selectPlatform :: bool
  selected_platform :: string
  refdata_loaded :: bool
  reason_codes :: "(string \<times> nat) list"
  delay_cancel_reasons :: "DelayCancelReason list"
  location_name :: string
  NRCC_message :: string
  data :: json
  api_data_version :: "64 word"
  services_sequence :: "ServiceSequence list"
  services_basic :: "BasicServiceInfo list"
  services_additions :: "AdditionalServiceInfo list"
  services_callingpoints :: "CallingPointsInfo list"
  null_basic_service :: BasicServiceInfo
  null_additional_service :: AdditionalServiceInfo
  number_of_services :: nat
  service_List :: "nat list"
  ETDOrderedList :: "nat list"

text \<open>
  What the parser takes from its platform: \<^verbatim>\<open>json::parse\<close> (\<open>None\<close> for a \<^verbatim>\<open>parse_error\<close>),
  the time conversion of \<open>extractJSONTime\<close>, \<^verbatim>\<open>std::sort\<close>, and the indeterminate scalar
  members of the locals \<^verbatim>\<open>new_basic_item\<close> and \<^verbatim>\<open>new_additional_item\<close> in the hydration of a
  given index.
\<close>

record platform_env =
  parse_json :: "string \<Rightarrow> json option"
  mk_time :: "string \<Rightarrow> int option"
  std_sort :: "(nat \<Rightarrow> nat \<Rightarrow> bool) \<Rightarrow> nat list \<Rightarrow> nat list"
  uninit_basic :: "nat \<Rightarrow> BasicServiceInfo"
  uninit_additional :: "nat \<Rightarrow> AdditionalServiceInfo"

text \<open>
  The constructor. It sizes the vectors and leaves \<^verbatim>\<open>number_of_services\<close> and the scalar
  members of the two null records indeterminate (\<open>n0\<close>, \<open>nb0\<close>, \<open>na0\<close>).
\<close>

definition new_TrainServiceParser ::
  "nat \<Rightarrow> nat \<Rightarrow> nat \<Rightarrow> BasicServiceInfo \<Rightarrow> AdditionalServiceInfo \<Rightarrow> TrainServiceParser" where
  "new_TrainServiceParser max_services max_departures n0 nb0 na0 =
     \<lparr>max_json_size = max_services,
      number_of_departures = max_departures,
      cached_trainIDs = [],
      selectPlatform = False,
      selected_platform = [],
      refdata_loaded = False,
      reason_codes = [],
      delay_cancel_reasons = [],
      location_name = [],
      NRCC_message = [],
      data = JNull,
      api_data_version = 0,
      services_sequence = replicate max_services default_ServiceSequence,
      services_basic = replicate max_services default_BasicServiceInfo,
      services_additions = replicate max_services default_AdditionalServiceInfo,
      services_callingpoints = replicate max_services default_CallingPointsInfo,
      null_basic_service = uninitialised_BasicServiceInfo nb0,
      null_additional_service = uninitialised_AdditionalServiceInfo na0,
      number_of_services = n0,
      service_List = replicate max_departures 999,
      ETDOrderedList = replicate max_services 999\<rparr>"

section \<open>Reason codes and the null records\<close>

text \<open>\<^verbatim>\<open>CreateNullServiceInfo\<close>: the assignments it makes; \<^verbatim>\<open>adhocAlerts\<close> and \<^verbatim>\<open>Formation\<close>
  are not assigned.\<close>

definition CreateNullServiceInfo :: "TrainServiceParser \<Rightarrow> TrainServiceParser" where
  "CreateNullServiceInfo st =
     st\<lparr>null_basic_service :=
          (null_basic_service st)
            \<lparr>trainid_basic := ''9999'',
             destination := ''Nowhere'',
             scheduledDepartureTime := ''99:99'',
             estimatedDepartureTime := ''99:99'',
             operator_name := ''Nobody'',
             coaches := [],
             isCancelled := False,
             isDelayed := False,
             cancelReason := ''Null Service - Cancellation Reason'',
             delayReason := ''Null Service - Delay Reason'',
             apiDataVersion_basic := 0,
             static_data_available_basic := True\<rparr>,
        null_additional_service :=
          (null_additional_service st)
            \<lparr>trainid_add := ''9999'',
             apiDataVersion_add := 0,
             static_data_available_add := True,
             origin := ''Nowhere'',
             loading_type := ''999'',
             loadingPercentage := 99,
             platformIsHidden := False,
             serviceIsSupressed := False,
             isPassengerService := True\<rparr>\<rparr>"

text \<open>
  One iteration of the loop of \<^verbatim>\<open>loadReasonCodes\<close> on \<^verbatim>\<open>refdata[i]\<close>:
  \<^verbatim>\<open>refdata[i]["code"].get<size_t>()\<close> throws \<^verbatim>\<open>type_error\<close> unless the code is a number. The
  member \<^verbatim>\<open>reason_codes\<close> is written in place; the index stored for the code is
  \<^verbatim>\<open>reason_codes.size()\<close> before the write.
\<close>

definition get_size_t :: "json \<Rightarrow> error + nat" where
  "get_size_t j = (case j of JNum n \<Rightarrow> Inr (nat (n mod 2 ^ 64)) | _ \<Rightarrow> Inl JsonTypeError)"

definition loadReasonCodes_step ::
  "json \<Rightarrow> nat \<Rightarrow> (string \<times> nat) list \<times> DelayCancelReason list \<Rightarrow>
   error + ((string \<times> nat) list \<times> DelayCancelReason list)" where
  "loadReasonCodes_step refdata i acc =
     (case acc of (codes, new_delay_cancel_reasons) \<Rightarrow>
      (case json_idx refdata i of
         Inl e \<Rightarrow> Inl e
       | Inr rec \<Rightarrow>
      (case json_key rec ''code'' of
         Inl e \<Rightarrow> Inl e
       | Inr cj \<Rightarrow>
      (case get_size_t cj of
         Inl e \<Rightarrow> Inl e
       | Inr c \<Rightarrow>
         (let new_reason =
                \<lparr>delayReason_ref = extractJSONvalue_string rec ''lateReason'' ''No Reason'',
                 cancelReason_ref = extractJSONvalue_string rec ''cancReason'' ''No Reason'',
                 code = to_string c\<rparr>;
              new_index = length codes
          in Inr (AList.update (code new_reason) new_index codes,
                  new_delay_cancel_reasons @ [new_reason]))))))"

text \<open>
  The loop. An exception leaves the entries already written to \<^verbatim>\<open>reason_codes\<close> in place,
  so the map is returned beside the error.
\<close>

function loadReasonCodes_loop ::
  "json \<Rightarrow> nat \<Rightarrow> nat \<Rightarrow> (string \<times> nat) list \<times> DelayCancelReason list \<Rightarrow>
   error option \<times> (string \<times> nat) list \<times> DelayCancelReason list" where
  "loadReasonCodes_loop refdata num_reasons i acc =
     (if i < num_reasons then
        (case loadReasonCodes_step refdata i acc of
           Inl e \<Rightarrow> (Some e, acc)
         | Inr acc' \<Rightarrow> loadReasonCodes_loop refdata num_reasons (i + 1) acc')
      else (None, acc))"
  by pat_completeness auto
termination
  by (relation "measure (\<lambda>(refdata, num_reasons, i, acc). num_reasons - i)") auto

declare loadReasonCodes_loop.simps [simp del]

text \<open>\<^verbatim>\<open>loadReasonCodes\<close>; it has no handler, a \<^verbatim>\<open>parse_error\<close> leaves it as it is.\<close>

definition loadReasonCodes ::
  "platform_env \<Rightarrow> TrainServiceParser \<Rightarrow> string \<Rightarrow> error option \<times> TrainServiceParser" where
  "loadReasonCodes E st reasonJsonString =
     (case parse_json E reasonJsonString of
        None \<Rightarrow> (Some JsonParseError, st)
      | Some refdata \<Rightarrow>
          (case loadReasonCodes_loop refdata (json_size refdata) 0 (reason_codes st, []) of
             (Some e, codes, new_delay_cancel_reasons) \<Rightarrow> (Some e, st\<lparr>reason_codes := codes\<rparr>)
           | (None, codes, new_delay_cancel_reasons) \<Rightarrow>
               (None,
                CreateNullServiceInfo
                  (st\<lparr>reason_codes := codes,
                      delay_cancel_reasons := new_delay_cancel_reasons,
                      refdata_loaded := True\<rparr>))))"

text \<open>\<^verbatim>\<open>decodeDelayCode\<close> and \<^verbatim>\<open>decodeCancelCode\<close>.\<close>

definition decodeDelayCode :: "TrainServiceParser \<Rightarrow> nat \<Rightarrow> error + string" where
  "decodeDelayCode st delay_code =
     (case map_of (reason_codes st) (to_string delay_code) of
        Some extract \<Rightarrow>
          (case vec_at (delay_cancel_reasons st) extract of
             Inl e \<Rightarrow> Inl e | Inr r \<Rightarrow> Inr (delayReason_ref r))
      | None \<Rightarrow> Inr [])"

definition decodeCancelCode :: "TrainServiceParser \<Rightarrow> nat \<Rightarrow> error + string" where
  "decodeCancelCode st delay_code =
     (case map_of (reason_codes st) (to_string delay_code) of
        Some extract \<Rightarrow>
          (case vec_at (delay_cancel_reasons st) extract of
             Inl e \<Rightarrow> Inl e | Inr r \<Rightarrow> Inr (cancelReason_ref r))
      | None \<Rightarrow> Inr [])"

section \<open>Snapshot ingestion and ordering (train\_service\_parser.cpp)\<close>

text \<open>
  \<^verbatim>\<open>HTMLProcessor::processHtmlTagsInPlace\<close>, used on the NRCC messages: the string is
  overwritten from the front at \<^verbatim>\<open>writePos\<close> while \<^verbatim>\<open>readPos\<close> runs ahead, and truncated
  at the end.
\<close>

function inplace_loop :: "string \<Rightarrow> nat \<Rightarrow> nat \<Rightarrow> bool \<Rightarrow> string" where
  "inplace_loop html readPos writePos inTag =
     (if readPos < length html then
        (let c = html ! readPos in
         if c = CHR ''<'' then inplace_loop html (readPos + 1) writePos True
         else if c = CHR ''>'' then inplace_loop html (readPos + 1) writePos False
         else if inTag then inplace_loop html (readPos + 1) writePos inTag
         else if c = CHR ''&'' then
           (case match_entity html readPos entities of
              Some e \<Rightarrow>
                inplace_loop (html[writePos := replacement e])
                  (readPos + (entity_length e - 1) + 1) (writePos + 1) inTag
            | None \<Rightarrow> inplace_loop (html[writePos := c]) (readPos + 1) (writePos + 1) inTag)
         else if c \<noteq> CHR 0x0A \<and> c \<noteq> CHR 0x0D
           then inplace_loop (html[writePos := c]) (readPos + 1) (writePos + 1) inTag
         else inplace_loop html (readPos + 1) writePos inTag)
      else take writePos html)"
  by pat_completeness auto
termination
  by (relation "measure (\<lambda>(html, readPos, writePos, inTag). length html - readPos)") auto

declare inplace_loop.simps [simp del]

definition processHtmlTagsInPlace :: "string \<Rightarrow> string" where
  "processHtmlTagsInPlace html = (if html = [] then [] else inplace_loop html 0 0 False)"

text \<open>
  The loop of \<^verbatim>\<open>prefetchMetaData\<close> over \<^verbatim>\<open>nrccMessages\<close>; \<^verbatim>\<open>get<std::string>()\<close> throws on
  an \<^verbatim>\<open>xhtmlMessage\<close> that is not a string.
\<close>

fun nrcc_messages :: "json list \<Rightarrow> nat \<Rightarrow> string \<Rightarrow> error + string" where
  "nrcc_messages [] i combined_message = Inr combined_message"
| "nrcc_messages (messageObj # rest) i combined_message =
     (let combined = (if i > 0 then combined_message @ '' | '' else combined_message) in
      case json_find messageObj ''xhtmlMessage'' of
        None \<Rightarrow> nrcc_messages rest (i + 1) combined
      | Some JNull \<Rightarrow> nrcc_messages rest (i + 1) combined
      | Some (JStr s) \<Rightarrow>
          (let message = processHtmlTagsInPlace s;
               message' = (if message \<noteq> [] \<and> hd message = CHR 0x0A then tl message else message)
           in nrcc_messages rest (i + 1) (combined @ message'))
      | Some _ \<Rightarrow> Inl JsonTypeError)"

text \<open>
  \<^verbatim>\<open>prefetchMetaData\<close>; \<open>service_count\<close> is the number of services it finds in the snapshot
  (before it is clamped to \<^verbatim>\<open>max_json_size\<close>), \<open>metadata_location\<close> the new value of
  \<^verbatim>\<open>location_name\<close> and \<open>metadata_nrcc\<close> that of \<^verbatim>\<open>NRCC_message\<close>. It writes the members \<^verbatim>\<open>number_of_services\<close>, \<^verbatim>\<open>location_name\<close> and
  \<^verbatim>\<open>NRCC_message\<close> directly, so an exception on the way leaves the earlier writes done.
\<close>

definition service_count :: "json \<Rightarrow> nat" where
  "service_count new_data =
     (case json_find new_data ''trainServices'' of
        None \<Rightarrow> 0 | Some JNull \<Rightarrow> 0 | Some ts \<Rightarrow> json_size ts)"

definition metadata_location :: "json \<Rightarrow> string \<Rightarrow> error + string" where
  "metadata_location new_data current =
     (if current = [] then
        (case json_find new_data ''locationName'' of
           None \<Rightarrow> Inr []
         | Some JNull \<Rightarrow> Inr []
         | Some (JStr s) \<Rightarrow> Inr s
         | Some j \<Rightarrow> if json_empty j then Inr [] else Inl JsonTypeError)
      else Inr current)"

definition metadata_nrcc :: "json \<Rightarrow> error + string" where
  "metadata_nrcc new_data =
     (case json_find new_data ''nrccMessages'' of
        Some (JArr (m # ms)) \<Rightarrow> nrcc_messages (m # ms) 0 []
      | _ \<Rightarrow> Inr [])"

definition prefetchMetaData :: "json \<Rightarrow> TrainServiceParser \<Rightarrow> error option \<times> TrainServiceParser" where
  "prefetchMetaData new_data st =
     (let n = service_count new_data;
          st1 = st\<lparr>number_of_services := (if n > max_json_size st then max_json_size st else n)\<rparr>
      in case metadata_location new_data (location_name st1) of
           Inl e \<Rightarrow> (Some e, st1)
         | Inr l \<Rightarrow>
             (let st2 = st1\<lparr>location_name := l\<rparr> in
              case metadata_nrcc new_data of
                Inl e \<Rightarrow> (Some e, st2)
              | Inr combined_message \<Rightarrow> (None, st2\<lparr>NRCC_message := combined_message\<rparr>)))"

text \<open>The fresh vectors and identity map that \<^verbatim>\<open>prefetchCache\<close> builds before it publishes.\<close>

record new_vectors =
  new_services_sequence :: "ServiceSequence list"
  new_services_basic :: "BasicServiceInfo list"
  new_services_additions :: "AdditionalServiceInfo list"
  new_services_callingpoints :: "CallingPointsInfo list"
  new_cached_trainIDs :: "(string \<times> nat) list"

definition initial_new_vectors :: "nat \<Rightarrow> new_vectors" where
  "initial_new_vectors n =
     \<lparr>new_services_sequence = replicate n default_ServiceSequence,
      new_services_basic = replicate n default_BasicServiceInfo,
      new_services_additions = replicate n default_AdditionalServiceInfo,
      new_services_callingpoints = replicate n default_CallingPointsInfo,
      new_cached_trainIDs = []\<rparr>"

text \<open>The ordering record of service \<open>i\<close> (lines 120 to 142 of the loop body).\<close>

definition sequence_of_service ::
  "platform_env \<Rightarrow> int \<Rightarrow> json \<Rightarrow> 64 word \<Rightarrow> ServiceSequence \<Rightarrow> ServiceSequence" where
  "sequence_of_service E now svc version s0 =
     (let s1 = s0\<lparr>std_specified := extractJSONvalue_bool svc ''stdSpecified'' False\<rparr>;
          s2 = (if std_specified s1 then
                  (let s1a = s1\<lparr>std := extractJSONTime (mk_time E) svc ''std'' now\<rparr>;
                       s1b = s1a\<lparr>etd_specified := extractJSONvalue_bool svc ''etdSpecified'' False\<rparr>
                   in if etd_specified s1b then
                        (let s1c = s1b\<lparr>etd := extractJSONTime (mk_time E) svc ''etd'' now\<rparr>
                         in s1c\<lparr>departure_time := etd s1c\<rparr>)
                      else s1b\<lparr>departure_time := std s1b\<rparr>)
                else s1\<lparr>std := INVALID_TIME, std_specified := False, etd := INVALID_TIME,
                        etd_specified := False, departure_time := INVALID_TIME\<rparr>)
      in s2\<lparr>platform := extractJSONvalue_string svc ''platform'' [],
            trainid_seq := extractJSONvalue_string svc ''trainid'' [],
            api_version := version\<rparr>)"

text \<open>
  One iteration of the loop of \<^verbatim>\<open>prefetchCache\<close>: the ordering record, the migration of the
  three tiers from the index the old identity map gives (or fresh tiers), and the entry of
  the new identity map, whose value is \<^verbatim>\<open>new_cached_trainIDs.size()\<close> before the write.
\<close>

definition prefetch_step ::
  "platform_env \<Rightarrow> int \<Rightarrow> json \<Rightarrow> 64 word \<Rightarrow> TrainServiceParser \<Rightarrow> nat \<Rightarrow> new_vectors \<Rightarrow>
   error + new_vectors" where
  "prefetch_step E now new_data version st i nv =
     (case trainService_at new_data i of Inl e \<Rightarrow> Inl e | Inr svc \<Rightarrow>
        (let s = sequence_of_service E now svc version (new_services_sequence nv ! i);
             nv1 = nv\<lparr>new_services_sequence := (new_services_sequence nv)[i := s]\<rparr>;
             new_index = length (new_cached_trainIDs nv1);
             ids = AList.update (trainid_seq s) new_index (new_cached_trainIDs nv1)
         in case map_of (cached_trainIDs st) (trainid_seq s) of
              Some extract \<Rightarrow>
                (case vec_at (services_basic st) extract of
                   Inl e \<Rightarrow> Inl e
                 | Inr b \<Rightarrow>
                (case vec_at (services_additions st) extract of
                   Inl e \<Rightarrow> Inl e
                 | Inr a \<Rightarrow>
                (case vec_at (services_callingpoints st) extract of
                   Inl e \<Rightarrow> Inl e
                 | Inr c \<Rightarrow>
                   Inr (nv1\<lparr>new_services_basic := (new_services_basic nv1)[i := b],
                            new_services_additions := (new_services_additions nv1)[i := a],
                            new_services_callingpoints :=
                              (new_services_callingpoints nv1)
                                [i := c\<lparr>callingPointsCached := False,
                                        service_location_cached := False\<rparr>],
                            new_cached_trainIDs := ids\<rparr>))))
            | None \<Rightarrow>
                Inr (nv1\<lparr>new_services_basic :=
                           (new_services_basic nv1)
                             [i := (new_services_basic nv1 ! i)
                                     \<lparr>static_data_available_basic := False,
                                      trainid_basic := trainid_seq s\<rparr>],
                         new_services_additions :=
                           (new_services_additions nv1)
                             [i := (new_services_additions nv1 ! i)
                                     \<lparr>static_data_available_add := False,
                                      trainid_add := trainid_seq s\<rparr>],
                         new_services_callingpoints :=
                           (new_services_callingpoints nv1)
                             [i := (new_services_callingpoints nv1 ! i)
                                     \<lparr>callingPointsCached := False,
                                      service_location_cached := False,
                                      trainid_cp := trainid_seq s\<rparr>],
                         new_cached_trainIDs := ids\<rparr>)))"

function prefetch_loop ::
  "platform_env \<Rightarrow> int \<Rightarrow> json \<Rightarrow> 64 word \<Rightarrow> TrainServiceParser \<Rightarrow> nat \<Rightarrow> new_vectors \<Rightarrow>
   error + new_vectors" where
  "prefetch_loop E now new_data version st i nv =
     (if i < number_of_services st then
        (case prefetch_step E now new_data version st i nv of
           Inl e \<Rightarrow> Inl e
         | Inr nv' \<Rightarrow> prefetch_loop E now new_data version st (i + 1) nv')
      else Inr nv)"
  by pat_completeness auto
termination
  by (relation "measure (\<lambda>(E, now, new_data, version, st, i, nv). number_of_services st - i)") auto

declare prefetch_loop.simps [simp del]

text \<open>
  The comparator handed to \<^verbatim>\<open>std::sort\<close> in \<^verbatim>\<open>orderTheDepartureList\<close>, over the captured
  \<^verbatim>\<open>time_list\<close>.
\<close>

definition departure_before :: "int list \<Rightarrow> nat \<Rightarrow> nat \<Rightarrow> bool" where
  "departure_before time_list a b =
     (let time_a = time_list ! a; time_b = time_list ! b in
      if time_a = INVALID_TIME \<and> time_b = INVALID_TIME then a < b
      else if time_a = INVALID_TIME then False
      else if time_b = INVALID_TIME then True
      else time_a < time_b)"

text \<open>
  \<^verbatim>\<open>orderTheDepartureList\<close>: \<^verbatim>\<open>time_list\<close> holds the effective departure time of the first
  \<^verbatim>\<open>number_of_services\<close> services (and zero beyond), \<^verbatim>\<open>ETDOrderedList\<close> is filled with 999, its
  first \<^verbatim>\<open>number_of_services\<close> entries are set to their own index and that prefix is sorted.
\<close>

definition orderTheDepartureList :: "platform_env \<Rightarrow> TrainServiceParser \<Rightarrow> TrainServiceParser" where
  "orderTheDepartureList E st =
     (let time_list = map (\<lambda>i. if i < number_of_services st
                                 then departure_time (services_sequence st ! i) else 0)
                          [0..<max_json_size st];
          filled = map (\<lambda>i. if i < number_of_services st then i else 999)
                       [0..<length (ETDOrderedList st)]
      in st\<lparr>ETDOrderedList :=
              std_sort E (departure_before time_list) (take (number_of_services st) filled)
              @ drop (number_of_services st) filled\<rparr>)"

text \<open>
  The end of \<^verbatim>\<open>prefetchCache\<close> (lines 175 to 194): the fresh vectors, the identity map, the
  parsed data and the version are swapped into the members, the departure list is ordered
  and \<^verbatim>\<open>service_List\<close> is filled with 999.
\<close>

definition publish_snapshot ::
  "platform_env \<Rightarrow> json \<Rightarrow> 64 word \<Rightarrow> TrainServiceParser \<Rightarrow> new_vectors \<Rightarrow> TrainServiceParser" where
  "publish_snapshot E new_data version st1 nv =
     (let st2 = st1\<lparr>data := new_data,
                    services_basic := new_services_basic nv,
                    services_additions := new_services_additions nv,
                    services_callingpoints := new_services_callingpoints nv,
                    services_sequence := new_services_sequence nv,
                    cached_trainIDs := new_cached_trainIDs nv,
                    api_data_version := version\<rparr>;
          st3 = orderTheDepartureList E st2
      in st3\<lparr>service_List := replicate (length (service_List st3)) 999\<rparr>)"

text \<open>
  \<^verbatim>\<open>prefetchCache\<close>. Only \<^verbatim>\<open>json::parse_error\<close> is caught (and rethrown as a
  \<^verbatim>\<open>runtime_error\<close>, whose text ends with the library's message, left out here); any other
  exception leaves with the members as \<^verbatim>\<open>prefetchMetaData\<close> wrote them.
\<close>

definition prefetchCache ::
  "platform_env \<Rightarrow> int \<Rightarrow> TrainServiceParser \<Rightarrow> string \<Rightarrow> 64 word \<Rightarrow>
   error option \<times> TrainServiceParser" where
  "prefetchCache E now st jsonString version =
     (if \<not> refdata_loaded st
      then (Some (OutOfRange ''Reference Data not loaded - fatal error!''), st)
      else
        case parse_json E jsonString of
          None \<Rightarrow> (Some (RuntimeError ''[Parser] Failed to parse JSON in cache pre-fetch ''), st)
        | Some new_data \<Rightarrow>
            (case prefetchMetaData new_data st of
               (Some e, st1) \<Rightarrow> (Some e, st1)
             | (None, st1) \<Rightarrow>
                 (case prefetch_loop E now new_data version st1 0
                         (initial_new_vectors (max_json_size st1)) of
                    Inl e \<Rightarrow> (Some e, st1)
                  | Inr nv \<Rightarrow> (None, publish_snapshot E new_data version st1 nv))))"

section \<open>Tiered hydration cache\<close>

text \<open>
  \<^verbatim>\<open>hydrateBasicDataCacheInternal\<close>, in parts: the static subset, the dynamic subset (lines
  572 to 616), the two tests that decide whether each is computed, and the function
  itself. It reads \<^verbatim>\<open>services_sequence[service_index]\<close>
  before its range checks.
\<close>

definition hydrate_basic_static :: "json \<Rightarrow> BasicServiceInfo \<Rightarrow> error + BasicServiceInfo" where
  "hydrate_basic_static svc new_basic_item =
     (case extractJSONTimeString svc ''std'' [] of Inl e \<Rightarrow> Inl e | Inr sdt \<Rightarrow>
        (let extract = extractJSONvalue_size_t svc ''length'' 0 in
         Inr (new_basic_item
                \<lparr>scheduledDepartureTime := sdt,
                 destination := extractNestedJSONvalue_string svc ''destination'' 0 ''locationName'' [],
                 operator_name := extractJSONvalue_string svc ''operator'' [],
                 coaches := (if extract \<noteq> 0 then to_string extract else []),
                 static_data_available_basic := True\<rparr>)))"

text \<open>
  The dynamic subset in the order of the source: the decoded cancel and delay reasons
  (lines 576 to 582), the estimated-time display (lines 591 to 600), the departure type
  (lines 602 to 612).
\<close>

definition decode_reasons :: "TrainServiceParser \<Rightarrow> json \<Rightarrow> error + string \<times> string" where
  "decode_reasons st svc =
     (case json_key svc ''cancelReason'' of
        Inl e \<Rightarrow> Inl e
      | Inr cr \<Rightarrow>
     (case decodeCancelCode st (extractJSONvalue_size_t cr ''Value'' 0) of
        Inl e \<Rightarrow> Inl e
      | Inr ctext \<Rightarrow>
     (case json_key svc ''delayReason'' of
        Inl e \<Rightarrow> Inl e
      | Inr dr \<Rightarrow>
     (case decodeDelayCode st (extractJSONvalue_size_t dr ''Value'' 0) of
        Inl e \<Rightarrow> Inl e
      | Inr dtext \<Rightarrow> Inr (ctext, dtext)))))"

definition estimated_display :: "bool \<Rightarrow> json \<Rightarrow> BasicServiceInfo \<Rightarrow> error + string" where
  "estimated_display etd_spec svc new_basic_item =
     (if etd_spec then
        (case extractJSONTimeString svc ''etd'' [] of
           Inl e \<Rightarrow> Inl e
         | Inr t \<Rightarrow> Inr (if t = scheduledDepartureTime new_basic_item then ''On Time'' else t))
      else Inr (if isCancelled new_basic_item then ''Cancelled'' else ''On Time''))"

definition apply_departure_type :: "bool \<Rightarrow> json \<Rightarrow> BasicServiceInfo \<Rightarrow> BasicServiceInfo" where
  "apply_departure_type etd_spec svc new_basic_item =
     (if extractJSONvalue_string svc ''departureType'' [] = ''Delayed''
      then (let b = new_basic_item\<lparr>isDelayed := True\<rparr>
            in if \<not> etd_spec then b\<lparr>estimatedDepartureTime := ''Delayed''\<rparr> else b)
      else new_basic_item\<lparr>isDelayed := False\<rparr>)"

definition hydrate_basic_dynamic ::
  "TrainServiceParser \<Rightarrow> nat \<Rightarrow> json \<Rightarrow> BasicServiceInfo \<Rightarrow> error + BasicServiceInfo" where
  "hydrate_basic_dynamic st service_index svc new_basic_item =
     (let b1 = new_basic_item\<lparr>isCancelled := extractJSONvalue_bool svc ''isCancelled'' False\<rparr>;
          etd_spec = etd_specified (services_sequence st ! service_index)
      in case decode_reasons st svc of
           Inl e \<Rightarrow> Inl e
         | Inr (ctext, dtext) \<Rightarrow>
             (let b2 = b1\<lparr>cancelReason := ctext, delayReason := dtext,
                          adhocAlerts := extractJSONvalue_string svc ''adhocAlerts'' []\<rparr>
              in case estimated_display etd_spec svc b2 of
                   Inl e \<Rightarrow> Inl e
                 | Inr est \<Rightarrow>
                     Inr ((apply_departure_type etd_spec svc (b2\<lparr>estimatedDepartureTime := est\<rparr>))
                            \<lparr>apiDataVersion_basic := api_data_version st\<rparr>)))"

definition basic_static_step ::
  "platform_env \<Rightarrow> TrainServiceParser \<Rightarrow> nat \<Rightarrow> json \<Rightarrow> BasicServiceInfo \<Rightarrow>
   error + BasicServiceInfo" where
  "basic_static_step E st service_index svc new_basic_item =
     (if static_data_available_basic (services_basic st ! service_index)
      then Inr (services_basic st ! service_index)
      else hydrate_basic_static svc new_basic_item)"

definition basic_dynamic_step ::
  "TrainServiceParser \<Rightarrow> nat \<Rightarrow> json \<Rightarrow> BasicServiceInfo \<Rightarrow> error + BasicServiceInfo" where
  "basic_dynamic_step st service_index svc new_basic_item =
     (if apiDataVersion_basic new_basic_item \<noteq> api_data_version st
      then hydrate_basic_dynamic st service_index svc new_basic_item
      else Inr new_basic_item)"

definition hydrateBasicDataCacheInternal ::
  "platform_env \<Rightarrow> TrainServiceParser \<Rightarrow> nat \<Rightarrow> error option \<times> TrainServiceParser" where
  "hydrateBasicDataCacheInternal E st service_index =
     (let ID = trainid_seq (services_sequence st ! service_index) in
      case trainService_at (data st) service_index of Inl e \<Rightarrow> (Some e, st) | Inr svc \<Rightarrow>
        (let new_basic_item =
               (uninitialised_BasicServiceInfo (uninit_basic E service_index))
                 \<lparr>trainid_basic := extractJSONvalue_string svc ''trainid'' []\<rparr>
         in if trainid_basic new_basic_item \<noteq> ID
              then (Some (OutOfRange ''Unexpected Service ID''), st)
            else if service_index \<ge> max_json_size st
              then (Some (OutOfRange ''Service index exceeds maximum size''), st)
            else if service_index \<ge> number_of_services st
              then (Some (OutOfRange ''Service index exceeds current service count''), st)
            else
              (let st1 = (if static_data_available_basic (services_basic st ! service_index) then st
                          else st\<lparr>services_additions :=
                                    (services_additions st)
                                      [service_index :=
                                         (services_additions st ! service_index)
                                           \<lparr>static_data_available_add := False\<rparr>]\<rparr>)
               in case basic_static_step E st service_index svc new_basic_item of
                    Inl e \<Rightarrow> (Some e, st1)
                  | Inr item \<Rightarrow>
                      (case basic_dynamic_step st1 service_index svc item of
                         Inl e \<Rightarrow> (Some e, st1)
                       | Inr item' \<Rightarrow>
                           (None, st1\<lparr>services_basic :=
                                        (services_basic st1)[service_index := item']\<rparr>)))))"

text \<open>\<^verbatim>\<open>hydrateAdditionalDataCacheInternal\<close>.\<close>

definition loadingPercentage_at :: "json \<Rightarrow> error + json" where
  "loadingPercentage_at svc =
     (case json_key svc ''formation'' of
        Inl e \<Rightarrow> Inl e
      | Inr f \<Rightarrow>
          (case json_key f ''serviceLoading'' of
             Inl e \<Rightarrow> Inl e
           | Inr sl \<Rightarrow> json_key sl ''loadingPercentage''))"

definition hydrateAdditionalDataCacheInternal ::
  "platform_env \<Rightarrow> TrainServiceParser \<Rightarrow> nat \<Rightarrow> error option \<times> TrainServiceParser" where
  "hydrateAdditionalDataCacheInternal E st service_index =
     (let ID = trainid_seq (services_sequence st ! service_index) in
      case trainService_at (data st) service_index of Inl e \<Rightarrow> (Some e, st) | Inr svc \<Rightarrow>
        (let new_additional_item =
               (uninitialised_AdditionalServiceInfo (uninit_additional E service_index))
                 \<lparr>trainid_add := extractJSONvalue_string svc ''trainid'' []\<rparr>
         in if trainid_add new_additional_item \<noteq> ID
              then (Some (OutOfRange ''Unexpected Service ID''), st)
            else if service_index \<ge> max_json_size st
              then (Some (OutOfRange ''Service index exceeds maximum size''), st)
            else if service_index \<ge> number_of_services st
              then (Some (OutOfRange ''Service index exceeds current service count''), st)
            else
              (case (if static_data_available_add (services_additions st ! service_index)
                     then Inr (services_additions st ! service_index, st)
                     else
                       (case loadingPercentage_at svc of Inl e \<Rightarrow> Inl e | Inr lp \<Rightarrow>
                          Inr (new_additional_item
                                 \<lparr>static_data_available_add := True,
                                  origin := extractNestedJSONvalue_string svc ''origin'' 0 ''locationName'' [],
                                  loading_type := extractJSONvalue_string lp ''type'' [],
                                  loadingPercentage := extractJSONvalue_size_t lp ''value'' 0,
                                  serviceIsSupressed := extractJSONvalue_bool svc ''serviceIsSupressed'' False,
                                  isPassengerService := extractJSONvalue_bool svc ''isPassengerService'' False\<rparr>,
                               st\<lparr>services_additions :=
                                    (services_additions st)
                                      [service_index :=
                                         (services_additions st ! service_index)
                                           \<lparr>static_data_available_add := True\<rparr>]\<rparr>))) of
                 Inl e \<Rightarrow> (Some e, st)
               | Inr (item, st1) \<Rightarrow>
                   (let item' = (if apiDataVersion_add item \<noteq> api_data_version st1
                                 then item\<lparr>platformIsHidden :=
                                             extractJSONvalue_bool svc ''platformIsHidden'' False,
                                           apiDataVersion_add := api_data_version st1\<rparr>
                                 else item)
                    in (None, st1\<lparr>services_additions :=
                                    (services_additions st1)[service_index := item']\<rparr>)))))"

section \<open>Departure selection and the accessors\<close>

text \<open>The two selection loops of \<^verbatim>\<open>hydrateDepartureCache\<close>, on \<^verbatim>\<open>service_List\<close>.\<close>

function select_platform_loop :: "TrainServiceParser \<Rightarrow> nat \<Rightarrow> nat \<Rightarrow> nat list \<Rightarrow> nat list" where
  "select_platform_loop st i serviceCount sl =
     (if i < number_of_services st \<and> serviceCount < length sl then
        (let index = ETDOrderedList st ! i in
         if platform (services_sequence st ! index) = selected_platform st then
           select_platform_loop st (i + 1) (serviceCount + 1)
             (sl[serviceCount := (if std (services_sequence st ! index) = INVALID_TIME
                                  then 999 else index)])
         else select_platform_loop st (i + 1) serviceCount sl)
      else sl)"
  by pat_completeness auto
termination
  by (relation "measure (\<lambda>(st, i, serviceCount, sl). number_of_services st - i)") auto

declare select_platform_loop.simps [simp del]

function all_platforms_loop :: "TrainServiceParser \<Rightarrow> nat \<Rightarrow> nat list \<Rightarrow> nat list" where
  "all_platforms_loop st i sl =
     (if i < number_of_departures st then
        (if i < number_of_services st then
           (if ETDOrderedList st ! i = 999 then all_platforms_loop st (i + 1) sl
            else if std (services_sequence st ! (ETDOrderedList st ! i)) = INVALID_TIME
              then all_platforms_loop st (i + 1) sl
            else all_platforms_loop st (i + 1) (sl[i := ETDOrderedList st ! i]))
         else all_platforms_loop st (i + 1) sl)
      else sl)"
  by pat_completeness auto
termination
  by (relation "measure (\<lambda>(st, i, sl). number_of_departures st - i)") auto

declare all_platforms_loop.simps [simp del]

text \<open>
  The hydration loop of \<^verbatim>\<open>hydrateDepartureCache\<close> over the \<open>nd\<close> selected departures; it
  stops at the first exception.
\<close>

function hydrate_departures_loop ::
  "platform_env \<Rightarrow> nat \<Rightarrow> TrainServiceParser \<Rightarrow> nat \<Rightarrow> error option \<times> TrainServiceParser" where
  "hydrate_departures_loop E nd st i =
     (if i < nd then
        (let index = service_List st ! i in
         if index \<noteq> 999 then
           (case hydrateBasicDataCacheInternal E st index of
              (Some e, st') \<Rightarrow> (Some e, st')
            | (None, st') \<Rightarrow> hydrate_departures_loop E nd st' (i + 1))
         else hydrate_departures_loop E nd st (i + 1))
      else (None, st))"
  by pat_completeness auto
termination
  by (relation "measure (\<lambda>(E, nd, st, i). nd - i)") auto

declare hydrate_departures_loop.simps [simp del]

text \<open>
  \<^verbatim>\<open>hydrateDepartureCache\<close>: a \<^verbatim>\<open>json::exception\<close> is caught and only logged, any other
  exception leaves the method.
\<close>

definition hydrateDepartureCache ::
  "platform_env \<Rightarrow> TrainServiceParser \<Rightarrow> error option \<times> TrainServiceParser" where
  "hydrateDepartureCache E st =
     (if number_of_services st = 0 then (None, st)
      else
        (let st1 = st\<lparr>service_List :=
                        (if selectPlatform st then select_platform_loop st 0 0 (service_List st)
                         else all_platforms_loop st 0 (service_List st))\<rparr>
         in case hydrate_departures_loop E (number_of_departures st1) st1 0 of
              (Some e, st2) \<Rightarrow> if is_json_exception e then (None, st2) else (Some e, st2)
            | (None, st2) \<Rightarrow> (None, st2)))"

text \<open>\<^verbatim>\<open>updateCache\<close> and \<^verbatim>\<open>createFromJSON\<close>.\<close>

definition updateCache ::
  "platform_env \<Rightarrow> int \<Rightarrow> TrainServiceParser \<Rightarrow> string \<Rightarrow> 64 word \<Rightarrow>
   error option \<times> TrainServiceParser" where
  "updateCache E now st jsonString version =
     (case prefetchCache E now st jsonString version of
        (Some e, st1) \<Rightarrow> (Some e, st1)
      | (None, st1) \<Rightarrow> hydrateDepartureCache E st1)"

definition createFromJSON ::
  "platform_env \<Rightarrow> int \<Rightarrow> TrainServiceParser \<Rightarrow> string \<Rightarrow> string \<Rightarrow> 64 word \<Rightarrow>
   error option \<times> TrainServiceParser" where
  "createFromJSON E now st datajsonString reasonJsonString version =
     (if \<not> refdata_loaded st then
        (case loadReasonCodes E st reasonJsonString of
           (Some e, st1) \<Rightarrow> (Some e, st1)
         | (None, st1) \<Rightarrow> updateCache E now st1 datajsonString version)
      else updateCache E now st datajsonString version)"

text \<open>
  \<^verbatim>\<open>getBasicServiceInfo\<close> and \<^verbatim>\<open>getAdditionalServiceInfo\<close>: the handler turns a
  \<^verbatim>\<open>json::exception\<close> of the hydration into a \<^verbatim>\<open>std::out_of_range\<close> (whose text ends with
  the library's message, left out here).
\<close>

definition rethrow_as_out_of_range :: "error \<Rightarrow> error" where
  "rethrow_as_out_of_range e =
     (if is_json_exception e then OutOfRange ''[Parser] Error getting service data-structure: ''
      else e)"

definition getBasicServiceInfo ::
  "platform_env \<Rightarrow> TrainServiceParser \<Rightarrow> nat \<Rightarrow> (error + BasicServiceInfo) \<times> TrainServiceParser" where
  "getBasicServiceInfo E st service_index =
     (if service_index = 999 then (Inr (null_basic_service st), st)
      else if service_index \<ge> number_of_services st
        then (Inl (OutOfRange ''Service index out of range''), st)
      else if apiDataVersion_basic (services_basic st ! service_index) \<noteq> api_data_version st
              \<or> static_data_available_basic (services_basic st ! service_index) = False
        then (case hydrateBasicDataCacheInternal E st service_index of
                (Some e, st') \<Rightarrow> (Inl (rethrow_as_out_of_range e), st')
              | (None, st') \<Rightarrow> (Inr (services_basic st' ! service_index), st'))
      else (Inr (services_basic st ! service_index), st))"

definition getAdditionalServiceInfo ::
  "platform_env \<Rightarrow> TrainServiceParser \<Rightarrow> nat \<Rightarrow>
   (error + AdditionalServiceInfo) \<times> TrainServiceParser" where
  "getAdditionalServiceInfo E st service_index =
     (if service_index = 999 then (Inr (null_additional_service st), st)
      else if service_index \<ge> number_of_services st
        then (Inl (OutOfRange ''Service index out of range''), st)
      else if apiDataVersion_add (services_additions st ! service_index) \<noteq> api_data_version st
        then (case hydrateAdditionalDataCacheInternal E st service_index of
                (Some e, st') \<Rightarrow> (Inl (rethrow_as_out_of_range e), st')
              | (None, st') \<Rightarrow> (Inr (services_additions st' ! service_index), st'))
      else (Inr (services_additions st ! service_index), st))"

text \<open>The ordinal accessors.\<close>

definition getOrdinalDeparture :: "TrainServiceParser \<Rightarrow> nat \<Rightarrow> error + nat" where
  "getOrdinalDeparture st service_number =
     (if service_number = 0 \<or> service_number > number_of_departures st
        then Inl (OutOfRange ''Ordinal service number out of range'')
      else if service_number - 1 \<ge> length (service_List st)
        then Inl (OutOfRange ''Service list index out of range'')
      else Inr (safe_at (service_List st) (service_number - 1) 999))"

definition getFirstDeparture :: "TrainServiceParser \<Rightarrow> nat" where
  "getFirstDeparture st = safe_at (service_List st) 0 999"

definition getSecondDeparture :: "TrainServiceParser \<Rightarrow> nat" where
  "getSecondDeparture st = safe_at (service_List st) 1 999"

definition getThirdDeparture :: "TrainServiceParser \<Rightarrow> nat" where
  "getThirdDeparture st = safe_at (service_List st) 2 999"

section \<open>std::sort as libstdc++ implements it\<close>

text \<open>
  \<^verbatim>\<open>orderTheDepartureList\<close> calls \<^verbatim>\<open>std::sort\<close> on the first \<^verbatim>\<open>number_of_services\<close> entries of
  \<^verbatim>\<open>ETDOrderedList\<close>. The C++ standard fixes only its contract; what it does with equivalent
  elements is a matter of the library. This section follows \<^verbatim>\<open>bits/stl_algo.h\<close> and
  \<^verbatim>\<open>bits/stl_heap.h\<close> of libstdc++, the library of GCC: an introsort loop that partitions
  ranges of more than 16 elements around a median of three (and falls back to a heap sort
  when its depth limit is used up), followed by an insertion sort. A range is the vector
  \<open>v\<close> with the positions \<open>first\<close> and \<open>lst\<close> (\<^verbatim>\<open>__first\<close>, \<^verbatim>\<open>__last\<close>) of its iterators, and
  every function returns the vector it leaves.
\<close>

text \<open>\<^verbatim>\<open>_S_threshold\<close> and \<^verbatim>\<open>std::__lg\<close> (the position of the highest bit set).\<close>

definition S_threshold :: nat where
  "S_threshold = 16"

fun lg :: "nat \<Rightarrow> nat" where
  "lg n = (if n < 2 then 0 else 1 + lg (n div 2))"

declare lg.simps [simp del]

text \<open>\<^verbatim>\<open>std::iter_swap\<close> and \<^verbatim>\<open>__move_median_to_first\<close>.\<close>

definition iter_swap :: "nat list \<Rightarrow> nat \<Rightarrow> nat \<Rightarrow> nat list" where
  "iter_swap v a b = v[a := v ! b, b := v ! a]"

definition move_median_to_first ::
  "(nat \<Rightarrow> nat \<Rightarrow> bool) \<Rightarrow> nat list \<Rightarrow> nat \<Rightarrow> nat \<Rightarrow> nat \<Rightarrow> nat \<Rightarrow> nat list" where
  "move_median_to_first cmp v result a b c =
     (if cmp (v ! a) (v ! b) then
        (if cmp (v ! b) (v ! c) then iter_swap v result b
         else if cmp (v ! a) (v ! c) then iter_swap v result c
         else iter_swap v result a)
      else if cmp (v ! a) (v ! c) then iter_swap v result a
      else if cmp (v ! b) (v ! c) then iter_swap v result c
      else iter_swap v result b)"

text \<open>
  \<^verbatim>\<open>__unguarded_partition\<close>. Its two inner loops, \<^verbatim>\<open>while (__comp(__first, __pivot)) ++__first\<close>
  and \<^verbatim>\<open>while (__comp(__pivot, __last)) --__last\<close>, are \<open>scan_up\<close> and \<open>scan_down\<close>. The source
  does not guard them: the median at \<open>pivot\<close> stops both inside the range when the
  comparator is a strict weak ordering. Here they also stop at the ends of the vector.
\<close>

function scan_up :: "(nat \<Rightarrow> nat \<Rightarrow> bool) \<Rightarrow> nat list \<Rightarrow> nat \<Rightarrow> nat \<Rightarrow> nat" where
  "scan_up cmp v first pivot =
     (if first < length v \<and> cmp (v ! first) (v ! pivot) then scan_up cmp v (first + 1) pivot
      else first)"
  by pat_completeness auto
termination
  by (relation "measure (\<lambda>(cmp, v, first, pivot). length v - first)") auto

declare scan_up.simps [simp del]

function scan_down :: "(nat \<Rightarrow> nat \<Rightarrow> bool) \<Rightarrow> nat list \<Rightarrow> nat \<Rightarrow> nat \<Rightarrow> nat" where
  "scan_down cmp v pivot lst =
     (if 0 < lst \<and> cmp (v ! pivot) (v ! lst) then scan_down cmp v pivot (lst - 1)
      else lst)"
  by pat_completeness auto
termination
  by (relation "measure (\<lambda>(cmp, v, pivot, lst). lst)") auto

declare scan_down.simps [simp del]

function unguarded_partition ::
  "(nat \<Rightarrow> nat \<Rightarrow> bool) \<Rightarrow> nat list \<Rightarrow> nat \<Rightarrow> nat \<Rightarrow> nat \<Rightarrow> nat list \<times> nat" where
  "unguarded_partition cmp v first lst pivot =
     (let first' = scan_up cmp v first pivot;
          lst' = scan_down cmp v pivot (lst - 1)
      in if \<not> first' < lst' then (v, first')
         else unguarded_partition cmp (iter_swap v first' lst') (first' + 1) lst' pivot)"
  by pat_completeness auto
termination
proof (relation "measure (\<lambda>(cmp, v, first, lst, pivot). lst - first)", goal_cases)
  case 1
  show ?case by simp
next
  case (2 cmp v first lst pivot first' lst')
  have up: "first \<le> scan_up cmp v first pivot" for first
    by (induction cmp v first pivot rule: scan_up.induct)
       (subst scan_up.simps, auto)
  have down: "scan_down cmp v pivot l \<le> l" for l
    by (induction cmp v pivot l rule: scan_down.induct)
       (subst scan_down.simps, auto)
  from 2 up [of first] down [of "lst - 1"] show ?case by auto
qed

declare unguarded_partition.simps [simp del]

text \<open>\<^verbatim>\<open>__unguarded_partition_pivot\<close>: the cut and the vector it leaves.\<close>

definition unguarded_partition_pivot ::
  "(nat \<Rightarrow> nat \<Rightarrow> bool) \<Rightarrow> nat list \<Rightarrow> nat \<Rightarrow> nat \<Rightarrow> nat list \<times> nat" where
  "unguarded_partition_pivot cmp v first lst =
     (let mid = first + (lst - first) div 2;
          v1 = move_median_to_first cmp v first (first + 1) mid (lst - 1)
      in unguarded_partition cmp v1 (first + 1) lst first)"

text \<open>
  \<^verbatim>\<open>__unguarded_linear_insert\<close>: the value at \<open>lst\<close> moves down past every element it is
  ordered before. The loop is not guarded in the source either; here it stops at the
  start of the vector.
\<close>

function linear_insert_loop ::
  "(nat \<Rightarrow> nat \<Rightarrow> bool) \<Rightarrow> nat list \<Rightarrow> nat \<Rightarrow> nat \<Rightarrow> nat list" where
  "linear_insert_loop cmp v val lst =
     (if 0 < lst \<and> cmp val (v ! (lst - 1))
      then linear_insert_loop cmp (v[lst := v ! (lst - 1)]) val (lst - 1)
      else v[lst := val])"
  by pat_completeness auto
termination
  by (relation "measure (\<lambda>(cmp, v, val, lst). lst)") auto

declare linear_insert_loop.simps [simp del]

definition unguarded_linear_insert :: "(nat \<Rightarrow> nat \<Rightarrow> bool) \<Rightarrow> nat list \<Rightarrow> nat \<Rightarrow> nat list" where
  "unguarded_linear_insert cmp v lst = linear_insert_loop cmp v (v ! lst) lst"

text \<open>
  \<^verbatim>\<open>__insertion_sort\<close>. An element ordered before the first one goes to the front with
  \<^verbatim>\<open>std::move_backward\<close> (\<open>move_to_first\<close>: the elements from \<open>first\<close> to \<open>i - 1\<close> move one place
  up); any other element is inserted by \<^verbatim>\<open>__unguarded_linear_insert\<close>.
\<close>

definition move_to_first :: "nat list \<Rightarrow> nat \<Rightarrow> nat \<Rightarrow> nat list" where
  "move_to_first v first i =
     take first v @ v ! i # take (i - first) (drop first v) @ drop (i + 1) v"

function insertion_sort_loop ::
  "(nat \<Rightarrow> nat \<Rightarrow> bool) \<Rightarrow> nat list \<Rightarrow> nat \<Rightarrow> nat \<Rightarrow> nat \<Rightarrow> nat list" where
  "insertion_sort_loop cmp v first i lst =
     (if i < lst then
        insertion_sort_loop cmp
          (if cmp (v ! i) (v ! first) then move_to_first v first i
           else unguarded_linear_insert cmp v i)
          first (i + 1) lst
      else v)"
  by pat_completeness auto
termination
  by (relation "measure (\<lambda>(cmp, v, first, i, lst). lst - i)") auto

declare insertion_sort_loop.simps [simp del]

definition std_insertion_sort ::
  "(nat \<Rightarrow> nat \<Rightarrow> bool) \<Rightarrow> nat list \<Rightarrow> nat \<Rightarrow> nat \<Rightarrow> nat list" where
  "std_insertion_sort cmp v first lst =
     (if first = lst then v else insertion_sort_loop cmp v first (first + 1) lst)"

text \<open>\<^verbatim>\<open>__unguarded_insertion_sort\<close> and \<^verbatim>\<open>__final_insertion_sort\<close>.\<close>

function unguarded_insertion_sort ::
  "(nat \<Rightarrow> nat \<Rightarrow> bool) \<Rightarrow> nat list \<Rightarrow> nat \<Rightarrow> nat \<Rightarrow> nat list" where
  "unguarded_insertion_sort cmp v i lst =
     (if i < lst then unguarded_insertion_sort cmp (unguarded_linear_insert cmp v i) (i + 1) lst
      else v)"
  by pat_completeness auto
termination
  by (relation "measure (\<lambda>(cmp, v, i, lst). lst - i)") auto

declare unguarded_insertion_sort.simps [simp del]

definition final_insertion_sort ::
  "(nat \<Rightarrow> nat \<Rightarrow> bool) \<Rightarrow> nat list \<Rightarrow> nat \<Rightarrow> nat \<Rightarrow> nat list" where
  "final_insertion_sort cmp v first lst =
     (if lst - first > S_threshold
      then unguarded_insertion_sort cmp
             (std_insertion_sort cmp v first (first + S_threshold)) (first + S_threshold) lst
      else std_insertion_sort cmp v first lst)"

text \<open>
  The heap functions of \<^verbatim>\<open>bits/stl_heap.h\<close>: \<^verbatim>\<open>__push_heap\<close>, \<^verbatim>\<open>__adjust_heap\<close> (its loop is
  \<open>adjust_heap_loop\<close>, which returns the vector, \<^verbatim>\<open>__holeIndex\<close> and \<^verbatim>\<open>__secondChild\<close>),
  \<^verbatim>\<open>__make_heap\<close>, \<^verbatim>\<open>__pop_heap\<close>, \<^verbatim>\<open>__heap_select\<close>, \<^verbatim>\<open>__sort_heap\<close> and \<^verbatim>\<open>__partial_sort\<close>. The
  distances are those of the source for a heap of at least one element, which is what the
  introsort loop (more than 16 elements) hands over.
\<close>

function push_heap ::
  "(nat \<Rightarrow> nat \<Rightarrow> bool) \<Rightarrow> nat list \<Rightarrow> nat \<Rightarrow> nat \<Rightarrow> nat \<Rightarrow> nat \<Rightarrow> nat list" where
  "push_heap cmp v first holeIndex topIndex val =
     (let parent = (holeIndex - 1) div 2
      in if holeIndex > topIndex \<and> cmp (v ! (first + parent)) val
         then push_heap cmp (v[first + holeIndex := v ! (first + parent)]) first parent topIndex val
         else v[first + holeIndex := val])"
  by pat_completeness auto
termination
  by (relation "measure (\<lambda>(cmp, v, first, holeIndex, topIndex, val). holeIndex)") auto

declare push_heap.simps [simp del]

function adjust_heap_loop ::
  "(nat \<Rightarrow> nat \<Rightarrow> bool) \<Rightarrow> nat list \<Rightarrow> nat \<Rightarrow> nat \<Rightarrow> nat \<Rightarrow> nat \<Rightarrow> nat list \<times> nat \<times> nat" where
  "adjust_heap_loop cmp v first holeIndex secondChild len =
     (if secondChild < (len - 1) div 2 then
        (let c = 2 * (secondChild + 1);
             c' = (if cmp (v ! (first + c)) (v ! (first + (c - 1))) then c - 1 else c)
         in adjust_heap_loop cmp (v[first + holeIndex := v ! (first + c')]) first c' c' len)
      else (v, holeIndex, secondChild))"
  by pat_completeness auto
termination
  by (relation "measure (\<lambda>(cmp, v, first, holeIndex, secondChild, len). len - secondChild)") auto

declare adjust_heap_loop.simps [simp del]

definition adjust_heap ::
  "(nat \<Rightarrow> nat \<Rightarrow> bool) \<Rightarrow> nat list \<Rightarrow> nat \<Rightarrow> nat \<Rightarrow> nat \<Rightarrow> nat \<Rightarrow> nat list" where
  "adjust_heap cmp v first holeIndex len val =
     (let topIndex = holeIndex in
      case adjust_heap_loop cmp v first holeIndex holeIndex len of
        (v1, holeIndex1, secondChild1) \<Rightarrow>
          if even len \<and> secondChild1 = (len - 2) div 2 then
            (let c = 2 * (secondChild1 + 1)
             in push_heap cmp (v1[first + holeIndex1 := v1 ! (first + (c - 1))]) first (c - 1)
                  topIndex val)
          else push_heap cmp v1 first holeIndex1 topIndex val)"

function make_heap_loop ::
  "(nat \<Rightarrow> nat \<Rightarrow> bool) \<Rightarrow> nat list \<Rightarrow> nat \<Rightarrow> nat \<Rightarrow> nat \<Rightarrow> nat list" where
  "make_heap_loop cmp v first len parent =
     (let v1 = adjust_heap cmp v first parent len (v ! (first + parent))
      in if parent = 0 then v1 else make_heap_loop cmp v1 first len (parent - 1))"
  by pat_completeness auto
termination
  by (relation "measure (\<lambda>(cmp, v, first, len, parent). parent)") auto

declare make_heap_loop.simps [simp del]

definition make_heap :: "(nat \<Rightarrow> nat \<Rightarrow> bool) \<Rightarrow> nat list \<Rightarrow> nat \<Rightarrow> nat \<Rightarrow> nat list" where
  "make_heap cmp v first lst =
     (if lst - first < 2 then v
      else make_heap_loop cmp v first (lst - first) ((lst - first - 2) div 2))"

definition pop_heap ::
  "(nat \<Rightarrow> nat \<Rightarrow> bool) \<Rightarrow> nat list \<Rightarrow> nat \<Rightarrow> nat \<Rightarrow> nat \<Rightarrow> nat list" where
  "pop_heap cmp v first lst result =
     adjust_heap cmp (v[result := v ! first]) first 0 (lst - first) (v ! result)"

function heap_select_loop ::
  "(nat \<Rightarrow> nat \<Rightarrow> bool) \<Rightarrow> nat list \<Rightarrow> nat \<Rightarrow> nat \<Rightarrow> nat \<Rightarrow> nat \<Rightarrow> nat list" where
  "heap_select_loop cmp v first middle i lst =
     (if i < lst then
        heap_select_loop cmp
          (if cmp (v ! i) (v ! first) then pop_heap cmp v first middle i else v)
          first middle (i + 1) lst
      else v)"
  by pat_completeness auto
termination
  by (relation "measure (\<lambda>(cmp, v, first, middle, i, lst). lst - i)") auto

declare heap_select_loop.simps [simp del]

definition heap_select ::
  "(nat \<Rightarrow> nat \<Rightarrow> bool) \<Rightarrow> nat list \<Rightarrow> nat \<Rightarrow> nat \<Rightarrow> nat \<Rightarrow> nat list" where
  "heap_select cmp v first middle lst =
     heap_select_loop cmp (make_heap cmp v first middle) first middle middle lst"

function sort_heap :: "(nat \<Rightarrow> nat \<Rightarrow> bool) \<Rightarrow> nat list \<Rightarrow> nat \<Rightarrow> nat \<Rightarrow> nat list" where
  "sort_heap cmp v first lst =
     (if lst - first > 1
      then sort_heap cmp (pop_heap cmp v first (lst - 1) (lst - 1)) first (lst - 1)
      else v)"
  by pat_completeness auto
termination
  by (relation "measure (\<lambda>(cmp, v, first, lst). lst - first)") auto

declare sort_heap.simps [simp del]

definition partial_sort ::
  "(nat \<Rightarrow> nat \<Rightarrow> bool) \<Rightarrow> nat list \<Rightarrow> nat \<Rightarrow> nat \<Rightarrow> nat \<Rightarrow> nat list" where
  "partial_sort cmp v first middle lst =
     sort_heap cmp (heap_select cmp v first middle lst) first middle"

text \<open>
  \<^verbatim>\<open>__introsort_loop\<close>: while the range holds more than 16 elements it is partitioned, the
  upper part is sorted by the recursive call and the loop goes on with the lower part.
\<close>

function introsort_loop ::
  "(nat \<Rightarrow> nat \<Rightarrow> bool) \<Rightarrow> nat list \<Rightarrow> nat \<Rightarrow> nat \<Rightarrow> nat \<Rightarrow> nat list" where
  "introsort_loop cmp v first lst depth_limit =
     (if lst - first > S_threshold then
        (if depth_limit = 0 then partial_sort cmp v first lst lst
         else
           (case unguarded_partition_pivot cmp v first lst of
              (v1, cut_at) \<Rightarrow>
                introsort_loop cmp (introsort_loop cmp v1 cut_at lst (depth_limit - 1))
                  first cut_at (depth_limit - 1)))
      else v)"
  by pat_completeness auto
termination
  by (relation "measure (\<lambda>(cmp, v, first, lst, depth_limit). depth_limit)") auto

declare introsort_loop.simps [simp del]

text \<open>
  \<^verbatim>\<open>std::__sort\<close> on the range from \<open>first\<close> to \<open>lst\<close>, and \<^verbatim>\<open>std::sort\<close> on a whole vector, which
  is how \<open>orderTheDepartureList\<close> hands over the first \<^verbatim>\<open>number_of_services\<close> entries.
\<close>

definition std_sort_range ::
  "(nat \<Rightarrow> nat \<Rightarrow> bool) \<Rightarrow> nat list \<Rightarrow> nat \<Rightarrow> nat \<Rightarrow> nat list" where
  "std_sort_range cmp v first lst =
     (if first \<noteq> lst
      then final_insertion_sort cmp
             (introsort_loop cmp v first lst (lg (lst - first) * 2)) first lst
      else v)"

definition libstdcxx_sort :: "(nat \<Rightarrow> nat \<Rightarrow> bool) \<Rightarrow> nat list \<Rightarrow> nat list" where
  "libstdcxx_sort cmp xs = std_sort_range cmp xs 0 (length xs)"

section \<open>Invariants and loop summaries\<close>

text \<open>
  The identity map agrees with the sequence: every service of the snapshot is recorded at
  its own index, and every entry of the map is the index of a service with that identifier.
\<close>

definition identity_map_ok :: "TrainServiceParser \<Rightarrow> bool" where
  "identity_map_ok st =
     ((\<forall>k < number_of_services st.
          map_of (cached_trainIDs st) (trainid_seq (services_sequence st ! k)) = Some k)
      \<and> (\<forall>tid k. map_of (cached_trainIDs st) tid = Some k \<longrightarrow>
            k < number_of_services st \<and> trainid_seq (services_sequence st ! k) = tid))"

text \<open>
  What iteration \<open>k\<close> of the loop of \<open>prefetchCache\<close> leaves at index \<open>k\<close> of the fresh
  vectors \<open>nv\<close>, which started as \<open>nv0\<close>: the ordering record of the service, and its tiers,
  taken from the index the old identity map gives or left fresh.
\<close>

definition migrated_at ::
  "platform_env \<Rightarrow> int \<Rightarrow> json \<Rightarrow> 64 word \<Rightarrow> TrainServiceParser \<Rightarrow> new_vectors \<Rightarrow> new_vectors \<Rightarrow>
   nat \<Rightarrow> bool" where
  "migrated_at E now new_data version st nv0 nv k =
     (\<exists>svc. trainService_at new_data k = Inr svc \<and>
        (let s = sequence_of_service E now svc version (new_services_sequence nv0 ! k) in
         new_services_sequence nv ! k = s \<and>
         (case map_of (cached_trainIDs st) (trainid_seq s) of
            Some extract \<Rightarrow>
              extract < length (services_basic st)
              \<and> extract < length (services_additions st)
              \<and> extract < length (services_callingpoints st)
              \<and> new_services_basic nv ! k = services_basic st ! extract
              \<and> new_services_additions nv ! k = services_additions st ! extract
              \<and> new_services_callingpoints nv ! k =
                  (services_callingpoints st ! extract)
                    \<lparr>callingPointsCached := False, service_location_cached := False\<rparr>
          | None \<Rightarrow>
              new_services_basic nv ! k =
                (new_services_basic nv0 ! k)
                  \<lparr>static_data_available_basic := False, trainid_basic := trainid_seq s\<rparr>
              \<and> new_services_additions nv ! k =
                  (new_services_additions nv0 ! k)
                    \<lparr>static_data_available_add := False, trainid_add := trainid_seq s\<rparr>
              \<and> new_services_callingpoints nv ! k =
                  (new_services_callingpoints nv0 ! k)
                    \<lparr>callingPointsCached := False, service_location_cached := False,
                     trainid_cp := trainid_seq s\<rparr>)))"

definition new_vectors_sizes :: "nat \<Rightarrow> new_vectors \<Rightarrow> bool" where
  "new_vectors_sizes m nv =
     (length (new_services_sequence nv) = m \<and> length (new_services_basic nv) = m
      \<and> length (new_services_additions nv) = m \<and> length (new_services_callingpoints nv) = m)"

text \<open>
  The identity map the loop builds from the identifiers \<open>ts\<close> of the services in their
  order: each is written with the size of the map before the write.
\<close>

fun record_ids :: "string list \<Rightarrow> (string \<times> nat) list \<Rightarrow> (string \<times> nat) list" where
  "record_ids [] ids = ids"
| "record_ids (t # ts) ids = record_ids ts (AList.update t (length ids) ids)"

text \<open>
  The record iteration \<open>i\<close> of the loop of \<^verbatim>\<open>loadReasonCodes\<close> pushes onto
  \<^verbatim>\<open>new_delay_cancel_reasons\<close>, or the exception it throws.
\<close>

definition reason_of_record :: "json \<Rightarrow> nat \<Rightarrow> error + DelayCancelReason" where
  "reason_of_record refdata i =
     (case json_idx refdata i of
        Inl e \<Rightarrow> Inl e
      | Inr rec \<Rightarrow>
     (case json_key rec ''code'' of
        Inl e \<Rightarrow> Inl e
      | Inr cj \<Rightarrow>
     (case get_size_t cj of
        Inl e \<Rightarrow> Inl e
      | Inr c \<Rightarrow>
          Inr \<lparr>delayReason_ref = extractJSONvalue_string rec ''lateReason'' ''No Reason'',
               cancelReason_ref = extractJSONvalue_string rec ''cancReason'' ''No Reason'',
               code = to_string c\<rparr>)))"

section \<open>A concrete platform and concrete feeds\<close>

text \<open>
  The contract of \<^verbatim>\<open>std::sort\<close>: for a comparator that is a strict weak ordering on the
  elements, the result is a permutation of the input in which no element is ordered before
  an earlier one. The relative order of equivalent elements is not part of the contract.
\<close>

definition strict_weak_order :: "nat set \<Rightarrow> (nat \<Rightarrow> nat \<Rightarrow> bool) \<Rightarrow> bool" where
  "strict_weak_order A cmp =
     ((\<forall>a\<in>A. \<not> cmp a a)
      \<and> (\<forall>a\<in>A. \<forall>b\<in>A. \<forall>c\<in>A. cmp a b \<and> cmp b c \<longrightarrow> cmp a c)
      \<and> (\<forall>a\<in>A. \<forall>b\<in>A. \<forall>c\<in>A.
            \<not> cmp a b \<and> \<not> cmp b a \<and> \<not> cmp b c \<and> \<not> cmp c b \<longrightarrow> \<not> cmp a c \<and> \<not> cmp c a))"

definition meets_sort_contract :: "((nat \<Rightarrow> nat \<Rightarrow> bool) \<Rightarrow> nat list \<Rightarrow> nat list) \<Rightarrow> bool" where
  "meets_sort_contract srt =
     (\<forall>cmp xs. strict_weak_order (set xs) cmp \<longrightarrow>
        mset (srt cmp xs) = mset xs \<and> sorted_wrt (\<lambda>a b. \<not> cmp b a) (srt cmp xs))"

text \<open>
  Insertion sort, a sorting procedure that meets the contract. On a range of at most 16
  elements \<open>libstdcxx_sort\<close> runs an insertion sort alone.
\<close>

fun insert_by :: "(nat \<Rightarrow> nat \<Rightarrow> bool) \<Rightarrow> nat \<Rightarrow> nat list \<Rightarrow> nat list" where
  "insert_by cmp x [] = [x]"
| "insert_by cmp x (y # ys) = (if cmp y x then y # insert_by cmp x ys else x # y # ys)"

fun insertion_sort :: "(nat \<Rightarrow> nat \<Rightarrow> bool) \<Rightarrow> nat list \<Rightarrow> nat list" where
  "insertion_sort cmp [] = []"
| "insertion_sort cmp (x # xs) = insert_by cmp x (insertion_sort cmp xs)"

text \<open>The feeds used below, with the value \<^verbatim>\<open>json::parse\<close> gives for each.\<close>

definition reasons_text :: string where
  \<open>reasons_text = ''[{"code": 100, "lateReason": "a signalling fault"}, {"code": 101}]''\<close>

definition reasons_json :: json where
  "reasons_json =
     JArr [JObj [(''code'', JNum 100), (''lateReason'', JStr ''a signalling fault'')],
           JObj [(''code'', JNum 101)]]"

definition reasons_dup_text :: string where
  \<open>reasons_dup_text =
     ''[{"code": 5, "lateReason": "A"}, {"code": 5, "lateReason": "B"}, {"code": 7}]''\<close>

definition reasons_dup_json :: json where
  "reasons_dup_json =
     JArr [JObj [(''code'', JNum 5), (''lateReason'', JStr ''A'')],
           JObj [(''code'', JNum 5), (''lateReason'', JStr ''B'')],
           JObj [(''code'', JNum 7)]]"

definition snapshot_empty_text :: string where
  \<open>snapshot_empty_text = ''{"trainServices": []}''\<close>

definition snapshot_empty_json :: json where
  "snapshot_empty_json = JObj [(''trainServices'', JArr [])]"

definition snapshot_bus_text :: string where
  \<open>snapshot_bus_text =
     ''{"trainServices": [{"trainid": "0B00", "stdSpecified": true, "std": "2025-01-01T10:00:00", "destination": [{"locationName": "Town A"}]}, {"trainid": "0B00", "stdSpecified": true, "std": "2025-01-01T10:00:00", "destination": [{"locationName": "Town B"}]}, {"trainid": "1A23", "stdSpecified": true, "std": "2025-01-01T10:00:00", "destination": [{"locationName": "City"}]}]}''\<close>

definition snapshot_bus_json :: json where
  "snapshot_bus_json =
     JObj [(''trainServices'',
            JArr [JObj [(''trainid'', JStr ''0B00''), (''stdSpecified'', JBool True),
                        (''std'', JStr ''2025-01-01T10:00:00''),
                        (''destination'', JArr [JObj [(''locationName'', JStr ''Town A'')]])],
                  JObj [(''trainid'', JStr ''0B00''), (''stdSpecified'', JBool True),
                        (''std'', JStr ''2025-01-01T10:00:00''),
                        (''destination'', JArr [JObj [(''locationName'', JStr ''Town B'')]])],
                  JObj [(''trainid'', JStr ''1A23''), (''stdSpecified'', JBool True),
                        (''std'', JStr ''2025-01-01T10:00:00''),
                        (''destination'', JArr [JObj [(''locationName'', JStr ''City'')]])]])]"

definition snapshot_after_text :: string where
  \<open>snapshot_after_text =
     ''{"trainServices": [{"trainid": "1A23", "stdSpecified": true, "std": "2025-01-01T10:00:00", "destination": [{"locationName": "City"}]}]}''\<close>

definition snapshot_after_json :: json where
  "snapshot_after_json =
     JObj [(''trainServices'',
            JArr [JObj [(''trainid'', JStr ''1A23''), (''stdSpecified'', JBool True),
                        (''std'', JStr ''2025-01-01T10:00:00''),
                        (''destination'', JArr [JObj [(''locationName'', JStr ''City'')]])]])]"

definition snapshot_two_text :: string where
  \<open>snapshot_two_text =
     ''{"trainServices": [{"trainid": "X", "stdSpecified": true, "std": "2025-01-01T10:00:00"}, {"trainid": "Y", "stdSpecified": true, "std": "2025-01-01T10:00:00", "departureType": "Delayed"}, {"trainid": "Z"}]}''\<close>

definition snapshot_two_json :: json where
  "snapshot_two_json =
     JObj [(''trainServices'',
            JArr [JObj [(''trainid'', JStr ''X''), (''stdSpecified'', JBool True),
                        (''std'', JStr ''2025-01-01T10:00:00'')],
                  JObj [(''trainid'', JStr ''Y''), (''stdSpecified'', JBool True),
                        (''std'', JStr ''2025-01-01T10:00:00''),
                        (''departureType'', JStr ''Delayed'')],
                  JObj [(''trainid'', JStr ''Z'')]])]"

definition snapshot_etd_text :: string where
  \<open>snapshot_etd_text =
     ''{"trainServices": [{"trainid": "P", "stdSpecified": true, "std": "2025-01-01T10:00:00", "etdSpecified": true, "etd": "2025-01-01T10:00:00"}, {"trainid": "Q", "stdSpecified": true, "std": "2025-01-01T10:00:00", "isCancelled": true}]}''\<close>

definition snapshot_etd_json :: json where
  "snapshot_etd_json =
     JObj [(''trainServices'',
            JArr [JObj [(''trainid'', JStr ''P''), (''stdSpecified'', JBool True),
                        (''std'', JStr ''2025-01-01T10:00:00''),
                        (''etdSpecified'', JBool True),
                        (''etd'', JStr ''2025-01-01T10:00:00'')],
                  JObj [(''trainid'', JStr ''Q''), (''stdSpecified'', JBool True),
                        (''std'', JStr ''2025-01-01T10:00:00''),
                        (''isCancelled'', JBool True)]])]"

definition snapshot_arrivals_text :: string where
  \<open>snapshot_arrivals_text =
     ''{"trainServices": [{"trainid": "Z1"}, {"trainid": "X", "stdSpecified": true, "std": "2025-01-01T10:00:00"}, {"trainid": "Z2"}]}''\<close>

definition snapshot_arrivals_json :: json where
  "snapshot_arrivals_json =
     JObj [(''trainServices'',
            JArr [JObj [(''trainid'', JStr ''Z1'')],
                  JObj [(''trainid'', JStr ''X''), (''stdSpecified'', JBool True),
                        (''std'', JStr ''2025-01-01T10:00:00'')],
                  JObj [(''trainid'', JStr ''Z2'')]])]"

text \<open>
  A board of seventeen services in the order of their scheduled times, one minute apart,
  except that the services at the indices 7 and 8 both leave at 10:07.
\<close>

definition snapshot_board_text :: string where
  \<open>snapshot_board_text =
     ''{"trainServices": [{"trainid": "S00", "stdSpecified": true, "std": "2025-01-01T10:00:00"}, {"trainid": "S01", "stdSpecified": true, "std": "2025-01-01T10:01:00"}, {"trainid": "S02", "stdSpecified": true, "std": "2025-01-01T10:02:00"}, {"trainid": "S03", "stdSpecified": true, "std": "2025-01-01T10:03:00"}, {"trainid": "S04", "stdSpecified": true, "std": "2025-01-01T10:04:00"}, {"trainid": "S05", "stdSpecified": true, "std": "2025-01-01T10:05:00"}, {"trainid": "S06", "stdSpecified": true, "std": "2025-01-01T10:06:00"}, {"trainid": "S07", "stdSpecified": true, "std": "2025-01-01T10:07:00"}, {"trainid": "S08", "stdSpecified": true, "std": "2025-01-01T10:07:00"}, {"trainid": "S09", "stdSpecified": true, "std": "2025-01-01T10:09:00"}, {"trainid": "S10", "stdSpecified": true, "std": "2025-01-01T10:10:00"}, {"trainid": "S11", "stdSpecified": true, "std": "2025-01-01T10:11:00"}, {"trainid": "S12", "stdSpecified": true, "std": "2025-01-01T10:12:00"}, {"trainid": "S13", "stdSpecified": true, "std": "2025-01-01T10:13:00"}, {"trainid": "S14", "stdSpecified": true, "std": "2025-01-01T10:14:00"}, {"trainid": "S15", "stdSpecified": true, "std": "2025-01-01T10:15:00"}, {"trainid": "S16", "stdSpecified": true, "std": "2025-01-01T10:16:00"}]}''\<close>

definition snapshot_board_json :: json where
  "snapshot_board_json =
     JObj [(''trainServices'',
            JArr [JObj [(''trainid'', JStr ''S00''), (''stdSpecified'', JBool True),
                        (''std'', JStr ''2025-01-01T10:00:00'')],
                  JObj [(''trainid'', JStr ''S01''), (''stdSpecified'', JBool True),
                        (''std'', JStr ''2025-01-01T10:01:00'')],
                  JObj [(''trainid'', JStr ''S02''), (''stdSpecified'', JBool True),
                        (''std'', JStr ''2025-01-01T10:02:00'')],
                  JObj [(''trainid'', JStr ''S03''), (''stdSpecified'', JBool True),
                        (''std'', JStr ''2025-01-01T10:03:00'')],
                  JObj [(''trainid'', JStr ''S04''), (''stdSpecified'', JBool True),
                        (''std'', JStr ''2025-01-01T10:04:00'')],
                  JObj [(''trainid'', JStr ''S05''), (''stdSpecified'', JBool True),
                        (''std'', JStr ''2025-01-01T10:05:00'')],
                  JObj [(''trainid'', JStr ''S06''), (''stdSpecified'', JBool True),
                        (''std'', JStr ''2025-01-01T10:06:00'')],
                  JObj [(''trainid'', JStr ''S07''), (''stdSpecified'', JBool True),
                        (''std'', JStr ''2025-01-01T10:07:00'')],
                  JObj [(''trainid'', JStr ''S08''), (''stdSpecified'', JBool True),
                        (''std'', JStr ''2025-01-01T10:07:00'')],
                  JObj [(''trainid'', JStr ''S09''), (''stdSpecified'', JBool True),
                        (''std'', JStr ''2025-01-01T10:09:00'')],
                  JObj [(''trainid'', JStr ''S10''), (''stdSpecified'', JBool True),
                        (''std'', JStr ''2025-01-01T10:10:00'')],
                  JObj [(''trainid'', JStr ''S11''), (''stdSpecified'', JBool True),
                        (''std'', JStr ''2025-01-01T10:11:00'')],
                  JObj [(''trainid'', JStr ''S12''), (''stdSpecified'', JBool True),
                        (''std'', JStr ''2025-01-01T10:12:00'')],
                  JObj [(''trainid'', JStr ''S13''), (''stdSpecified'', JBool True),
                        (''std'', JStr ''2025-01-01T10:13:00'')],
                  JObj [(''trainid'', JStr ''S14''), (''stdSpecified'', JBool True),
                        (''std'', JStr ''2025-01-01T10:14:00'')],
                  JObj [(''trainid'', JStr ''S15''), (''stdSpecified'', JBool True),
                        (''std'', JStr ''2025-01-01T10:15:00'')],
                  JObj [(''trainid'', JStr ''S16''), (''stdSpecified'', JBool True),
                        (''std'', JStr ''2025-01-01T10:16:00'')]])]"

definition example_parse :: "string \<Rightarrow> json option" where
  "example_parse s =
     (if s = reasons_text then Some reasons_json
      else if s = reasons_dup_text then Some reasons_dup_json
      else if s = snapshot_empty_text then Some snapshot_empty_json
      else if s = snapshot_bus_text then Some snapshot_bus_json
      else if s = snapshot_after_text then Some snapshot_after_json
      else if s = snapshot_two_text then Some snapshot_two_json
      else if s = snapshot_etd_text then Some snapshot_etd_json
      else if s = snapshot_arrivals_text then Some snapshot_arrivals_json
      else if s = snapshot_board_text then Some snapshot_board_json
      else None)"

text \<open>
  The time conversion on a host in UTC, for the times of the feeds: 10:00 to 10:16 on
  1 January 2025.
\<close>

definition example_mk_time :: "string \<Rightarrow> int option" where
  "example_mk_time s =
     map_of
       [(''2025-01-01T10:00:00'', 1735725600),
        (''2025-01-01T10:01:00'', 1735725660),
        (''2025-01-01T10:02:00'', 1735725720),
        (''2025-01-01T10:03:00'', 1735725780),
        (''2025-01-01T10:04:00'', 1735725840),
        (''2025-01-01T10:05:00'', 1735725900),
        (''2025-01-01T10:06:00'', 1735725960),
        (''2025-01-01T10:07:00'', 1735726020),
        (''2025-01-01T10:08:00'', 1735726080),
        (''2025-01-01T10:09:00'', 1735726140),
        (''2025-01-01T10:10:00'', 1735726200),
        (''2025-01-01T10:11:00'', 1735726260),
        (''2025-01-01T10:12:00'', 1735726320),
        (''2025-01-01T10:13:00'', 1735726380),
        (''2025-01-01T10:14:00'', 1735726440),
        (''2025-01-01T10:15:00'', 1735726500),
        (''2025-01-01T10:16:00'', 1735726560)] s"

definition example_env :: platform_env where
  "example_env =
     \<lparr>parse_json = example_parse,
      mk_time = example_mk_time,
      std_sort = insertion_sort,
      uninit_basic = (\<lambda>i. default_BasicServiceInfo\<lparr>apiDataVersion_basic := 0xDEADBEEF\<rparr>),
      uninit_additional = (\<lambda>i. default_AdditionalServiceInfo\<lparr>apiDataVersion_add := 0xDEADBEEF\<rparr>)\<rparr>"

text \<open>The same platform with \<^verbatim>\<open>std::sort\<close> as libstdc++ implements it.\<close>

definition example_env_libstdcxx :: platform_env where
  "example_env_libstdcxx = example_env\<lparr>std_sort := libstdcxx_sort\<rparr>"

text \<open>
  The same platform where the memory of the local \<^verbatim>\<open>new_basic_item\<close> is what an earlier call of
  \<^verbatim>\<open>hydrateBasicDataCacheInternal\<close> under version 5 left there, from the second hydration on:
  the stamp 5, the flags of a computed record.
\<close>

definition example_env_reused_stack :: platform_env where
  "example_env_reused_stack =
     example_env
       \<lparr>uninit_basic :=
          (\<lambda>i. if i = 0 then default_BasicServiceInfo\<lparr>apiDataVersion_basic := 0xDEADBEEF\<rparr>
                else default_BasicServiceInfo
                       \<lparr>apiDataVersion_basic := 5, static_data_available_basic := True\<rparr>)\<rparr>"

text \<open>A parser for three services and two departures, before and after the reason codes.\<close>

definition example_parser :: TrainServiceParser where
  "example_parser =
     new_TrainServiceParser 3 2 0 default_BasicServiceInfo default_AdditionalServiceInfo"

definition example_loaded :: TrainServiceParser where
  "example_loaded = snd (loadReasonCodes example_env example_parser reasons_text)"

text \<open>The parser after a first ingestion, of three services under version 5.\<close>

definition example_published :: TrainServiceParser where
  "example_published = snd (updateCache example_env 0 example_loaded snapshot_two_text 5)"

text \<open>The parser after \<open>prefetchCache\<close> alone: no tier is hydrated yet.\<close>

definition example_prefetched :: "string \<Rightarrow> TrainServiceParser" where
  "example_prefetched jsonString = snd (prefetchCache example_env 0 example_loaded jsonString 5)"

text \<open>A parser for seventeen services and three departures, with the reason codes loaded.\<close>

definition example_board_parser :: TrainServiceParser where
  "example_board_parser =
     snd (loadReasonCodes example_env_libstdcxx
            (new_TrainServiceParser 17 3 0 default_BasicServiceInfo default_AdditionalServiceInfo)
            reasons_text)"

section \<open>Properties of the text sanitizer\<close>

lemma match_entity_prefix: "match_entity d i es = match_prefix (drop i d) es"
  by (induction es) auto

lemma regular_loop_suffix: "regular_loop d i inTag buf = buf @ regular_suffix inTag (drop i d)"
proof (induction d i inTag buf rule: regular_loop.induct)
  case (1 d i inTag buf)
  show ?case
  proof (cases "i < length d")
    case False
    then show ?thesis by (subst regular_loop.simps) simp
  next
    case True
    define c where "c = d ! i"
    have dr: "drop i d = c # drop (Suc i) d"
      using True by (simp add: Cons_nth_drop_Suc c_def)
    have me: "match_entity d i entities = match_prefix (c # drop (Suc i) d) entities"
      by (simp add: match_entity_prefix dr)
    note IH = 1 [OF True c_def [symmetric, THEN sym]]
    consider (lt) "c = CHR ''<''"
      | (gt) "c \<noteq> CHR ''<''" "c = CHR ''>''"
      | (tag) "c \<noteq> CHR ''<''" "c \<noteq> CHR ''>''" "inTag"
      | (ent) e where "c \<noteq> CHR ''<''" "c \<noteq> CHR ''>''" "\<not> inTag" "c = CHR ''&''"
          "match_entity d i entities = Some e"
      | (amp) "c \<noteq> CHR ''<''" "c \<noteq> CHR ''>''" "\<not> inTag" "c = CHR ''&''"
          "match_entity d i entities = None"
      | (keep) "c \<noteq> CHR ''<''" "c \<noteq> CHR ''>''" "\<not> inTag" "c \<noteq> CHR ''&''"
          "c \<noteq> CHR 0x0A \<and> c \<noteq> CHR 0x0D"
      | (nl) "c \<noteq> CHR ''<''" "c \<noteq> CHR ''>''" "\<not> inTag" "c \<noteq> CHR ''&''"
          "\<not> (c \<noteq> CHR 0x0A \<and> c \<noteq> CHR 0x0D)"
      by (cases "match_entity d i entities") auto
    then show ?thesis
    proof cases
      case lt
      from IH(1) [OF lt] show ?thesis
        by (subst regular_loop.simps, subst dr)
           (simp add: True lt c_def [symmetric])
    next
      case gt
      from IH(2) [OF gt] show ?thesis
        by (subst regular_loop.simps, subst dr)
           (simp add: True gt c_def [symmetric])
    next
      case tag
      from IH(3) [OF tag] show ?thesis
        by (subst regular_loop.simps, subst dr)
           (simp add: True tag c_def [symmetric])
    next
      case ent
      have "drop (entity_length e - 1) (drop (Suc i) d) = drop (i + (entity_length e - 1) + 1) d"
        by (simp add: add.commute)
      with IH(5) [OF ent(1,2,3,4,5)] ent me show ?thesis
        by (subst regular_loop.simps, subst dr)
           (simp add: True c_def [symmetric])
    next
      case amp
      with IH(4) [OF amp(1,2,3,4,5)] me show ?thesis
        by (subst regular_loop.simps, subst dr)
           (simp add: True c_def [symmetric])
    next
      case keep
      with IH(6) [OF keep(1,2,3,4,5)] show ?thesis
        by (subst regular_loop.simps, subst dr)
           (simp add: True c_def [symmetric])
    next
      case nl
      with IH(7) [OF nl(1,2,3,4,5)] show ?thesis
        by (subst regular_loop.simps, subst dr)
           (auto simp: True c_def [symmetric])
    qed
  qed
qed

lemma regular_suffix_plain: "plain p \<Longrightarrow> regular_suffix False (p @ r) = p @ regular_suffix False r"
  by (induction p) (auto simp: plain_def)

lemma regular_suffix_in_tag:
  "CHR ''>'' \<notin> set t \<Longrightarrow> regular_suffix True (t @ CHR ''>'' # r) = regular_suffix False r"
  by (induction t) (auto simp:)

lemma regular_suffix_tag:
  "CHR ''>'' \<notin> set t \<Longrightarrow> regular_suffix b (CHR ''<'' # t @ CHR ''>'' # r) = regular_suffix False r"
  by (simp add: regular_suffix_in_tag)

lemma regular_suffix_entity:
  "e \<in> set entities \<Longrightarrow> regular_suffix False (entity e @ r) = replacement e # regular_suffix False r"
  by (auto simp: entities_def)

lemma match_prefix_replacement:
  "match_prefix s entities = Some e \<Longrightarrow> replacement e \<noteq> CHR 0x0A \<and> replacement e \<noteq> CHR 0x0D"
  by (auto simp: entities_def split: if_splits)

lemma regular_suffix_no_newline:
  "CHR 0x0A \<notin> set (regular_suffix b s) \<and> CHR 0x0D \<notin> set (regular_suffix b s)"
proof (induction b s rule: regular_suffix.induct)
  case (1 inTag)
  then show ?case by simp
next
  case (2 inTag c cs)
  show ?case
  proof (cases "c = CHR ''<''")
    case True
    with 2(1) show ?thesis by simp
  next
    case lt: False
    show ?thesis
    proof (cases "c = CHR ''>''")
      case True
      with lt 2(2) show ?thesis by simp
    next
      case gt: False
      show ?thesis
      proof (cases inTag)
        case True
        with lt gt 2(3) show ?thesis by simp
      next
        case tag: False
        show ?thesis
        proof (cases "c = CHR ''&''")
          case amp: True
          show ?thesis
          proof (cases "match_prefix (c # cs) entities")
            case None
            with lt gt tag amp 2(4) show ?thesis by simp
          next
            case (Some e)
            with lt gt tag amp 2(5) match_prefix_replacement [OF Some] show ?thesis by auto
          qed
        next
          case namp: False
          show ?thesis
          proof (cases "c \<noteq> CHR 0x0A \<and> c \<noteq> CHR 0x0D")
            case True
            with lt gt tag namp 2(6) show ?thesis by auto
          next
            case False
            with lt gt tag namp 2(7) show ?thesis by auto
          qed
        qed
      qed
    qed
  qed
qed


lemma processHtmlTagsRegular_suffix: "processHtmlTagsRegular html = regular_suffix False html"
  by (simp add: processHtmlTagsRegular_def regular_loop_suffix)

text \<open>
  Claim C7, as the spec states it: \<open>sanitize("A &amp; B <b>bold</b>\n")\<close> returns \<open>"A & B "\<close>.
  The scalar sanitizer drops the tags \<open><b>\<close> and \<open></b>\<close> only; the text \<open>bold\<close> between them is
  outside every tag and is kept, so the result is not \<open>"A & B "\<close>.
\<close>

theorem sanitize_reference_case_counterexample:
  "processHtmlTagsRegular (''A &amp; B <b>bold</b>'' @ [CHR 0x0A]) \<noteq> ''A & B ''"
  by (simp add: processHtmlTagsRegular_suffix entities_def)

text \<open>
  Claim C7, amended: \<open>sanitize("A &amp; B <b>bold</b>\n")\<close> returns \<open>"A & B bold"\<close> and
  \<open>sanitize("")\<close> returns \<open>""\<close>. For every input the result holds no newline and no carriage
  return; text without special characters is copied; a tag, from \<open><\<close> to the next \<open>>\<close>, is
  removed with the characters inside it, and the text after the tag is processed as usual
  (the text between an opening and a closing tag is kept); each of the six entities of the
  table is decoded into its single character; a newline or carriage return is dropped.
\<close>

theorem processHtmlTagsRegular_sanitize:
  "processHtmlTagsRegular (''A &amp; B <b>bold</b>'' @ [CHR 0x0A]) = ''A & B bold''
   \<and> processHtmlTagsRegular [] = []
   \<and> CHR 0x0A \<notin> set (processHtmlTagsRegular s) \<and> CHR 0x0D \<notin> set (processHtmlTagsRegular s)
   \<and> (plain p \<longrightarrow> processHtmlTagsRegular (p @ r) = p @ processHtmlTagsRegular r)
   \<and> (CHR ''>'' \<notin> set t \<longrightarrow>
        processHtmlTagsRegular (CHR ''<'' # t @ CHR ''>'' # r) = processHtmlTagsRegular r)
   \<and> (e \<in> set entities \<longrightarrow>
        processHtmlTagsRegular (entity e @ r) = replacement e # processHtmlTagsRegular r)
   \<and> (c = CHR 0x0A \<or> c = CHR 0x0D \<longrightarrow>
        processHtmlTagsRegular (c # r) = processHtmlTagsRegular r)"
proof -
  have ref: "processHtmlTagsRegular (''A &amp; B <b>bold</b>'' @ [CHR 0x0A]) = ''A & B bold''"
    by (simp add: processHtmlTagsRegular_suffix entities_def)
  have nl: "CHR 0x0A \<notin> set (processHtmlTagsRegular s) \<and> CHR 0x0D \<notin> set (processHtmlTagsRegular s)"
    by (simp only: processHtmlTagsRegular_suffix regular_suffix_no_newline simp_thms)
  have drop_nl: "c = CHR 0x0A \<or> c = CHR 0x0D \<longrightarrow>
      processHtmlTagsRegular (c # r) = processHtmlTagsRegular r"
    by (auto simp: processHtmlTagsRegular_suffix)
  show ?thesis
    using ref nl drop_nl
    by (simp add: processHtmlTagsRegular_suffix regular_suffix_plain regular_suffix_tag
        regular_suffix_entity del: regular_suffix.simps(2))
qed

theorem processHtmlTagsRegular_sanitize_witness:
  "plain ''A '' \<and> CHR ''>'' \<notin> set ''b'' \<and> entities ! 1 \<in> set entities
   \<and> processHtmlTagsRegular (''A '' @ ''&amp;'') = ''A '' @ processHtmlTagsRegular ''&amp;''
   \<and> processHtmlTagsRegular (CHR ''<'' # ''b'' @ CHR ''>'' # ''bold'') = processHtmlTagsRegular ''bold''
   \<and> processHtmlTagsRegular (entity (entities ! 1) @ '' B'')
       = replacement (entities ! 1) # processHtmlTagsRegular '' B''
   \<and> processHtmlTagsRegular (CHR 0x0A # ''x'') = processHtmlTagsRegular ''x''"
proof -
  have h1: "plain ''A ''" by (simp add: plain_def)
  have h2: "CHR ''>'' \<notin> set ''b''" by simp
  have h3: "entities ! 1 \<in> set entities" by (simp add: entities_def)
  show ?thesis
    using processHtmlTagsRegular_sanitize
            [where s = "[]" and p = "''A ''" and r = "''&amp;''" and t = "[]"
               and e = "entities ! 1" and c = "CHR 0x0A"]
          processHtmlTagsRegular_sanitize
            [where s = "[]" and p = "[]" and r = "''bold''" and t = "''b''"
               and e = "entities ! 1" and c = "CHR 0x0A"]
          processHtmlTagsRegular_sanitize
            [where s = "[]" and p = "[]" and r = "'' B''" and t = "[]"
               and e = "entities ! 1" and c = "CHR 0x0A"]
          processHtmlTagsRegular_sanitize
            [where s = "[]" and p = "[]" and r = "''x''" and t = "[]"
               and e = "entities ! 1" and c = "CHR 0x0A"]
          h1 h2 h3
    by simp
qed

text \<open>
  Claim C8: for every input \<open>processHtmlTagsNEON\<close> returns what \<open>processHtmlTagsRegular\<close>
  returns, also when an entity spans a 16-byte chunk boundary. On the 19-byte input below
  the entity \<open>&amp;\<close> starts at byte 14 of the first chunk: the chunk loop decodes it and
  moves \<open>j\<close> past the chunk end, but the next chunk starts at byte 16 all the same, so the
  bytes \<open>mp;\<close> are emitted again by the tail loop. The two results differ.
\<close>

theorem processHtmlTagsNEON_entity_across_chunk:
  "processHtmlTagsNEON ''aaaaaaaaaaaaaa&amp;'' = ''aaaaaaaaaaaaaa&mp;''
   \<and> processHtmlTagsRegular ''aaaaaaaaaaaaaa&amp;'' = ''aaaaaaaaaaaaaa&''"
  by code_simp

section \<open>Ingestion: failure, versions, published state\<close>

lemma prefetchMetaData_shape:
  "prefetchMetaData j st = (r, st1) \<Longrightarrow>
     st1 = st\<lparr>number_of_services := min (service_count j) (max_json_size st),
              location_name := location_name st1, NRCC_message := NRCC_message st1\<rparr>"
  by (auto simp: prefetchMetaData_def Let_def min_def split: sum.splits)

lemma orderTheDepartureList_kept:
  "service_List (orderTheDepartureList E st) = service_List st
   \<and> number_of_departures (orderTheDepartureList E st) = number_of_departures st
   \<and> number_of_services (orderTheDepartureList E st) = number_of_services st
   \<and> api_data_version (orderTheDepartureList E st) = api_data_version st
   \<and> max_json_size (orderTheDepartureList E st) = max_json_size st
   \<and> services_basic (orderTheDepartureList E st) = services_basic st
   \<and> services_additions (orderTheDepartureList E st) = services_additions st
   \<and> services_callingpoints (orderTheDepartureList E st) = services_callingpoints st
   \<and> services_sequence (orderTheDepartureList E st) = services_sequence st
   \<and> cached_trainIDs (orderTheDepartureList E st) = cached_trainIDs st
   \<and> data (orderTheDepartureList E st) = data st"
  by (simp add: orderTheDepartureList_def Let_def)


lemma prefetchCache_NoneE:
  assumes "prefetchCache E now st jsonString version = (None, st')"
  obtains j st1 nv where "refdata_loaded st" "parse_json E jsonString = Some j"
    "prefetchMetaData j st = (None, st1)"
    "prefetch_loop E now j version st1 0 (initial_new_vectors (max_json_size st1)) = Inr nv"
    "st' = publish_snapshot E j version st1 nv"
  using assms unfolding prefetchCache_def
  by (auto split: if_splits option.splits prod.splits sum.splits)

lemma publish_snapshot_fields:
  "service_List (publish_snapshot E j v st1 nv) = replicate (length (service_List st1)) 999"
  "number_of_departures (publish_snapshot E j v st1 nv) = number_of_departures st1"
  "number_of_services (publish_snapshot E j v st1 nv) = number_of_services st1"
  "max_json_size (publish_snapshot E j v st1 nv) = max_json_size st1"
  "api_data_version (publish_snapshot E j v st1 nv) = v"
  "data (publish_snapshot E j v st1 nv) = j"
  "services_basic (publish_snapshot E j v st1 nv) = new_services_basic nv"
  "services_additions (publish_snapshot E j v st1 nv) = new_services_additions nv"
  "services_callingpoints (publish_snapshot E j v st1 nv) = new_services_callingpoints nv"
  "services_sequence (publish_snapshot E j v st1 nv) = new_services_sequence nv"
  "cached_trainIDs (publish_snapshot E j v st1 nv) = new_cached_trainIDs nv"
  by (simp_all add: publish_snapshot_def Let_def orderTheDepartureList_kept)

lemma prefetchMetaData_fields:
  assumes "prefetchMetaData j st = (r, st1)"
  shows "service_List st1 = service_List st" "number_of_departures st1 = number_of_departures st"
    "max_json_size st1 = max_json_size st" "ETDOrderedList st1 = ETDOrderedList st"
    "refdata_loaded st1 = refdata_loaded st" "api_data_version st1 = api_data_version st"
    "cached_trainIDs st1 = cached_trainIDs st" "services_basic st1 = services_basic st"
    "services_additions st1 = services_additions st"
    "services_callingpoints st1 = services_callingpoints st"
    "services_sequence st1 = services_sequence st"
    "number_of_services st1 = min (service_count j) (max_json_size st)"
  by (subst prefetchMetaData_shape [OF assms], simp)+







lemma hydrateBasicDataCacheInternal_shape:
  "hydrateBasicDataCacheInternal E st i = (r, st') \<Longrightarrow>
     st'\<lparr>services_basic := services_basic st, services_additions := services_additions st\<rparr> = st"
  by (auto simp: hydrateBasicDataCacheInternal_def Let_def split: sum.splits if_splits)

lemma tiers_shape_trans:
  assumes A: "st'\<lparr>services_basic := services_basic st1, services_additions := services_additions st1\<rparr> = st1"
    and B: "st1\<lparr>services_basic := services_basic st, services_additions := services_additions st\<rparr> = st"
  shows "st'\<lparr>services_basic := services_basic st, services_additions := services_additions st\<rparr> = st"
proof -
  have "st'\<lparr>services_basic := services_basic st, services_additions := services_additions st\<rparr>
      = (st'\<lparr>services_basic := services_basic st1, services_additions := services_additions st1\<rparr>)
          \<lparr>services_basic := services_basic st, services_additions := services_additions st\<rparr>"
    by simp
  also have "\<dots> = st1\<lparr>services_basic := services_basic st, services_additions := services_additions st\<rparr>"
    by (simp only: A)
  also have "\<dots> = st" by (rule B)
  finally show ?thesis .
qed

lemma hydrate_departures_loop_shape:
  "hydrate_departures_loop E nd st i = (r, st') \<Longrightarrow>
     st'\<lparr>services_basic := services_basic st, services_additions := services_additions st\<rparr> = st"
proof (induction E nd st i rule: hydrate_departures_loop.induct)
  case (1 E nd st i)
  show ?case
  proof (cases "i < nd")
    case False
    with 1(3) show ?thesis
      by (simp add: hydrate_departures_loop.simps [of E nd st i])
  next
    case True
    show ?thesis
    proof (cases "service_List st ! i \<noteq> 999")
      case False
      with True 1(3) 1(2) [OF True refl] show ?thesis
        by (simp add: hydrate_departures_loop.simps [of E nd st i])
    next
      case idx: True
      obtain r1 st1 where h: "hydrateBasicDataCacheInternal E st (service_List st ! i) = (r1, st1)"
        by (cases "hydrateBasicDataCacheInternal E st (service_List st ! i)")
      note sh = hydrateBasicDataCacheInternal_shape [OF h]
      show ?thesis
      proof (cases r1)
        case (Some e)
        with True idx h 1(3) have "st' = st1"
          by (simp add: hydrate_departures_loop.simps [of E nd st i])
        with sh show ?thesis by simp
      next
        case None
        with True idx h 1(3) have l: "hydrate_departures_loop E nd st1 (i + 1) = (r, st')"
          by (simp add: hydrate_departures_loop.simps [of E nd st i])
        from 1(1) [OF True refl idx h [unfolded None, symmetric] refl l] sh
        show ?thesis by (rule tiers_shape_trans)
      qed
    qed
  qed
qed

lemma hydrateDepartureCache_shape:
  "hydrateDepartureCache E st = (r, st') \<Longrightarrow>
     st'\<lparr>services_basic := services_basic st, services_additions := services_additions st,
         service_List := service_List st\<rparr> = st"
proof -
  assume a: "hydrateDepartureCache E st = (r, st')"
  show ?thesis
  proof (cases "number_of_services st = 0")
    case True
    with a show ?thesis by (simp add: hydrateDepartureCache_def)
  next
    case False
    define st1 where "st1 = st\<lparr>service_List :=
                        (if selectPlatform st then select_platform_loop st 0 0 (service_List st)
                         else all_platforms_loop st 0 (service_List st))\<rparr>"
    obtain r2 st2 where l: "hydrate_departures_loop E (number_of_departures st1) st1 0 = (r2, st2)"
      by (cases "hydrate_departures_loop E (number_of_departures st1) st1 0")
    from a False l have "st' = st2"
      by (auto simp: hydrateDepartureCache_def Let_def st1_def [symmetric] split: option.splits if_splits)
    moreover have "st2\<lparr>services_basic := services_basic st,
         services_additions := services_additions st, service_List := service_List st\<rparr> = st"
    proof -
      from hydrate_departures_loop_shape [OF l]
      have H: "st2\<lparr>services_basic := services_basic st, services_additions := services_additions st\<rparr> = st1"
        by (simp add: st1_def)
      have "(st2\<lparr>services_basic := services_basic st, services_additions := services_additions st\<rparr>)
              \<lparr>service_List := service_List st\<rparr> = st1\<lparr>service_List := service_List st\<rparr>"
        by (simp only: H)
      then show ?thesis by (simp add: st1_def)
    qed
    ultimately show ?thesis by simp
  qed
qed


lemma updateCache_success:
  assumes "updateCache E now st js v = (None, st')"
  obtains st1 where "prefetchCache E now st js v = (None, st1)" "hydrateDepartureCache E st1 = (None, st')"
  using assms unfolding updateCache_def
  by (auto split: prod.splits option.splits)





text \<open>
  Claim C5: an ingestion given malformed top-level JSON fails with an error for the caller
  and modifies nothing: \<open>prefetchCache\<close> and \<open>updateCache\<close> return the error together with
  the parser exactly as it was (data, version, sequence, tiers, identity map, ordering and
  metadata).
\<close>

theorem ingestion_parse_failure:
  "parse_json E jsonString = None \<Longrightarrow>
     prefetchCache E now st jsonString version =
       (Some (if refdata_loaded st
              then RuntimeError ''[Parser] Failed to parse JSON in cache pre-fetch ''
              else OutOfRange ''Reference Data not loaded - fatal error!''), st)
     \<and> updateCache E now st jsonString version = prefetchCache E now st jsonString version"
  by (simp add: prefetchCache_def updateCache_def)

theorem ingestion_parse_failure_witness:
  "parse_json example_env ''{'' = None
   \<and> updateCache example_env 0 example_loaded ''{'' 7 =
       (Some (RuntimeError ''[Parser] Failed to parse JSON in cache pre-fetch ''), example_loaded)"
proof -
  have h: "parse_json example_env ''{'' = None"
    by code_simp
  have r: "refdata_loaded example_loaded"
    by code_simp
  show ?thesis
    using ingestion_parse_failure [OF h, of 0 example_loaded 7] h r by simp
qed

section \<open>The accessors\<close>

text \<open>
  Claim C6, as the spec states it: at the sentinel index the accessor returns a null record
  whose fields are never blank. After the reason codes are loaded the record returned for
  index 999 has an empty \<open>coaches\<close> field (assigned so by \<open>CreateNullServiceInfo\<close>) and an
  empty \<open>adhocAlerts\<close> field (never assigned).
\<close>

theorem null_record_blank_fields_counterexample:
  "fst (getBasicServiceInfo example_env example_loaded 999) = Inr (null_basic_service example_loaded)
   \<and> coaches (null_basic_service example_loaded) = []
   \<and> adhocAlerts (null_basic_service example_loaded) = []"
  by code_simp

text \<open>
  Claim C6, amended: for \<open>getBasicServiceInfo\<close> and \<open>getAdditionalServiceInfo\<close>, the sentinel
  index 999 returns the parser's null record without an error and without a change of
  state; an index that is not the sentinel and is at least the service count fails with
  the out-of-range error \<open>Service index out of range\<close>, again without a change of state.
  Once the reason codes are loaded the null records carry the placeholders of
  \<open>CreateNullServiceInfo\<close> (train id 9999, destination and origin Nowhere, times 99:99,
  operator Nobody, reasons marked as null service, loading 999 and 99), while \<open>coaches\<close> is
  blank and \<open>adhocAlerts\<close> and \<open>Formation\<close> stay as constructed.
\<close>

theorem service_info_sentinel_and_range:
  "getBasicServiceInfo E st 999 = (Inr (null_basic_service st), st)
   \<and> getAdditionalServiceInfo E st 999 = (Inr (null_additional_service st), st)
   \<and> (service_index \<noteq> 999 \<and> service_index \<ge> number_of_services st \<longrightarrow>
        getBasicServiceInfo E st service_index
          = (Inl (OutOfRange ''Service index out of range''), st)
        \<and> getAdditionalServiceInfo E st service_index
          = (Inl (OutOfRange ''Service index out of range''), st))
   \<and> (loadReasonCodes E st0 reasonJsonString = (None, st1) \<longrightarrow>
        null_basic_service st1 =
          \<lparr>trainid_basic = ''9999'', destination = ''Nowhere'',
           scheduledDepartureTime = ''99:99'', estimatedDepartureTime = ''99:99'',
           operator_name = ''Nobody'', coaches = [], isCancelled = False, isDelayed = False,
           cancelReason = ''Null Service - Cancellation Reason'',
           delayReason = ''Null Service - Delay Reason'',
           adhocAlerts = adhocAlerts (null_basic_service st0),
           apiDataVersion_basic = 0, static_data_available_basic = True\<rparr>
        \<and> null_additional_service st1 =
          \<lparr>trainid_add = ''9999'', apiDataVersion_add = 0, static_data_available_add = True,
           origin = ''Nowhere'', loading_type = ''999'', loadingPercentage = 99,
           Formation = Formation (null_additional_service st0), platformIsHidden = False,
           serviceIsSupressed = False, isPassengerService = True\<rparr>)"
proof -
  have n: "loadReasonCodes E st0 reasonJsonString = (None, st1) \<Longrightarrow>
      null_basic_service st1 = null_basic_service (CreateNullServiceInfo st0)
      \<and> null_additional_service st1 = null_additional_service (CreateNullServiceInfo st0)"
    by (auto simp: loadReasonCodes_def CreateNullServiceInfo_def split: option.splits prod.splits)
  show ?thesis
    using n
    by (auto simp: getBasicServiceInfo_def getAdditionalServiceInfo_def CreateNullServiceInfo_def)
qed

theorem service_info_sentinel_and_range_witness:
  "7 \<noteq> (999 :: nat) \<and> 7 \<ge> number_of_services example_published
   \<and> getBasicServiceInfo example_env example_published 7
       = (Inl (OutOfRange ''Service index out of range''), example_published)
   \<and> loadReasonCodes example_env example_parser reasons_text = (None, example_loaded)
   \<and> trainid_basic (null_basic_service example_loaded) = ''9999''"
proof -
  have h1: "7 \<ge> number_of_services example_published"
    by code_simp
  have "fst (loadReasonCodes example_env example_parser reasons_text) = None"
    by code_simp
  then have h2: "loadReasonCodes example_env example_parser reasons_text = (None, example_loaded)"
    by (simp add: example_loaded_def prod_eq_iff)
  show ?thesis
    using service_info_sentinel_and_range
            [where E = example_env and st = example_published and service_index = 7
               and ?st0.0 = example_parser and reasonJsonString = reasons_text
               and ?st1.0 = example_loaded] h1 h2
    by simp
qed

text \<open>
  Claim C9, as the spec states it: in every state \<open>getOrdinalDeparture(1)\<close> returns what
  \<open>getFirstDeparture()\<close> returns. For a parser configured with no departures,
  \<open>getFirstDeparture\<close> returns the sentinel and \<open>getOrdinalDeparture(1)\<close> fails with the range
  error.
\<close>

theorem first_departure_counterexample:
  "getFirstDeparture (new_TrainServiceParser 10 0 0 default_BasicServiceInfo default_AdditionalServiceInfo) = 999
   \<and> getOrdinalDeparture (new_TrainServiceParser 10 0 0 default_BasicServiceInfo default_AdditionalServiceInfo) 1
      = Inl (OutOfRange ''Ordinal service number out of range'')"
  by (simp add: getFirstDeparture_def getOrdinalDeparture_def new_TrainServiceParser_def safe_at_def)

text \<open>
  Claim C9, amended: in a parser whose departure list has the configured length (as the
  constructor makes it and every method keeps it), \<open>getOrdinalDeparture(1)\<close> returns what
  \<open>getFirstDeparture()\<close> returns whenever at least one departure is configured; for \<open>n = 0\<close>
  and for every \<open>n\<close> above the configured number of departures \<open>getOrdinalDeparture(n)\<close> fails
  with the range error; and after \<open>updateCache\<close> has ingested a snapshot with no service,
  every ordinal position from 1 to the configured number returns the sentinel 999.
\<close>

theorem ordinal_departures:
  "length (service_List st) = number_of_departures st \<Longrightarrow>
     (0 < number_of_departures st \<longrightarrow> getOrdinalDeparture st 1 = Inr (getFirstDeparture st))
     \<and> (n = 0 \<or> n > number_of_departures st \<longrightarrow>
          getOrdinalDeparture st n = Inl (OutOfRange ''Ordinal service number out of range''))
     \<and> (parse_json E jsonString = Some j \<and> service_count j = 0
          \<and> updateCache E now st jsonString version = (None, st') \<longrightarrow>
          (\<forall>k. 1 \<le> k \<and> k \<le> number_of_departures st' \<longrightarrow> getOrdinalDeparture st' k = Inr 999))"
proof -
  assume inv: "length (service_List st) = number_of_departures st"
  have third: "\<forall>k. 1 \<le> k \<and> k \<le> number_of_departures st' \<longrightarrow> getOrdinalDeparture st' k = Inr 999"
    if P: "parse_json E jsonString = Some j" and Z: "service_count j = 0"
      and U: "updateCache E now st jsonString version = (None, st')"
  proof -
    from U obtain s1 where pf: "prefetchCache E now st jsonString version = (None, s1)"
      and hy: "hydrateDepartureCache E s1 = (None, st')"
      by (auto elim: updateCache_success)
    from pf obtain j' m nv where j': "parse_json E jsonString = Some j'"
      and md: "prefetchMetaData j' st = (None, m)"
      and s1: "s1 = publish_snapshot E j' version m nv"
      by (auto elim!: prefetchCache_NoneE)
    from P j' have jj: "j' = j" by simp
    have n0: "number_of_services s1 = 0"
      using prefetchMetaData_fields(12) [OF md] Z jj by (simp add: s1 publish_snapshot_fields)
    have sl: "service_List s1 = replicate (number_of_departures st) 999"
      using prefetchMetaData_fields(1) [OF md] inv by (simp add: s1 publish_snapshot_fields)
    have nd: "number_of_departures s1 = number_of_departures st"
      using prefetchMetaData_fields(2) [OF md] by (simp add: s1 publish_snapshot_fields)
    from hy n0 have "st' = s1" by (simp add: hydrateDepartureCache_def)
    with sl nd show ?thesis
      by (auto simp: getOrdinalDeparture_def safe_at_def)
  qed
  show ?thesis
    using inv third
    by (auto simp: getOrdinalDeparture_def getFirstDeparture_def)
qed

theorem ordinal_departures_witness:
  "length (service_List example_loaded) = number_of_departures example_loaded
   \<and> 0 < number_of_departures example_loaded
   \<and> getOrdinalDeparture example_loaded 1 = Inr (getFirstDeparture example_loaded)
   \<and> 5 > number_of_departures example_loaded
   \<and> getOrdinalDeparture example_loaded 5 = Inl (OutOfRange ''Ordinal service number out of range'')
   \<and> parse_json example_env snapshot_empty_text = Some snapshot_empty_json
   \<and> service_count snapshot_empty_json = 0
   \<and> updateCache example_env 0 example_loaded snapshot_empty_text 1
       = (None, snd (updateCache example_env 0 example_loaded snapshot_empty_text 1))
   \<and> 2 \<le> number_of_departures (snd (updateCache example_env 0 example_loaded snapshot_empty_text 1))
   \<and> getOrdinalDeparture (snd (updateCache example_env 0 example_loaded snapshot_empty_text 1)) 2
       = Inr 999"
proof -
  have h1: "length (service_List example_loaded) = number_of_departures example_loaded"
    by code_simp
  have h2: "0 < number_of_departures example_loaded" "5 > number_of_departures example_loaded"
    by code_simp+
  have h3: "parse_json example_env snapshot_empty_text = Some snapshot_empty_json"
    by code_simp
  have h4: "service_count snapshot_empty_json = 0"
    by code_simp
  have "fst (updateCache example_env 0 example_loaded snapshot_empty_text 1) = None"
    by code_simp
  then have h5: "updateCache example_env 0 example_loaded snapshot_empty_text 1
       = (None, snd (updateCache example_env 0 example_loaded snapshot_empty_text 1))"
    by (simp add: prod_eq_iff)
  have h6: "2 \<le> number_of_departures (snd (updateCache example_env 0 example_loaded snapshot_empty_text 1))"
    by code_simp
  show ?thesis
    using ordinal_departures
            [OF h1, where n = 5 and E = example_env and jsonString = snapshot_empty_text
               and j = snapshot_empty_json and now = 0 and version = 1
               and st' = "snd (updateCache example_env 0 example_loaded snapshot_empty_text 1)"]
          h1 h2 h3 h4 h5 h6
    by simp
qed

section \<open>Hydration of the basic tier\<close>

lemma estimated_display_rule:
  "estimated_display etd_spec svc item = Inr est \<Longrightarrow>
     (etd_spec \<longrightarrow> (\<exists>t. extractJSONTimeString svc ''etd'' [] = Inr t
                      \<and> est = (if t = scheduledDepartureTime item then ''On Time'' else t)))
     \<and> (\<not> etd_spec \<longrightarrow> est = (if isCancelled item then ''Cancelled'' else ''On Time''))"
  by (cases "extractJSONTimeString svc ''etd'' []"; cases etd_spec)
     (auto simp: estimated_display_def)

lemma apply_departure_type_rule:
  "isDelayed (apply_departure_type etd_spec svc item)
     = (extractJSONvalue_string svc ''departureType'' [] = ''Delayed'')"
  "estimatedDepartureTime (apply_departure_type etd_spec svc item)
     = (if extractJSONvalue_string svc ''departureType'' [] = ''Delayed'' \<and> \<not> etd_spec
        then ''Delayed'' else estimatedDepartureTime item)"
  "scheduledDepartureTime (apply_departure_type etd_spec svc item) = scheduledDepartureTime item"
  "isCancelled (apply_departure_type etd_spec svc item) = isCancelled item"
  by (simp_all add: apply_departure_type_def Let_def)

lemma hydrate_basic_dynamic_rule:
  assumes "hydrate_basic_dynamic st service_index svc item = Inr b"
  shows "scheduledDepartureTime b = scheduledDepartureTime item"
    and "isCancelled b = extractJSONvalue_bool svc ''isCancelled'' False"
    and "isDelayed b = (extractJSONvalue_string svc ''departureType'' [] = ''Delayed'')"
    and "etd_specified (services_sequence st ! service_index) \<Longrightarrow>
           \<exists>t. extractJSONTimeString svc ''etd'' [] = Inr t
             \<and> estimatedDepartureTime b = (if t = scheduledDepartureTime item then ''On Time'' else t)"
    and "\<not> etd_specified (services_sequence st ! service_index) \<Longrightarrow>
           estimatedDepartureTime b =
             (if extractJSONvalue_string svc ''departureType'' [] = ''Delayed'' then ''Delayed''
              else if extractJSONvalue_bool svc ''isCancelled'' False then ''Cancelled''
              else ''On Time'')"
    and "apiDataVersion_basic b = api_data_version st"
proof -
  define etd_spec where "etd_spec = etd_specified (services_sequence st ! service_index)"
  obtain ctext dtext where dr: "decode_reasons st svc = Inr (ctext, dtext)"
    using assms by (cases "decode_reasons st svc") (auto simp: hydrate_basic_dynamic_def Let_def)
  define b2 where "b2 = item\<lparr>isCancelled := extractJSONvalue_bool svc ''isCancelled'' False,
      cancelReason := ctext, delayReason := dtext,
      adhocAlerts := extractJSONvalue_string svc ''adhocAlerts'' []\<rparr>"
  obtain est where ed: "estimated_display etd_spec svc b2 = Inr est"
    using assms dr
    by (cases "estimated_display etd_spec svc b2")
       (auto simp: hydrate_basic_dynamic_def Let_def b2_def etd_spec_def)
  have b: "b = (apply_departure_type etd_spec svc (b2\<lparr>estimatedDepartureTime := est\<rparr>))
                 \<lparr>apiDataVersion_basic := api_data_version st\<rparr>"
    using assms dr ed
    by (simp add: hydrate_basic_dynamic_def Let_def b2_def etd_spec_def)
  note r = estimated_display_rule [OF ed]
  show "scheduledDepartureTime b = scheduledDepartureTime item"
    by (simp add: b apply_departure_type_rule b2_def)
  show "isCancelled b = extractJSONvalue_bool svc ''isCancelled'' False"
    by (simp add: b apply_departure_type_rule b2_def)
  show "isDelayed b = (extractJSONvalue_string svc ''departureType'' [] = ''Delayed'')"
    by (simp add: b apply_departure_type_rule)
  show "apiDataVersion_basic b = api_data_version st"
    by (simp add: b)
  show "\<exists>t. extractJSONTimeString svc ''etd'' [] = Inr t
             \<and> estimatedDepartureTime b = (if t = scheduledDepartureTime item then ''On Time'' else t)"
    if "etd_specified (services_sequence st ! service_index)"
    using that r by (auto simp: b apply_departure_type_rule etd_spec_def b2_def)
  show "estimatedDepartureTime b =
             (if extractJSONvalue_string svc ''departureType'' [] = ''Delayed'' then ''Delayed''
              else if extractJSONvalue_bool svc ''isCancelled'' False then ''Cancelled''
              else ''On Time'')"
    if "\<not> etd_specified (services_sequence st ! service_index)"
    using that r by (auto simp: b apply_departure_type_rule etd_spec_def b2_def)
qed

lemma decode_additions:
  "decodeCancelCode (st\<lparr>services_additions := x\<rparr>) c = decodeCancelCode st c"
  "decodeDelayCode (st\<lparr>services_additions := x\<rparr>) c = decodeDelayCode st c"
  by (simp_all add: decodeCancelCode_def decodeDelayCode_def cong: option.case_cong)

lemma decode_reasons_additions:
  "decode_reasons (st\<lparr>services_additions := x\<rparr>) svc = decode_reasons st svc"
  by (simp add: decode_reasons_def decode_additions cong: sum.case_cong)

lemma hydrate_basic_dynamic_additions:
  "hydrate_basic_dynamic (st\<lparr>services_additions := x\<rparr>) service_index svc item
     = hydrate_basic_dynamic st service_index svc item"
  by (simp add: hydrate_basic_dynamic_def decode_reasons_additions Let_def
           cong: sum.case_cong prod.case_cong)

lemma basic_dynamic_step_additions:
  "basic_dynamic_step (st\<lparr>services_additions := x\<rparr>) service_index svc item
     = basic_dynamic_step st service_index svc item"
  by (simp add: basic_dynamic_step_def hydrate_basic_dynamic_additions)

lemma hydrateBasicDataCacheInternal_NoneE:
  assumes "hydrateBasicDataCacheInternal E st service_index = (None, st')"
  obtains svc item item' where
    "trainService_at (data st) service_index = Inr svc"
    "service_index < max_json_size st" "service_index < number_of_services st"
    "basic_static_step E st service_index svc
       ((uninitialised_BasicServiceInfo (uninit_basic E service_index))
          \<lparr>trainid_basic := extractJSONvalue_string svc ''trainid'' []\<rparr>) = Inr item"
    "basic_dynamic_step st service_index svc item = Inr item'"
    "services_basic st' = (services_basic st)[service_index := item']"
  using assms
  unfolding hydrateBasicDataCacheInternal_def Let_def
  by (auto split: sum.splits if_splits simp: basic_dynamic_step_additions)

lemma basic_static_step_stamp:
  "basic_static_step E st service_index svc
       ((uninitialised_BasicServiceInfo junk)\<lparr>trainid_basic := t\<rparr>) = Inr item \<Longrightarrow>
   apiDataVersion_basic item =
     apiDataVersion_basic (if static_data_available_basic (services_basic st ! service_index)
                           then services_basic st ! service_index else junk)"
  by (auto simp: basic_static_step_def hydrate_basic_static_def uninitialised_BasicServiceInfo_def
           Let_def split: if_splits sum.splits)

text \<open>
  The display rule for a hydration that recomputes the dynamic subset, that is, when the
  stamp the subset is judged by differs from the snapshot version: the estimated display
  is \<open>On Time\<close> when an estimate is specified and its display string equals the scheduled
  one; with no estimate it is \<open>Cancelled\<close> if the cancelled flag is set and \<open>On Time\<close>
  otherwise, unless the departure type is \<open>Delayed\<close>; a departure type \<open>Delayed\<close> sets the
  delayed flag and, with no estimate, overrides the display to \<open>Delayed\<close>; any other
  departure type clears the delayed flag. For a service whose static subset is not cached
  the stamp judged is that of the local \<^verbatim>\<open>new_basic_item\<close>, which nothing has initialised.
\<close>

lemma estimated_time_display_rule:
  assumes "hydrateBasicDataCacheInternal E st service_index = (None, st')"
    and "service_index < length (services_basic st)"
    and "apiDataVersion_basic
           (if static_data_available_basic (services_basic st ! service_index)
            then services_basic st ! service_index else uninit_basic E service_index)
         \<noteq> api_data_version st"
  shows "\<exists>svc. trainService_at (data st) service_index = Inr svc \<and>
     (let b = services_basic st' ! service_index;
          etd_spec = etd_specified (services_sequence st ! service_index);
          delayed = (extractJSONvalue_string svc ''departureType'' [] = ''Delayed'')
      in isCancelled b = extractJSONvalue_bool svc ''isCancelled'' False
         \<and> (etd_spec \<and> extractJSONTimeString svc ''etd'' [] = Inr (scheduledDepartureTime b)
                \<longrightarrow> estimatedDepartureTime b = ''On Time'')
         \<and> (\<not> etd_spec \<and> \<not> delayed
                \<longrightarrow> estimatedDepartureTime b = (if isCancelled b then ''Cancelled'' else ''On Time''))
         \<and> (delayed \<longrightarrow> isDelayed b \<and> (\<not> etd_spec \<longrightarrow> estimatedDepartureTime b = ''Delayed''))
         \<and> (\<not> delayed \<longrightarrow> \<not> isDelayed b))"
proof -
  from assms(1) obtain svc item item' where
    sv: "trainService_at (data st) service_index = Inr svc"
    and stc: "basic_static_step E st service_index svc
       ((uninitialised_BasicServiceInfo (uninit_basic E service_index))
          \<lparr>trainid_basic := extractJSONvalue_string svc ''trainid'' []\<rparr>) = Inr item"
    and dyn: "basic_dynamic_step st service_index svc item = Inr item'"
    and sb: "services_basic st' = (services_basic st)[service_index := item']"
    by (rule hydrateBasicDataCacheInternal_NoneE)
  from basic_static_step_stamp [OF stc] assms(3)
  have "apiDataVersion_basic item \<noteq> api_data_version st" by simp
  with dyn have hd: "hydrate_basic_dynamic st service_index svc item = Inr item'"
    by (simp add: basic_dynamic_step_def)
  have b: "services_basic st' ! service_index = item'"
    using sb assms(2) by simp
  note r = hydrate_basic_dynamic_rule [OF hd]
  show ?thesis
    using sv r by (auto simp: b Let_def)
qed

lemma estimated_time_display_rule_example:
  "(let st = example_prefetched snapshot_etd_text;
        st' = snd (hydrateBasicDataCacheInternal example_env st 0);
        st'' = snd (hydrateBasicDataCacheInternal example_env st 1)
    in hydrateBasicDataCacheInternal example_env st 0 = (None, st')
       \<and> hydrateBasicDataCacheInternal example_env st 1 = (None, st'')
       \<and> 1 < length (services_basic st)
       \<and> apiDataVersion_basic (uninit_basic example_env 0) \<noteq> api_data_version st
       \<and> \<not> static_data_available_basic (services_basic st ! 0)
       \<and> \<not> static_data_available_basic (services_basic st ! 1)
       \<and> etd_specified (services_sequence st ! 0)
       \<and> \<not> etd_specified (services_sequence st ! 1)
       \<and> estimatedDepartureTime (services_basic st' ! 0) = ''On Time''
       \<and> \<not> isDelayed (services_basic st' ! 0)
       \<and> isCancelled (services_basic st'' ! 1)
       \<and> estimatedDepartureTime (services_basic st'' ! 1) = ''Cancelled'')
   \<and> (let st = example_prefetched snapshot_two_text;
            st' = snd (hydrateBasicDataCacheInternal example_env st 1)
        in hydrateBasicDataCacheInternal example_env st 1 = (None, st')
           \<and> \<not> etd_specified (services_sequence st ! 1)
           \<and> isDelayed (services_basic st' ! 1)
           \<and> estimatedDepartureTime (services_basic st' ! 1) = ''Delayed'')"
proof -
  define P where "P = JObj [(''trainid'', JStr ''P''), (''stdSpecified'', JBool True),
                        (''std'', JStr ''2025-01-01T10:00:00''),
                        (''etdSpecified'', JBool True),
                        (''etd'', JStr ''2025-01-01T10:00:00'')]"
  define Q where "Q = JObj [(''trainid'', JStr ''Q''), (''stdSpecified'', JBool True),
                        (''std'', JStr ''2025-01-01T10:00:00''),
                        (''isCancelled'', JBool True)]"
  define Y where "Y = JObj [(''trainid'', JStr ''Y''), (''stdSpecified'', JBool True),
                        (''std'', JStr ''2025-01-01T10:00:00''),
                        (''departureType'', JStr ''Delayed'')]"
  define s1 where "s1 = example_prefetched snapshot_etd_text"
  define s2 where "s2 = example_prefetched snapshot_two_text"
  define a where "a = snd (hydrateBasicDataCacheInternal example_env s1 0)"
  define b where "b = snd (hydrateBasicDataCacheInternal example_env s1 1)"
  define c where "c = snd (hydrateBasicDataCacheInternal example_env s2 1)"
  have "fst (hydrateBasicDataCacheInternal example_env s1 0) = None"
    "fst (hydrateBasicDataCacheInternal example_env s1 1) = None"
    "fst (hydrateBasicDataCacheInternal example_env s2 1) = None"
    unfolding s1_def s2_def by code_simp+
  then have ok: "hydrateBasicDataCacheInternal example_env s1 0 = (None, a)"
    "hydrateBasicDataCacheInternal example_env s1 1 = (None, b)"
    "hydrateBasicDataCacheInternal example_env s2 1 = (None, c)"
    by (simp_all add: prod_eq_iff a_def b_def c_def)
  have len: "0 < length (services_basic s1)" "1 < length (services_basic s1)"
    "1 < length (services_basic s2)"
    unfolding s1_def s2_def by code_simp+
  have nst: "\<not> static_data_available_basic (services_basic s1 ! 0)"
    "\<not> static_data_available_basic (services_basic s1 ! 1)"
    "\<not> static_data_available_basic (services_basic s2 ! 1)"
    unfolding s1_def s2_def by code_simp+
  have junk: "apiDataVersion_basic (uninit_basic example_env 0) \<noteq> api_data_version s1"
    "apiDataVersion_basic (uninit_basic example_env 1) \<noteq> api_data_version s1"
    "apiDataVersion_basic (uninit_basic example_env 1) \<noteq> api_data_version s2"
    unfolding s1_def s2_def by code_simp+
  have svc: "trainService_at (data s1) 0 = Inr P" "trainService_at (data s1) 1 = Inr Q"
    "trainService_at (data s2) 1 = Inr Y"
    unfolding s1_def s2_def P_def Q_def Y_def by code_simp+
  have etd: "etd_specified (services_sequence s1 ! 0)" "\<not> etd_specified (services_sequence s1 ! 1)"
    "\<not> etd_specified (services_sequence s2 ! 1)"
    unfolding s1_def s2_def by code_simp+
  have feed: "extractJSONTimeString P ''etd'' [] = Inr (scheduledDepartureTime (services_basic a ! 0))"
    "extractJSONvalue_string P ''departureType'' [] \<noteq> ''Delayed''"
    "extractJSONvalue_string Q ''departureType'' [] \<noteq> ''Delayed''"
    "extractJSONvalue_bool Q ''isCancelled'' False"
    "extractJSONvalue_string Y ''departureType'' [] = ''Delayed''"
    unfolding a_def s1_def P_def Q_def Y_def by code_simp+
  have r1: "estimatedDepartureTime (services_basic a ! 0) = ''On Time''
            \<and> \<not> isDelayed (services_basic a ! 0)"
    using estimated_time_display_rule [OF ok(1) len(1)] nst(1) junk(1) svc(1) etd(1) feed(1,2)
    by (auto simp: Let_def)
  have r2: "isCancelled (services_basic b ! 1)
            \<and> estimatedDepartureTime (services_basic b ! 1) = ''Cancelled''"
    using estimated_time_display_rule [OF ok(2) len(2)] nst(2) junk(2) svc(2) etd(2) feed(3,4)
    by (auto simp: Let_def)
  have r3: "isDelayed (services_basic c ! 1)
            \<and> estimatedDepartureTime (services_basic c ! 1) = ''Delayed''"
    using estimated_time_display_rule [OF ok(3) len(3)] nst(3) junk(3) svc(3) etd(3) feed(5)
    by (auto simp: Let_def)
  show ?thesis
    using ok len nst junk etd r1 r2 r3
    by (simp add: Let_def s1_def [symmetric] s2_def [symmetric] a_def [symmetric]
          b_def [symmetric] c_def [symmetric])
qed

text \<open>
  Claim C4: every service hydrated into the basic tier gets its estimated display and its
  delayed flag by the display rule. \<^verbatim>\<open>hydrateBasicDataCacheInternal\<close> declares
  \<^verbatim>\<open>BasicServiceInfo new_basic_item;\<close> without an initialiser and, for a service whose static
  subset is not cached, fills in the static subset and then tests
  \<^verbatim>\<open>new_basic_item.apiDataVersion != api_data_version\<close> on the stamp nothing has written. When
  the memory of the local holds what an earlier call under the same version left there,
  the stamp equals the version and the dynamic subset is skipped. Below, the snapshot of
  the services X, Y and Z is ingested under version 5; X is hydrated first, and the
  hydration of Y finds the stamp 5. The feed gives Y the departure type \<open>Delayed\<close> and no
  estimate, so the rule asks for the delayed flag and the display \<open>Delayed\<close>; the record of
  Y is stored as complete and fresh with an empty display and the delayed flag false.
\<close>

theorem estimated_display_skipped_on_uninitialised_stamp:
  "(let st = snd (updateCache example_env_reused_stack 0 example_loaded snapshot_two_text 5)
    in fst (updateCache example_env_reused_stack 0 example_loaded snapshot_two_text 5) = None
       \<and> service_List st = [0, 1]
       \<and> trainService_at (data st) 1
           = Inr (JObj [(''trainid'', JStr ''Y''), (''stdSpecified'', JBool True),
                        (''std'', JStr ''2025-01-01T10:00:00''),
                        (''departureType'', JStr ''Delayed'')])
       \<and> \<not> etd_specified (services_sequence st ! 1)
       \<and> estimatedDepartureTime (services_basic st ! 0) = ''On Time''
       \<and> trainid_basic (services_basic st ! 1) = ''Y''
       \<and> static_data_available_basic (services_basic st ! 1)
       \<and> scheduledDepartureTime (services_basic st ! 1) = ''10:00''
       \<and> apiDataVersion_basic (services_basic st ! 1) = api_data_version st
       \<and> estimatedDepartureTime (services_basic st ! 1) = []
       \<and> \<not> isDelayed (services_basic st ! 1))"
  by code_simp

section \<open>Identity migration and reason codes on feeds with repeated keys\<close>

text \<open>
  Claim C3: a train identifier of the previous snapshot that appears again gets its own
  Basic and Additional tiers back at its new index. The first snapshot below holds the
  train identifiers 0B00, 0B00 and 1A23 (indices 0, 1, 2). The identity map records for each
  identifier the size of the map before the write, not the index of the service, so it
  ends as 0B00 at 1 and 1A23 at 1. The second snapshot holds 1A23 alone: its tiers at the new
  index 0 are those of the old index 1, which belong to the second 0B00 service and not to
  1A23. After \<open>updateCache\<close> the basic tier of the service 1A23 to City is fresh and complete
  with train id 0B00 and destination Town B, which is what the accessor hands out.
\<close>

theorem identity_migration_index_slip:
  "(let st1 = snd (updateCache example_env 0 example_loaded snapshot_bus_text 5);
        st2 = snd (prefetchCache example_env 0 st1 snapshot_after_text 6);
        st3 = snd (updateCache example_env 0 st1 snapshot_after_text 6)
    in fst (updateCache example_env 0 example_loaded snapshot_bus_text 5) = None
       \<and> fst (prefetchCache example_env 0 st1 snapshot_after_text 6) = None
       \<and> fst (updateCache example_env 0 st1 snapshot_after_text 6) = None
       \<and> map trainid_seq (services_sequence st1) = [''0B00'', ''0B00'', ''1A23'']
       \<and> cached_trainIDs st1 = [(''0B00'', 1), (''1A23'', 1)]
       \<and> trainid_seq (services_sequence st2 ! 0) = ''1A23''
       \<and> services_basic st2 ! 0 = services_basic st1 ! 1
       \<and> services_basic st2 ! 0 \<noteq> services_basic st1 ! 2
       \<and> services_additions st2 ! 0 \<noteq> services_additions st1 ! 2
       \<and> trainid_basic (services_basic st2 ! 0) = ''0B00''
       \<and> destination (services_basic st2 ! 0) = ''Town B''
       \<and> trainid_basic (services_basic st1 ! 2) = ''1A23''
       \<and> trainid_seq (services_sequence st3 ! 0) = ''1A23''
       \<and> trainid_basic (services_basic st3 ! 0) = ''0B00''
       \<and> destination (services_basic st3 ! 0) = ''Town B''
       \<and> static_data_available_basic (services_basic st3 ! 0)
       \<and> apiDataVersion_basic (services_basic st3 ! 0) = api_data_version st3)"
  by code_simp

text \<open>
  Claim C10: a code whose record has no \<open>lateReason\<close> decodes to \<open>No Reason\<close>. The feed below
  holds the code 5 twice and then the code 7 without a \<open>lateReason\<close>. The default text is
  stored for code 7, in the third entry of the table, but the index recorded for the code
  is the size of the code map before the write, which is 1 after the repeated code 5:
  \<open>decodeDelayCode 7\<close> returns the delay reason \<open>B\<close> of the second record.
\<close>

theorem reason_code_index_slip:
  "(let st = snd (loadReasonCodes example_env example_parser reasons_dup_text)
    in fst (loadReasonCodes example_env example_parser reasons_dup_text) = None
       \<and> reason_codes st = [(''5'', 1), (''7'', 1)]
       \<and> map code (delay_cancel_reasons st) = [''5'', ''5'', ''7'']
       \<and> map delayReason_ref (delay_cancel_reasons st) = [''A'', ''B'', ''No Reason'']
       \<and> decodeDelayCode st 7 = Inr ''B'')"
  by code_simp

section \<open>Identity migration when the identifiers are distinct\<close>

text \<open>
  The loop of \<^verbatim>\<open>prefetchCache\<close> leaves at index \<open>k\<close> of the fresh vectors what \<open>migrated_at\<close>
  says, and writes the identity map as \<open>record_ids\<close> does. When the identifiers of a snapshot
  are distinct, the map agrees with the sequence (\<open>identity_map_ok\<close>), and the next
  \<^verbatim>\<open>prefetchCache\<close> gives a service that was already there its own Basic and Additional
  tiers, and its CallingPoints tier with both cached flags false; a service that was not
  there gets tiers with every flag false.
\<close>

lemma vec_at_Inr: "vec_at xs i = Inr x \<longleftrightarrow> i < length xs \<and> x = xs ! i"
  by (auto simp: vec_at_def)

lemma prefetch_step_effect:
  assumes step: "prefetch_step E now j v st i nv = Inr nv'"
    and sz: "new_vectors_sizes m nv" and im: "i < m"
  shows "new_vectors_sizes m nv'"
    and "migrated_at E now j v st nv nv' i"
    and "\<And>k. k \<noteq> i \<Longrightarrow>
           new_services_sequence nv' ! k = new_services_sequence nv ! k
           \<and> new_services_basic nv' ! k = new_services_basic nv ! k
           \<and> new_services_additions nv' ! k = new_services_additions nv ! k
           \<and> new_services_callingpoints nv' ! k = new_services_callingpoints nv ! k"
    and "new_cached_trainIDs nv' =
           AList.update (trainid_seq (new_services_sequence nv' ! i))
             (length (new_cached_trainIDs nv)) (new_cached_trainIDs nv)"
proof -
  from step obtain svc where sv: "trainService_at j i = Inr svc"
    by (cases "trainService_at j i") (auto simp: prefetch_step_def)
  define s where "s = sequence_of_service E now svc v (new_services_sequence nv ! i)"
  define ids where "ids = AList.update (trainid_seq s) (length (new_cached_trainIDs nv)) (new_cached_trainIDs nv)"
  from sz im have li: "i < length (new_services_sequence nv)" "i < length (new_services_basic nv)"
    "i < length (new_services_additions nv)" "i < length (new_services_callingpoints nv)"
    by (simp_all add: new_vectors_sizes_def)
  have all: "new_vectors_sizes m nv' \<and> migrated_at E now j v st nv nv' i \<and>
      (\<forall>k. k \<noteq> i \<longrightarrow>
           new_services_sequence nv' ! k = new_services_sequence nv ! k
           \<and> new_services_basic nv' ! k = new_services_basic nv ! k
           \<and> new_services_additions nv' ! k = new_services_additions nv ! k
           \<and> new_services_callingpoints nv' ! k = new_services_callingpoints nv ! k) \<and>
      new_cached_trainIDs nv' =
           AList.update (trainid_seq (new_services_sequence nv' ! i))
             (length (new_cached_trainIDs nv)) (new_cached_trainIDs nv)"
  proof (cases "map_of (cached_trainIDs st) (trainid_seq s)")
    case None
    with step sv have nv': "nv' = nv\<lparr>new_services_sequence := (new_services_sequence nv)[i := s],
        new_services_basic := (new_services_basic nv)
                             [i := (new_services_basic nv ! i)
                                     \<lparr>static_data_available_basic := False,
                                      trainid_basic := trainid_seq s\<rparr>],
        new_services_additions := (new_services_additions nv)
                             [i := (new_services_additions nv ! i)
                                     \<lparr>static_data_available_add := False,
                                      trainid_add := trainid_seq s\<rparr>],
        new_services_callingpoints := (new_services_callingpoints nv)
                             [i := (new_services_callingpoints nv ! i)
                                     \<lparr>callingPointsCached := False,
                                      service_location_cached := False,
                                      trainid_cp := trainid_seq s\<rparr>],
        new_cached_trainIDs := ids\<rparr>"
      by (simp add: prefetch_step_def Let_def s_def ids_def)
    show ?thesis
      using sz li sv None
      by (simp add: nv' new_vectors_sizes_def migrated_at_def Let_def s_def [symmetric] ids_def)
  next
    case (Some ex)
    from step sv Some obtain b a c where
      v: "vec_at (services_basic st) ex = Inr b" "vec_at (services_additions st) ex = Inr a"
        "vec_at (services_callingpoints st) ex = Inr c"
      by (cases "vec_at (services_basic st) ex"; cases "vec_at (services_additions st) ex";
          cases "vec_at (services_callingpoints st) ex")
         (auto simp: prefetch_step_def Let_def s_def)
    with step sv Some have nv': "nv' = nv\<lparr>new_services_sequence := (new_services_sequence nv)[i := s],
        new_services_basic := (new_services_basic nv)[i := b],
        new_services_additions := (new_services_additions nv)[i := a],
        new_services_callingpoints := (new_services_callingpoints nv)
           [i := c\<lparr>callingPointsCached := False, service_location_cached := False\<rparr>],
        new_cached_trainIDs := ids\<rparr>"
      by (simp add: prefetch_step_def Let_def s_def ids_def)
    show ?thesis
      using sz li sv Some v
      by (simp add: nv' new_vectors_sizes_def migrated_at_def Let_def s_def [symmetric] ids_def
            vec_at_Inr)
  qed
  from all show "new_vectors_sizes m nv'" by simp
  from all show "migrated_at E now j v st nv nv' i" by simp
  from all show "\<And>k. k \<noteq> i \<Longrightarrow>
           new_services_sequence nv' ! k = new_services_sequence nv ! k
           \<and> new_services_basic nv' ! k = new_services_basic nv ! k
           \<and> new_services_additions nv' ! k = new_services_additions nv ! k
           \<and> new_services_callingpoints nv' ! k = new_services_callingpoints nv ! k" by blast
  from all show "new_cached_trainIDs nv' =
           AList.update (trainid_seq (new_services_sequence nv' ! i))
             (length (new_cached_trainIDs nv)) (new_cached_trainIDs nv)" by simp
qed

lemma migrated_at_cong:
  assumes "new_services_sequence nv0 ! k = new_services_sequence nv0' ! k"
    "new_services_basic nv0 ! k = new_services_basic nv0' ! k"
    "new_services_additions nv0 ! k = new_services_additions nv0' ! k"
    "new_services_callingpoints nv0 ! k = new_services_callingpoints nv0' ! k"
    "new_services_sequence nv ! k = new_services_sequence nv' ! k"
    "new_services_basic nv ! k = new_services_basic nv' ! k"
    "new_services_additions nv ! k = new_services_additions nv' ! k"
    "new_services_callingpoints nv ! k = new_services_callingpoints nv' ! k"
  shows "migrated_at E now j v st nv0 nv k = migrated_at E now j v st nv0' nv' k"
  unfolding migrated_at_def assms by (rule refl)

lemma prefetch_loop_effect:
  assumes "prefetch_loop E now j v st i nv = Inr nv'"
    and "new_vectors_sizes m nv" and "number_of_services st \<le> m"
  shows "new_vectors_sizes m nv'
     \<and> (\<forall>k. i \<le> k \<and> k < number_of_services st \<longrightarrow> migrated_at E now j v st nv nv' k)
     \<and> (\<forall>k. k < i \<longrightarrow>
           new_services_sequence nv' ! k = new_services_sequence nv ! k
           \<and> new_services_basic nv' ! k = new_services_basic nv ! k
           \<and> new_services_additions nv' ! k = new_services_additions nv ! k
           \<and> new_services_callingpoints nv' ! k = new_services_callingpoints nv ! k)
     \<and> new_cached_trainIDs nv' =
           record_ids (map (\<lambda>k. trainid_seq (new_services_sequence nv' ! k))
                           [i..<number_of_services st])
                      (new_cached_trainIDs nv)"
  using assms
proof (induction E now j v st i nv rule: prefetch_loop.induct)
  case (1 E now new_data version st i nv)
  let ?n = "number_of_services st"
  show ?case
  proof (cases "i < ?n")
    case False
    with "1.prems"(1) have "nv' = nv"
      by (simp add: prefetch_loop.simps [of E now new_data version st i nv])
    with False "1.prems"(2) show ?thesis by auto
  next
    case True
    from True "1.prems"(1) obtain nv1 where
      step: "prefetch_step E now new_data version st i nv = Inr nv1"
      and rest: "prefetch_loop E now new_data version st (i + 1) nv1 = Inr nv'"
      by (cases "prefetch_step E now new_data version st i nv")
         (auto simp: prefetch_loop.simps [of E now new_data version st i nv])
    from True "1.prems"(3) have im: "i < m" by simp
    note se = prefetch_step_effect [OF step "1.prems"(2) im]
    note IH = "1.IH" [OF True step rest se(1) "1.prems"(3)]
    have keep: "new_services_sequence nv' ! k = new_services_sequence nv1 ! k
           \<and> new_services_basic nv' ! k = new_services_basic nv1 ! k
           \<and> new_services_additions nv' ! k = new_services_additions nv1 ! k
           \<and> new_services_callingpoints nv' ! k = new_services_callingpoints nv1 ! k"
      if "k < i + 1" for k
      using IH that by blast
    have A: "new_vectors_sizes m nv'" using IH by simp
    have B: "migrated_at E now new_data version st nv nv' k" if k: "i \<le> k" "k < ?n" for k
    proof (cases "k = i")
      case True
      have "migrated_at E now new_data version st nv nv' i
            = migrated_at E now new_data version st nv nv1 i"
        using keep [of i] by (intro migrated_at_cong) simp_all
      with se(2) True show ?thesis by simp
    next
      case False
      with k have k1: "i + 1 \<le> k" by simp
      with IH k have m1: "migrated_at E now new_data version st nv1 nv' k" by blast
      have "migrated_at E now new_data version st nv1 nv' k
            = migrated_at E now new_data version st nv nv' k"
        using se(3) [OF False] by (intro migrated_at_cong) simp_all
      with m1 show ?thesis by simp
    qed
    have C: "new_services_sequence nv' ! k = new_services_sequence nv ! k
           \<and> new_services_basic nv' ! k = new_services_basic nv ! k
           \<and> new_services_additions nv' ! k = new_services_additions nv ! k
           \<and> new_services_callingpoints nv' ! k = new_services_callingpoints nv ! k"
      if "k < i" for k
    proof -
      from that have "k \<noteq> i" "k < i + 1" by simp_all
      with se(3) [of k] keep [of k] show ?thesis by simp
    qed
    have D: "new_cached_trainIDs nv' =
           record_ids (map (\<lambda>k. trainid_seq (new_services_sequence nv' ! k)) [i..<?n])
                      (new_cached_trainIDs nv)"
    proof -
      from IH have "new_cached_trainIDs nv' =
           record_ids (map (\<lambda>k. trainid_seq (new_services_sequence nv' ! k)) [i + 1..<?n])
                      (new_cached_trainIDs nv1)" by simp
      moreover have "new_services_sequence nv1 ! i = new_services_sequence nv' ! i"
        using keep [of i] by simp
      ultimately show ?thesis
        using True se(4) by (simp add: upt_conv_Cons)
    qed
    from A B C D show ?thesis by blast
  qed
qed

lemma update_fresh: "k \<notin> fst ` set al \<Longrightarrow> AList.update k v al = al @ [(k, v)]"
  by (induction al) auto

lemma record_ids_fresh:
  "distinct ts \<Longrightarrow> set ts \<inter> fst ` set ids = {} \<Longrightarrow>
   record_ids ts ids = ids @ zip ts [length ids..<length ids + length ts]"
proof (induction ts arbitrary: ids)
  case Nil
  then show ?case by simp
next
  case (Cons t ts)
  from Cons.prems have fresh: "t \<notin> fst ` set ids" by auto
  let ?ids = "ids @ [(t, length ids)]"
  from Cons.prems have "distinct ts" "set ts \<inter> fst ` set ?ids = {}" by auto
  from Cons.IH [OF this]
  have "record_ids ts ?ids = ?ids @ zip ts [length ?ids..<length ?ids + length ts]" .
  moreover have "[length ids..<length ids + length (t # ts)]
                 = length ids # [length ?ids..<length ?ids + length ts]"
    by (subst upt_rec) (simp del: upt_Suc)
  ultimately show ?case
    by (simp only: record_ids.simps update_fresh [OF fresh] zip_Cons_Cons append_assoc append_Cons
                   append_Nil)
qed

lemma record_ids_identity:
  assumes "distinct ts"
  shows "map_of (record_ids ts []) t = Some k \<longleftrightarrow> k < length ts \<and> ts ! k = t"
proof -
  have r: "record_ids ts [] = zip ts [0..<length ts]"
    using record_ids_fresh [OF assms, of "[]"] by simp
  show ?thesis
  proof
    assume "map_of (record_ids ts []) t = Some k"
    then have "(t, k) \<in> set (zip ts [0..<length ts])"
      unfolding r by (rule map_of_SomeD)
    then show "k < length ts \<and> ts ! k = t"
      by (auto simp: set_zip)
  next
    assume a: "k < length ts \<and> ts ! k = t"
    have "map_of (zip ts [0..<length ts]) (ts ! k) = Some ([0..<length ts] ! k)"
      using assms a by (intro map_of_zip_nth) simp_all
    with a show "map_of (record_ids ts []) t = Some k" unfolding r by simp
  qed
qed

lemma new_vectors_sizes_initial: "new_vectors_sizes m (initial_new_vectors m)"
  by (simp add: new_vectors_sizes_def initial_new_vectors_def)

lemma prefetchCache_effect:
  assumes "prefetchCache E now st jsonString version = (None, st')"
  obtains j st1 nv where "parse_json E jsonString = Some j"
    and "prefetchMetaData j st = (None, st1)"
    and "st' = publish_snapshot E j version st1 nv"
    and "number_of_services st' \<le> max_json_size st"
    and "new_vectors_sizes (max_json_size st) nv"
    and "\<And>k. k < number_of_services st' \<Longrightarrow>
           migrated_at E now j version st1 (initial_new_vectors (max_json_size st)) nv k"
    and "cached_trainIDs st' =
           record_ids (map (\<lambda>k. trainid_seq (services_sequence st' ! k))
                           [0..<number_of_services st']) []"
proof -
  from assms obtain j st1 nv where p: "parse_json E jsonString = Some j"
    and m: "prefetchMetaData j st = (None, st1)"
    and l: "prefetch_loop E now j version st1 0 (initial_new_vectors (max_json_size st1)) = Inr nv"
    and s: "st' = publish_snapshot E j version st1 nv"
    by (rule prefetchCache_NoneE)
  note mf = prefetchMetaData_fields [OF m]
  have n: "number_of_services st1 \<le> max_json_size st1" by (simp add: mf)
  note le = prefetch_loop_effect [OF l new_vectors_sizes_initial n]
  have ns: "number_of_services st' = number_of_services st1"
    by (simp add: s publish_snapshot_fields)
  show ?thesis
  proof (rule that [OF p m s])
    show "number_of_services st' \<le> max_json_size st" using n by (simp add: ns mf)
    show "new_vectors_sizes (max_json_size st) nv" using le by (simp add: mf)
    show "migrated_at E now j version st1 (initial_new_vectors (max_json_size st)) nv k"
      if "k < number_of_services st'" for k
      using le that by (simp add: ns mf)
    show "cached_trainIDs st' =
           record_ids (map (\<lambda>k. trainid_seq (services_sequence st' ! k))
                           [0..<number_of_services st']) []"
      using le by (simp add: ns s publish_snapshot_fields initial_new_vectors_def)
  qed
qed

lemma prefetchCache_identity_map:
  assumes "prefetchCache E now st jsonString version = (None, st')"
    and "distinct (map (\<lambda>k. trainid_seq (services_sequence st' ! k))
                       [0..<number_of_services st'])"
  shows "identity_map_ok st'"
proof -
  let ?ts = "map (\<lambda>k. trainid_seq (services_sequence st' ! k)) [0..<number_of_services st']"
  from assms(1) have c: "cached_trainIDs st' = record_ids ?ts []"
    by (rule prefetchCache_effect)
  have "map_of (cached_trainIDs st') t = Some k
        \<longleftrightarrow> k < number_of_services st' \<and> trainid_seq (services_sequence st' ! k) = t" for t k
    unfolding c record_ids_identity [OF assms(2)] by auto
  then show ?thesis unfolding identity_map_ok_def by blast
qed

lemma hydrateDepartureCache_identity_map:
  assumes "hydrateDepartureCache E st = (r, st')"
  shows "identity_map_ok st' = identity_map_ok st"
proof -
  note sh = hydrateDepartureCache_shape [OF assms]
  let ?u = "st'\<lparr>services_basic := services_basic st, services_additions := services_additions st,
               service_List := service_List st\<rparr>"
  have "identity_map_ok st' = identity_map_ok ?u" by (simp add: identity_map_ok_def)
  then show ?thesis by (simp only: sh)
qed

lemma updateCache_identity_map:
  assumes "updateCache E now st jsonString version = (None, st')"
    and "distinct (map (\<lambda>k. trainid_seq (services_sequence st' ! k))
                       [0..<number_of_services st'])"
  shows "identity_map_ok st'"
proof -
  from assms(1) obtain st1 where p: "prefetchCache E now st jsonString version = (None, st1)"
    and h: "hydrateDepartureCache E st1 = (None, st')"
    by (rule updateCache_success)
  note sh = hydrateDepartureCache_shape [OF h]
  let ?u = "st'\<lparr>services_basic := services_basic st1, services_additions := services_additions st1,
               service_List := service_List st1\<rparr>"
  have "services_sequence st' = services_sequence ?u" "number_of_services st' = number_of_services ?u"
    by simp_all
  then have "services_sequence st' = services_sequence st1" "number_of_services st' = number_of_services st1"
    by (simp_all only: sh)
  with assms(2) have "identity_map_ok st1"
    by (intro prefetchCache_identity_map [OF p]) simp
  then show ?thesis by (simp add: hydrateDepartureCache_identity_map [OF h])
qed

lemma migrated_atE:
  assumes "migrated_at E now j v st nv0 nv k"
  obtains (known) ex where
      "map_of (cached_trainIDs st) (trainid_seq (new_services_sequence nv ! k)) = Some ex"
      "new_services_basic nv ! k = services_basic st ! ex"
      "new_services_additions nv ! k = services_additions st ! ex"
      "new_services_callingpoints nv ! k =
         (services_callingpoints st ! ex)
           \<lparr>callingPointsCached := False, service_location_cached := False\<rparr>"
  | (fresh)
      "map_of (cached_trainIDs st) (trainid_seq (new_services_sequence nv ! k)) = None"
      "\<not> static_data_available_basic (new_services_basic nv ! k)"
      "\<not> static_data_available_add (new_services_additions nv ! k)"
      "\<not> callingPointsCached (new_services_callingpoints nv ! k)"
      "\<not> service_location_cached (new_services_callingpoints nv ! k)"
proof (cases "map_of (cached_trainIDs st) (trainid_seq (new_services_sequence nv ! k))")
  case None
  with assms show ?thesis
    by (intro fresh) (auto simp: migrated_at_def Let_def)
next
  case (Some ex)
  with assms show ?thesis
    by (intro known [of ex]) (auto simp: migrated_at_def Let_def)
qed

lemma identity_migration_distinct:
  assumes ok: "identity_map_ok st"
    and pc: "prefetchCache E now st jsonString version = (None, st')"
    and k: "k < number_of_services st'"
  shows "\<And>k0. k0 < number_of_services st \<Longrightarrow>
           trainid_seq (services_sequence st ! k0) = trainid_seq (services_sequence st' ! k) \<Longrightarrow>
           services_basic st' ! k = services_basic st ! k0
           \<and> services_additions st' ! k = services_additions st ! k0
           \<and> services_callingpoints st' ! k =
               (services_callingpoints st ! k0)
                 \<lparr>callingPointsCached := False, service_location_cached := False\<rparr>"
    and "(\<And>k0. k0 < number_of_services st \<Longrightarrow>
           trainid_seq (services_sequence st ! k0) \<noteq> trainid_seq (services_sequence st' ! k)) \<Longrightarrow>
           \<not> static_data_available_basic (services_basic st' ! k)
           \<and> \<not> static_data_available_add (services_additions st' ! k)
           \<and> \<not> callingPointsCached (services_callingpoints st' ! k)
           \<and> \<not> service_location_cached (services_callingpoints st' ! k)"
proof -
  from pc obtain j st1 nv where m: "prefetchMetaData j st = (None, st1)"
    and s: "st' = publish_snapshot E j version st1 nv"
    and mg: "\<And>k. k < number_of_services st' \<Longrightarrow>
           migrated_at E now j version st1 (initial_new_vectors (max_json_size st)) nv k"
    by (rule prefetchCache_effect) blast
  note mf = prefetchMetaData_fields [OF m]
  note pf = publish_snapshot_fields [of E j version st1 nv, folded s]
  let ?tid = "trainid_seq (services_sequence st' ! k)"
  from ok have ok1: "\<And>k0. k0 < number_of_services st \<Longrightarrow>
      map_of (cached_trainIDs st) (trainid_seq (services_sequence st ! k0)) = Some k0"
    and ok2: "\<And>tid k0. map_of (cached_trainIDs st) tid = Some k0 \<Longrightarrow>
      k0 < number_of_services st \<and> trainid_seq (services_sequence st ! k0) = tid"
    unfolding identity_map_ok_def by blast+
  {
    fix k0 assume k0: "k0 < number_of_services st"
      and same: "trainid_seq (services_sequence st ! k0) = ?tid"
    from ok1 [OF k0] same have look: "map_of (cached_trainIDs st) ?tid = Some k0" by simp
    from mg [OF k]
    show "services_basic st' ! k = services_basic st ! k0
           \<and> services_additions st' ! k = services_additions st ! k0
           \<and> services_callingpoints st' ! k =
               (services_callingpoints st ! k0)
                 \<lparr>callingPointsCached := False, service_location_cached := False\<rparr>"
    proof (cases rule: migrated_atE)
      case (known ex)
      with look have "ex = k0" by (simp add: mf pf)
      with known show ?thesis by (simp add: mf pf)
    next
      case fresh
      with look show ?thesis by (simp add: mf pf)
    qed
  }
  {
    assume new: "\<And>k0. k0 < number_of_services st \<Longrightarrow>
           trainid_seq (services_sequence st ! k0) \<noteq> ?tid"
    from mg [OF k]
    show "\<not> static_data_available_basic (services_basic st' ! k)
           \<and> \<not> static_data_available_add (services_additions st' ! k)
           \<and> \<not> callingPointsCached (services_callingpoints st' ! k)
           \<and> \<not> service_location_cached (services_callingpoints st' ! k)"
    proof (cases rule: migrated_atE)
      case (known ex)
      then have "map_of (cached_trainIDs st) ?tid = Some ex" by (simp add: mf pf)
      from ok2 [OF this] new [of ex] show ?thesis by simp
    next
      case fresh
      then show ?thesis by (simp add: pf)
    qed
  }
qed

lemma consecutive_ingestions_distinct:
  assumes first: "updateCache E now0 st0 jsonString0 version0 = (None, st)"
    and dist: "distinct (map (\<lambda>k. trainid_seq (services_sequence st ! k))
                            [0..<number_of_services st])"
    and second: "prefetchCache E now st jsonString version = (None, st')"
    and k: "k < number_of_services st'"
  shows "\<And>k0. k0 < number_of_services st \<Longrightarrow>
           trainid_seq (services_sequence st ! k0) = trainid_seq (services_sequence st' ! k) \<Longrightarrow>
           services_basic st' ! k = services_basic st ! k0
           \<and> services_additions st' ! k = services_additions st ! k0
           \<and> services_callingpoints st' ! k =
               (services_callingpoints st ! k0)
                 \<lparr>callingPointsCached := False, service_location_cached := False\<rparr>"
    and "(\<And>k0. k0 < number_of_services st \<Longrightarrow>
           trainid_seq (services_sequence st ! k0) \<noteq> trainid_seq (services_sequence st' ! k)) \<Longrightarrow>
           \<not> static_data_available_basic (services_basic st' ! k)
           \<and> \<not> static_data_available_add (services_additions st' ! k)
           \<and> \<not> callingPointsCached (services_callingpoints st' ! k)
           \<and> \<not> service_location_cached (services_callingpoints st' ! k)"
  using identity_migration_distinct [OF updateCache_identity_map [OF first dist] second k]
  by blast+

lemma consecutive_ingestions_distinct_example:
  "(let st = example_published;
        st' = snd (prefetchCache example_env 0 st snapshot_arrivals_text 6)
    in map trainid_seq (services_sequence st) = [''X'', ''Y'', ''Z'']
       \<and> map trainid_seq (services_sequence st') = [''Z1'', ''X'', ''Z2'']
       \<and> static_data_available_basic (services_basic st ! 0)
       \<and> services_basic st' ! 1 = services_basic st ! 0
       \<and> services_additions st' ! 1 = services_additions st ! 0
       \<and> services_callingpoints st' ! 1 =
            (services_callingpoints st ! 0)
              \<lparr>callingPointsCached := False, service_location_cached := False\<rparr>
       \<and> \<not> static_data_available_basic (services_basic st' ! 0)
       \<and> \<not> static_data_available_add (services_additions st' ! 0)
       \<and> \<not> callingPointsCached (services_callingpoints st' ! 0)
       \<and> \<not> service_location_cached (services_callingpoints st' ! 0))"
proof -
  define st where "st = example_published"
  define st' where "st' = snd (prefetchCache example_env 0 st snapshot_arrivals_text 6)"
  have first: "updateCache example_env 0 example_loaded snapshot_two_text 5 = (None, st)"
    unfolding st_def by code_simp
  have ids: "map trainid_seq (services_sequence st) = [''X'', ''Y'', ''Z'']"
    unfolding st_def by code_simp
  have n: "number_of_services st = 3" unfolding st_def by code_simp
  have ids': "map trainid_seq (services_sequence st') = [''Z1'', ''X'', ''Z2'']"
    unfolding st'_def st_def by code_simp
  have n': "number_of_services st' = 3" unfolding st'_def st_def by code_simp
  have at: "trainid_seq (services_sequence st ! 0) = ''X''"
    "trainid_seq (services_sequence st ! Suc 0) = ''Y''"
    "trainid_seq (services_sequence st ! 2) = ''Z''"
    "trainid_seq (services_sequence st' ! 0) = ''Z1''"
    "trainid_seq (services_sequence st' ! Suc 0) = ''X''"
    unfolding st'_def st_def by code_simp+
  have dist: "distinct (map (\<lambda>k. trainid_seq (services_sequence st ! k))
                            [0..<number_of_services st])"
    unfolding st_def by code_simp
  have "fst (prefetchCache example_env 0 st snapshot_arrivals_text 6) = None"
    unfolding st_def by code_simp
  then have second: "prefetchCache example_env 0 st snapshot_arrivals_text 6 = (None, st')"
    unfolding st'_def by (simp add: prod_eq_iff)
  have hyd: "static_data_available_basic (services_basic st ! 0)"
    unfolding st_def by code_simp
  have k0: "k0 < 3 \<Longrightarrow> k0 = 0 \<or> k0 = 1 \<or> k0 = 2" for k0 :: nat by arith
  have carried: "services_basic st' ! 1 = services_basic st ! 0
           \<and> services_additions st' ! 1 = services_additions st ! 0
           \<and> services_callingpoints st' ! 1 =
               (services_callingpoints st ! 0)
                 \<lparr>callingPointsCached := False, service_location_cached := False\<rparr>"
    using consecutive_ingestions_distinct(1) [OF first dist second, of 1 0]
    by (simp add: n n' at)
  have new: "\<not> static_data_available_basic (services_basic st' ! 0)
           \<and> \<not> static_data_available_add (services_additions st' ! 0)
           \<and> \<not> callingPointsCached (services_callingpoints st' ! 0)
           \<and> \<not> service_location_cached (services_callingpoints st' ! 0)"
  proof (rule consecutive_ingestions_distinct(2) [OF first dist second])
    show "0 < number_of_services st'" by (simp add: n')
    fix k0 assume "k0 < number_of_services st"
    then have "k0 < 3" by (simp add: n)
    then have "k0 = 0 \<or> k0 = 1 \<or> k0 = 2" by (rule k0)
    then show "trainid_seq (services_sequence st ! k0) \<noteq> trainid_seq (services_sequence st' ! 0)"
      by (auto simp: at)
  qed
  from ids ids' hyd carried new show ?thesis
    unfolding st'_def [symmetric] st_def [symmetric] Let_def by simp
qed

section \<open>Reason codes when the codes are distinct\<close>

text \<open>
  The loop of \<^verbatim>\<open>loadReasonCodes\<close> pushes one record for each element of the feed and
  writes the code map as \<open>record_ids\<close> does. When the map was empty at the start and the
  codes of the feed are distinct, the index kept for a code is the position of its record:
  a code of the feed decodes to the texts of its own record, which is \<open>No Reason\<close> where the
  field is absent, null or empty, and a code that is not in the feed decodes to the empty
  string.
\<close>

lemma loadReasonCodes_step_record:
  "loadReasonCodes_step refdata i (codes, rs) =
     (case reason_of_record refdata i of
        Inl e \<Rightarrow> Inl e
      | Inr r \<Rightarrow> Inr (AList.update (code r) (length codes) codes, rs @ [r]))"
  by (simp add: loadReasonCodes_step_def reason_of_record_def Let_def split: sum.splits)

lemma loadReasonCodes_loop_effect:
  assumes "loadReasonCodes_loop refdata n i acc = (None, acc')"
  shows "\<exists>new. length new = n - i
           \<and> snd acc' = snd acc @ new
           \<and> fst acc' = record_ids (map code new) (fst acc)
           \<and> (\<forall>k < n - i. reason_of_record refdata (i + k) = Inr (new ! k))"
  using assms
proof (induction refdata n i acc rule: loadReasonCodes_loop.induct)
  case (1 refdata n i acc)
  show ?case
  proof (cases "i < n")
    case False
    with "1.prems" have "acc' = acc"
      by (simp add: loadReasonCodes_loop.simps [of refdata n i acc])
    with False show ?thesis by simp
  next
    case True
    obtain codes rs where acc: "acc = (codes, rs)" by (cases acc)
    from True "1.prems" obtain acc1 where
      step: "loadReasonCodes_step refdata i acc = Inr acc1"
      and rest: "loadReasonCodes_loop refdata n (i + 1) acc1 = (None, acc')"
      by (cases "loadReasonCodes_step refdata i acc")
         (auto simp: loadReasonCodes_loop.simps [of refdata n i acc])
    from step obtain r where r: "reason_of_record refdata i = Inr r"
      and acc1: "acc1 = (AList.update (code r) (length codes) codes, rs @ [r])"
      unfolding acc loadReasonCodes_step_record by (auto split: sum.splits)
    from "1.IH" [OF True step rest] obtain new where
      len: "length new = n - (i + 1)"
      and s: "snd acc' = snd acc1 @ new"
      and f: "fst acc' = record_ids (map code new) (fst acc1)"
      and recs: "\<forall>k < n - (i + 1). reason_of_record refdata (i + 1 + k) = Inr (new ! k)"
      by blast
    have "length (r # new) = n - i" using len True by simp
    moreover have "snd acc' = snd acc @ (r # new)" using s by (simp add: acc acc1)
    moreover have "fst acc' = record_ids (map code (r # new)) (fst acc)"
      using f by (simp add: acc acc1)
    moreover have "\<forall>k < n - i. reason_of_record refdata (i + k) = Inr ((r # new) ! k)"
    proof (intro allI impI)
      fix k assume k: "k < n - i"
      show "reason_of_record refdata (i + k) = Inr ((r # new) ! k)"
      proof (cases k)
        case 0
        with r show ?thesis by simp
      next
        case (Suc k')
        with k have "k' < n - (i + 1)" by simp
        with recs have "reason_of_record refdata (i + 1 + k') = Inr (new ! k')" by blast
        with Suc show ?thesis by simp
      qed
    qed
    ultimately show ?thesis by blast
  qed
qed

lemma loadReasonCodes_NoneE:
  assumes "loadReasonCodes E st reasonJsonString = (None, st')"
  obtains refdata codes rs where "parse_json E reasonJsonString = Some refdata"
    and "loadReasonCodes_loop refdata (json_size refdata) 0 (reason_codes st, []) = (None, codes, rs)"
    and "reason_codes st' = codes" and "delay_cancel_reasons st' = rs"
  using assms unfolding loadReasonCodes_def
  by (auto simp: CreateNullServiceInfo_def split: option.splits prod.splits)

lemma loadReasonCodes_effect:
  assumes "loadReasonCodes E st reasonJsonString = (None, st')"
  obtains refdata where "parse_json E reasonJsonString = Some refdata"
    and "length (delay_cancel_reasons st') = json_size refdata"
    and "reason_codes st' = record_ids (map code (delay_cancel_reasons st')) (reason_codes st)"
    and "\<And>i. i < json_size refdata \<Longrightarrow>
           reason_of_record refdata i = Inr (delay_cancel_reasons st' ! i)"
proof -
  from assms obtain refdata codes rs where p: "parse_json E reasonJsonString = Some refdata"
    and l: "loadReasonCodes_loop refdata (json_size refdata) 0 (reason_codes st, []) = (None, codes, rs)"
    and c: "reason_codes st' = codes" and d: "delay_cancel_reasons st' = rs"
    by (rule loadReasonCodes_NoneE)
  from loadReasonCodes_loop_effect [OF l] obtain new where
    "length new = json_size refdata" "rs = new"
    "codes = record_ids (map code new) (reason_codes st)"
    "\<forall>k < json_size refdata. reason_of_record refdata k = Inr (new ! k)"
    by auto
  with p c d show ?thesis by (intro that [of refdata]) auto
qed

lemma extractJSONvalue_string_default:
  "json_find source key = None \<or> json_find source key = Some JNull
   \<or> json_find source key = Some (JStr []) \<Longrightarrow>
   extractJSONvalue_string source key default_value = default_value"
  by (auto simp: extractJSONvalue_string_def)

lemma reason_codes_distinct:
  assumes load: "loadReasonCodes E st reasonJsonString = (None, st')"
    and empty: "reason_codes st = []"
    and dist: "distinct (map code (delay_cancel_reasons st'))"
  shows "\<And>i c. i < length (delay_cancel_reasons st') \<Longrightarrow>
           code (delay_cancel_reasons st' ! i) = to_string c \<Longrightarrow>
           decodeDelayCode st' c = Inr (delayReason_ref (delay_cancel_reasons st' ! i))
           \<and> decodeCancelCode st' c = Inr (cancelReason_ref (delay_cancel_reasons st' ! i))"
    and "\<And>c. to_string c \<notin> code ` set (delay_cancel_reasons st') \<Longrightarrow>
           decodeDelayCode st' c = Inr [] \<and> decodeCancelCode st' c = Inr []"
proof -
  let ?rs = "delay_cancel_reasons st'"
  from load have "reason_codes st' = record_ids (map code ?rs) (reason_codes st)"
    by (rule loadReasonCodes_effect)
  with empty have rc: "reason_codes st' = record_ids (map code ?rs) []" by simp
  have look: "map_of (reason_codes st') t = Some k \<longleftrightarrow> k < length ?rs \<and> code (?rs ! k) = t"
    for t k
    unfolding rc record_ids_identity [OF dist] by auto
  {
    fix i c assume i: "i < length ?rs" and c: "code (?rs ! i) = to_string c"
    then have "map_of (reason_codes st') (to_string c) = Some i" by (simp add: look)
    with i show "decodeDelayCode st' c = Inr (delayReason_ref (?rs ! i))
           \<and> decodeCancelCode st' c = Inr (cancelReason_ref (?rs ! i))"
      by (simp add: decodeDelayCode_def decodeCancelCode_def vec_at_def)
  }
  {
    fix c assume c: "to_string c \<notin> code ` set ?rs"
    have "map_of (reason_codes st') (to_string c) = None"
    proof (cases "map_of (reason_codes st') (to_string c)")
      case None
      then show ?thesis .
    next
      case (Some k)
      then have "k < length ?rs \<and> code (?rs ! k) = to_string c" by (simp add: look)
      then have "to_string c \<in> code ` set ?rs" by (metis imageI nth_mem)
      with c show ?thesis by simp
    qed
    then show "decodeDelayCode st' c = Inr [] \<and> decodeCancelCode st' c = Inr []"
      by (simp add: decodeDelayCode_def decodeCancelCode_def)
  }
qed

lemma reason_codes_default_text:
  assumes load: "loadReasonCodes E st reasonJsonString = (None, st')"
    and empty: "reason_codes st = []"
    and dist: "distinct (map code (delay_cancel_reasons st'))"
    and parsed: "parse_json E reasonJsonString = Some refdata"
    and i: "i < json_size refdata"
    and rec: "json_idx refdata i = Inr rec"
    and cj: "json_key rec ''code'' = Inr (JNum (int c))" and c: "c < 2 ^ 64"
    and late: "json_find rec ''lateReason'' = None \<or> json_find rec ''lateReason'' = Some JNull
               \<or> json_find rec ''lateReason'' = Some (JStr [])"
  shows "decodeDelayCode st' c = Inr ''No Reason''"
proof -
  from load obtain refdata' where "parse_json E reasonJsonString = Some refdata'"
    and len: "length (delay_cancel_reasons st') = json_size refdata'"
    and recs: "\<And>i. i < json_size refdata' \<Longrightarrow>
           reason_of_record refdata' i = Inr (delay_cancel_reasons st' ! i)"
    by (rule loadReasonCodes_effect) blast
  with parsed have same: "refdata' = refdata" by simp
  have g: "get_size_t (JNum (int c)) = Inr c" using c by (simp add: get_size_t_def)
  have "reason_of_record refdata i =
          Inr \<lparr>delayReason_ref = ''No Reason'',
               cancelReason_ref = extractJSONvalue_string rec ''cancReason'' ''No Reason'',
               code = to_string c\<rparr>"
    by (simp add: reason_of_record_def rec cj g extractJSONvalue_string_default [OF late])
  with recs [of i] i same
  have r: "delay_cancel_reasons st' ! i =
          \<lparr>delayReason_ref = ''No Reason'',
           cancelReason_ref = extractJSONvalue_string rec ''cancReason'' ''No Reason'',
           code = to_string c\<rparr>" by simp
  from i len same have "i < length (delay_cancel_reasons st')" by simp
  from reason_codes_distinct(1) [OF load empty dist this, of c] r
  show ?thesis by simp
qed

lemma reason_codes_default_text_example:
  "decodeDelayCode example_loaded 101 = Inr ''No Reason''"
proof -
  have "fst (loadReasonCodes example_env example_parser reasons_text) = None" by code_simp
  then have load: "loadReasonCodes example_env example_parser reasons_text = (None, example_loaded)"
    by (simp add: example_loaded_def prod_eq_iff)
  have empty: "reason_codes example_parser = []" by code_simp
  have dist: "distinct (map code (delay_cancel_reasons example_loaded))" by code_simp
  have parsed: "parse_json example_env reasons_text = Some reasons_json" by code_simp
  have i: "Suc 0 < json_size reasons_json" by code_simp
  have rec: "json_idx reasons_json (Suc 0) = Inr (JObj [(''code'', JNum 101)])" by code_simp
  have cj: "json_key (JObj [(''code'', JNum 101)]) ''code'' = Inr (JNum (int 101))" by code_simp
  have late: "json_find (JObj [(''code'', JNum 101)]) ''lateReason'' = None" by code_simp
  from reason_codes_default_text [OF load empty dist parsed i rec cj _ disjI1 [OF late]]
  show ?thesis by simp
qed

section \<open>Ordering of the departures\<close>


lemma strict_weak_order_departure_before: "strict_weak_order A (departure_before tlist)"
  unfolding strict_weak_order_def departure_before_def Let_def
  by (intro conjI ballI) (auto split: if_splits)

lemma strict_weak_order_negtrans:
  assumes "strict_weak_order A cmp" "x \<in> A" "y \<in> A" "z \<in> A" "\<not> cmp z y" "\<not> cmp y x"
  shows "\<not> cmp z x"
proof
  assume zx: "cmp z x"
  from assms(1) have irr: "\<And>a. a \<in> A \<Longrightarrow> \<not> cmp a a"
    and tr: "\<And>a b c. a \<in> A \<Longrightarrow> b \<in> A \<Longrightarrow> c \<in> A \<Longrightarrow> cmp a b \<Longrightarrow> cmp b c \<Longrightarrow> cmp a c"
    and inc: "\<And>a b c. a \<in> A \<Longrightarrow> b \<in> A \<Longrightarrow> c \<in> A \<Longrightarrow> \<not> cmp a b \<Longrightarrow> \<not> cmp b a \<Longrightarrow>
                \<not> cmp b c \<Longrightarrow> \<not> cmp c b \<Longrightarrow> \<not> cmp a c \<and> \<not> cmp c a"
    unfolding strict_weak_order_def by blast+
  have "\<not> cmp y z"
  proof
    assume "cmp y z"
    from tr [OF assms(3,4,2) this zx] assms(6) show False by simp
  qed
  moreover have "\<not> cmp x y"
  proof
    assume "cmp x y"
    from tr [OF assms(4,2,3) zx this] assms(5) show False by simp
  qed
  ultimately have "\<not> cmp z x"
    using inc [OF assms(4,3,2)] assms(5,6) by blast
  with zx show False by simp
qed

lemma strict_weak_order_asym:
  assumes "strict_weak_order A cmp" "x \<in> A" "y \<in> A" "cmp x y"
  shows "\<not> cmp y x"
proof
  assume "cmp y x"
  from assms(1) have irr: "\<And>a. a \<in> A \<Longrightarrow> \<not> cmp a a"
    and tr: "\<And>a b c. a \<in> A \<Longrightarrow> b \<in> A \<Longrightarrow> c \<in> A \<Longrightarrow> cmp a b \<Longrightarrow> cmp b c \<Longrightarrow> cmp a c"
    unfolding strict_weak_order_def by blast+
  from tr [OF assms(2,3,2) assms(4) \<open>cmp y x\<close>] irr [OF assms(2)] show False by simp
qed

lemma set_insert_by: "set (insert_by cmp x ys) = insert x (set ys)"
  by (induction ys) auto

lemma mset_insert_by: "mset (insert_by cmp x ys) = add_mset x (mset ys)"
  by (induction ys) auto

lemma mset_insertion_sort: "mset (insertion_sort cmp xs) = mset xs"
  by (induction xs) (auto simp: mset_insert_by)

lemma set_insertion_sort: "set (insertion_sort cmp xs) = set xs"
  by (induction xs) (auto simp: set_insert_by)

lemma sorted_insert_by:
  assumes swo: "strict_weak_order A cmp" and "x \<in> A" "set ys \<subseteq> A"
    and "sorted_wrt (\<lambda>a b. \<not> cmp b a) ys"
  shows "sorted_wrt (\<lambda>a b. \<not> cmp b a) (insert_by cmp x ys)"
  using assms(3,4)
proof (induction ys)
  case Nil
  then show ?case by simp
next
  case (Cons y ys)
  show ?case
  proof (cases "cmp y x")
    case True
    have "\<not> cmp x y"
      using strict_weak_order_asym [OF swo _ assms(2) True] Cons.prems(1) by simp
    with True Cons show ?thesis
      by (auto simp: set_insert_by)
  next
    case False
    have "\<forall>z \<in> set ys. \<not> cmp z x"
    proof
      fix z assume z: "z \<in> set ys"
      with Cons.prems have "\<not> cmp z y" by simp
      from strict_weak_order_negtrans [OF swo assms(2) _ _ this False] z Cons.prems(1)
      show "\<not> cmp z x" by auto
    qed
    with False Cons.prems show ?thesis by auto
  qed
qed

lemma sorted_insertion_sort:
  assumes "strict_weak_order A cmp" "set xs \<subseteq> A"
  shows "sorted_wrt (\<lambda>a b. \<not> cmp b a) (insertion_sort cmp xs)"
  using assms(2)
proof (induction xs)
  case Nil
  then show ?case by simp
next
  case (Cons x xs)
  then show ?case
    using sorted_insert_by [OF assms(1), of x "insertion_sort cmp xs"]
    by (simp add: set_insertion_sort)
qed

lemma meets_sort_contract_insertion_sort: "meets_sort_contract insertion_sort"
  unfolding meets_sort_contract_def
  using sorted_insertion_sort [OF _ subset_refl] by (simp add: mset_insertion_sort)

lemma orderTheDepartureList_result:
  assumes "number_of_services st \<le> length (ETDOrderedList st)"
  shows "ETDOrderedList (orderTheDepartureList E st) =
           std_sort E (departure_before
                         (map (\<lambda>i. if i < number_of_services st
                                    then departure_time (services_sequence st ! i) else 0)
                              [0..<max_json_size st]))
                      [0..<number_of_services st]
           @ replicate (length (ETDOrderedList st) - number_of_services st) 999"
proof -
  let ?n = "number_of_services st" and ?L = "length (ETDOrderedList st)"
  let ?f = "\<lambda>i. if i < ?n then i else (999::nat)"
  have "map ?f [0..<?n] = [0..<?n]"
    by (rule map_idI) simp
  then have t: "take ?n (map ?f [0..<?L]) = [0..<?n]"
    using assms by (simp add: take_map min_def)
  have d: "drop ?n (map ?f [0..<?L]) = replicate (?L - ?n) 999"
  proof -
    have "map ?f [?n..<?L] = map (\<lambda>i. 999) [?n..<?L]"
      by (rule map_cong) auto
    then show ?thesis
      by (simp add: drop_map map_replicate_const)
  qed
  show ?thesis
    by (simp add: orderTheDepartureList_def Let_def t d)
qed

lemma prefetchCache_orders:
  assumes "prefetchCache E now st jsonString version = (None, st')"
    and "length (ETDOrderedList st) = max_json_size st"
  shows "\<exists>st2. ETDOrderedList st' = ETDOrderedList (orderTheDepartureList E st2)
           \<and> services_sequence st2 = services_sequence st'
           \<and> number_of_services st2 = number_of_services st'
           \<and> max_json_size st2 = max_json_size st'
           \<and> length (ETDOrderedList st2) = length (ETDOrderedList st)
           \<and> number_of_services st2 \<le> length (ETDOrderedList st2)
           \<and> number_of_services st2 \<le> max_json_size st2"
proof -
  from assms(1) obtain j st1 nv where md: "prefetchMetaData j st = (None, st1)"
    and st': "st' = publish_snapshot E j version st1 nv"
    by (auto elim!: prefetchCache_NoneE)
  define st2 where "st2 = st1\<lparr>data := j,
                    services_basic := new_services_basic nv,
                    services_additions := new_services_additions nv,
                    services_callingpoints := new_services_callingpoints nv,
                    services_sequence := new_services_sequence nv,
                    cached_trainIDs := new_cached_trainIDs nv,
                    api_data_version := version\<rparr>"
  have a: "st' = (orderTheDepartureList E st2)
                   \<lparr>service_List := replicate (length (service_List (orderTheDepartureList E st2))) 999\<rparr>"
    by (simp add: st' publish_snapshot_def Let_def st2_def)
  have "number_of_services st2 \<le> max_json_size st2" "max_json_size st2 = max_json_size st"
    "length (ETDOrderedList st2) = length (ETDOrderedList st)"
    using prefetchMetaData_fields [OF md] by (simp_all add: st2_def)
  then show ?thesis
    using assms(2) by (intro exI [of _ st2]) (simp add: a orderTheDepartureList_kept)
qed

text \<open>
  On a range of at most 16 elements the introsort loop of libstdc++ does nothing and
  \<^verbatim>\<open>std::sort\<close> is its insertion sort; there it leaves services with equal times in the order
  of their indices, as the insertion sort of \<open>example_env\<close> does.
\<close>

lemma libstdcxx_sort_small:
  "length xs \<le> 16 \<Longrightarrow> libstdcxx_sort cmp xs = std_insertion_sort cmp xs 0 (length xs)"
  by (simp add: libstdcxx_sort_def std_sort_range_def final_insertion_sort_def S_threshold_def
        std_insertion_sort_def introsort_loop.simps [of cmp xs 0 "length xs"])

lemma libstdcxx_sort_small_example:
  "libstdcxx_sort (departure_before [5, 3, 0, 3, 0]) [0, 1, 2, 3, 4] = [1, 3, 0, 2, 4]
   \<and> insertion_sort (departure_before [5, 3, 0, 3, 0]) [0, 1, 2, 3, 4] = [1, 3, 0, 2, 4]"
  by code_simp

text \<open>
  Claim C2, as the spec states it: the ordering is a stable sort by effective departure
  time. The order is produced by \<^verbatim>\<open>std::sort\<close>, whose contract leaves the order of equivalent
  elements open, and the comparator breaks ties by index among INVALID times only. The
  board below holds seventeen services in the order of their times; the services at the
  indices 7 and 8 have the same valid departure time. With \<^verbatim>\<open>std::sort\<close> of libstdc++ the
  range of seventeen is partitioned once around the median of the entries 1, 8 and 16,
  which exchanges the entries 7 and 8: the index 8 comes out before the index 7.
\<close>

theorem equal_times_order_counterexample:
  "(let st = snd (prefetchCache example_env_libstdcxx 0 example_board_parser snapshot_board_text 5)
    in fst (prefetchCache example_env_libstdcxx 0 example_board_parser snapshot_board_text 5) = None
       \<and> number_of_services st = 17
       \<and> departure_time (services_sequence st ! 7) = departure_time (services_sequence st ! 8)
       \<and> departure_time (services_sequence st ! 7) \<noteq> INVALID_TIME
       \<and> take (number_of_services st) (ETDOrderedList st)
           = [0, 1, 2, 3, 4, 5, 6, 8, 7, 9, 10, 11, 12, 13, 14, 15, 16])"
  by code_simp

text \<open>
  Claim C2, amended: for \<open>N\<close> services (\<open>N\<close> within the sizes of the vectors) and every
  \<^verbatim>\<open>std::sort\<close> that meets its contract, \<open>orderTheDepartureList\<close> leaves in the first \<open>N\<close> places
  of \<open>ETDOrderedList\<close> a permutation of the indices \<open>0..N-1\<close> (and 999 in the places beyond),
  in which valid effective departure times ascend, every index with an INVALID time comes
  after every index with a valid time, and the indices with an INVALID time keep their
  original relative order. The relative order of indices with equal valid times is not
  determined.
\<close>

theorem departure_order_sorted:
  assumes "meets_sort_contract (std_sort E)"
    and "number_of_services st \<le> length (ETDOrderedList st)"
    and "number_of_services st \<le> max_json_size st"
  shows "let n = number_of_services st;
             out = take n (ETDOrderedList (orderTheDepartureList E st));
             T = (\<lambda>i. departure_time (services_sequence st ! i))
         in mset out = mset [0..<n]
            \<and> drop n (ETDOrderedList (orderTheDepartureList E st))
                = replicate (length (ETDOrderedList st) - n) 999
            \<and> (\<forall>i j. i < j \<and> j < n \<longrightarrow>
                  (T (out ! i) \<noteq> INVALID_TIME \<and> T (out ! j) \<noteq> INVALID_TIME
                     \<longrightarrow> T (out ! i) \<le> T (out ! j))
                  \<and> (T (out ! i) = INVALID_TIME \<longrightarrow> T (out ! j) = INVALID_TIME)
                  \<and> (T (out ! i) = INVALID_TIME \<and> T (out ! j) = INVALID_TIME
                     \<longrightarrow> out ! i < out ! j))"
proof -
  define n where "n = number_of_services st"
  define tlist where "tlist = map (\<lambda>i. if i < n then departure_time (services_sequence st ! i) else 0)
                              [0..<max_json_size st]"
  define sorted_part where "sorted_part = std_sort E (departure_before tlist) [0..<n]"
  define T where "T = (\<lambda>i. departure_time (services_sequence st ! i))"
  have res: "ETDOrderedList (orderTheDepartureList E st) =
      sorted_part @ replicate (length (ETDOrderedList st) - n) 999"
    using orderTheDepartureList_result [OF assms(2)]
    by (simp add: sorted_part_def tlist_def n_def)
  have swo: "strict_weak_order (set [0..<n]) (departure_before tlist)"
    by (rule strict_weak_order_departure_before)
  from assms(1) swo have ms: "mset sorted_part = mset [0..<n]"
    and so: "sorted_wrt (\<lambda>a b. \<not> departure_before tlist b a) sorted_part"
    unfolding meets_sort_contract_def sorted_part_def by blast+
  from ms have len: "length sorted_part = n"
    by (metis length_upt mset_eq_length minus_nat.diff_0)
  from ms have st: "set sorted_part = {0..<n}"
    by (metis mset_eq_setD set_upt)
  from ms have di: "distinct sorted_part"
    by (metis distinct_upt mset_eq_imp_distinct_iff)
  have out: "take n (ETDOrderedList (orderTheDepartureList E st)) = sorted_part"
    by (simp add: res len)
  have dr: "drop n (ETDOrderedList (orderTheDepartureList E st))
              = replicate (length (ETDOrderedList st) - n) 999"
    by (simp add: res len)
  have tl: "\<And>a. a < n \<Longrightarrow> tlist ! a = T a"
    using assms(3) by (simp add: tlist_def T_def n_def)
  have ord: "(T (sorted_part ! i) \<noteq> INVALID_TIME \<and> T (sorted_part ! j) \<noteq> INVALID_TIME
                     \<longrightarrow> T (sorted_part ! i) \<le> T (sorted_part ! j))
                  \<and> (T (sorted_part ! i) = INVALID_TIME \<longrightarrow> T (sorted_part ! j) = INVALID_TIME)
                  \<and> (T (sorted_part ! i) = INVALID_TIME \<and> T (sorted_part ! j) = INVALID_TIME
                     \<longrightarrow> sorted_part ! i < sorted_part ! j)"
    if ij: "i < j" "j < n" for i j
  proof -
    from ij len have a: "sorted_part ! i < n" and b: "sorted_part ! j < n"
      using st nth_mem [of i sorted_part] nth_mem [of j sorted_part] by auto
    from ij len di have ne: "sorted_part ! i \<noteq> sorted_part ! j"
      by (simp add: nth_eq_iff_index_eq)
    from so ij len have "\<not> departure_before tlist (sorted_part ! j) (sorted_part ! i)"
      by (simp add: sorted_wrt_iff_nth_less)
    with ne show ?thesis
      by (auto simp: departure_before_def Let_def tl [OF a] tl [OF b] split: if_splits)
  qed
  show ?thesis
    unfolding Let_def n_def [symmetric] T_def [symmetric] out
    using ms dr ord by blast
qed

theorem departure_order_sorted_witness:
  "meets_sort_contract (std_sort example_env)
   \<and> (let st = example_prefetched snapshot_arrivals_text;
          n = number_of_services st;
          out = take n (ETDOrderedList (orderTheDepartureList example_env st));
          T = (\<lambda>i. departure_time (services_sequence st ! i))
      in n \<le> length (ETDOrderedList st) \<and> n \<le> max_json_size st \<and> n = 3
         \<and> mset out = mset [0..<n]
         \<and> T (out ! 0) \<noteq> INVALID_TIME \<and> T (out ! 1) = INVALID_TIME \<and> T (out ! 2) = INVALID_TIME
         \<and> out ! 1 < out ! 2)
   \<and> (let st = example_published;
          n = number_of_services st;
          out = take n (ETDOrderedList (orderTheDepartureList example_env st));
          T = (\<lambda>i. departure_time (services_sequence st ! i))
      in n \<le> length (ETDOrderedList st) \<and> n \<le> max_json_size st \<and> n = 3
         \<and> T (out ! 0) \<noteq> INVALID_TIME \<and> T (out ! 1) \<noteq> INVALID_TIME
         \<and> T (out ! 0) \<le> T (out ! 1))"
proof -
  define s1 where "s1 = example_prefetched snapshot_arrivals_text"
  define s2 where "s2 = example_published"
  define o1 where "o1 = take (number_of_services s1) (ETDOrderedList (orderTheDepartureList example_env s1))"
  define o2 where "o2 = take (number_of_services s2) (ETDOrderedList (orderTheDepartureList example_env s2))"
  have "std_sort example_env = insertion_sort"
    by (simp add: example_env_def)
  then have c: "meets_sort_contract (std_sort example_env)"
    by (simp add: meets_sort_contract_insertion_sort)
  have n1: "number_of_services s1 \<le> length (ETDOrderedList s1)"
    "number_of_services s1 \<le> max_json_size s1" "number_of_services s1 = 3"
    unfolding s1_def by code_simp+
  have n2: "number_of_services s2 \<le> length (ETDOrderedList s2)"
    "number_of_services s2 \<le> max_json_size s2" "number_of_services s2 = 3"
    unfolding s2_def by code_simp+
  have t1: "departure_time (services_sequence s1 ! (o1 ! 0)) \<noteq> INVALID_TIME"
    "departure_time (services_sequence s1 ! (o1 ! 1)) = INVALID_TIME"
    "departure_time (services_sequence s1 ! (o1 ! 2)) = INVALID_TIME"
    unfolding s1_def o1_def by code_simp+
  have t2: "departure_time (services_sequence s2 ! (o2 ! 0)) \<noteq> INVALID_TIME"
    "departure_time (services_sequence s2 ! (o2 ! 1)) \<noteq> INVALID_TIME"
    unfolding s2_def o2_def by code_simp+
  from departure_order_sorted [OF c n1(1,2)]
  have r1: "mset o1 = mset [0..<number_of_services s1]"
    and "\<forall>i j. i < j \<and> j < number_of_services s1 \<longrightarrow>
           (departure_time (services_sequence s1 ! (o1 ! i)) = INVALID_TIME
            \<and> departure_time (services_sequence s1 ! (o1 ! j)) = INVALID_TIME \<longrightarrow> o1 ! i < o1 ! j)"
    by (simp_all add: Let_def o1_def)
  then have r1b: "o1 ! 1 < o1 ! 2"
    using t1 n1(3) by (metis numeral_2_eq_2 numeral_3_eq_3 lessI One_nat_def)
  from departure_order_sorted [OF c n2(1,2)]
  have "\<forall>i j. i < j \<and> j < number_of_services s2 \<longrightarrow>
           (departure_time (services_sequence s2 ! (o2 ! i)) \<noteq> INVALID_TIME
            \<and> departure_time (services_sequence s2 ! (o2 ! j)) \<noteq> INVALID_TIME \<longrightarrow>
            departure_time (services_sequence s2 ! (o2 ! i))
              \<le> departure_time (services_sequence s2 ! (o2 ! j)))"
    by (simp add: Let_def o2_def)
  then have r2: "departure_time (services_sequence s2 ! (o2 ! 0))
              \<le> departure_time (services_sequence s2 ! (o2 ! 1))"
    using t2 n2(3) by (metis zero_less_one one_less_numeral_iff semiring_norm(77))
  show ?thesis
    using c n1 n2 t1 t2 r1 r1b r2
    by (simp add: Let_def s1_def [symmetric] s2_def [symmetric] o1_def o2_def)
qed

end
